(* ===== verification/Prelude.thy ===== *)
theory Prelude
  imports Main
    "HOL-Library.Word"
    "HOL-Library.List_Lexorder"
    "HOL-Library.Char_ord"
    "HOL-Library.Multiset"
begin

text \<open>
  What every component of the model shares: the results a Go method can end with, the part
  of \<open>sdk.Context\<close> all keepers read, Go's fixed-width integer conversions and truncated
  division, time arithmetic, and the lemmas and fact collections the component theories
  work with.

  A method that takes a context and may write to the stores is a function from the context
  to a result and the context it leaves. A Go \<open>error\<close> return is \<open>Err\<close>, a run-time panic is
  \<open>Panic\<close>; in both cases the context reached so far is kept, because that is what the code
  does: \<open>x/schedule\<close> recovers the panic of a task and goes on with the stores as the task
  left them.
\<close>

section \<open>Fact collections\<close>

named_theorems op_simps \<open>unfolding rules of the result combinators\<close>
named_theorems keeps_intros \<open>what the result combinators preserve\<close>

section \<open>Errors and results\<close>

text \<open>
  \<open>Registered m c\<close> is \<open>errorsmod.Register(m, c, ...)\<close>, \<open>Text\<close> is \<open>errors.New\<close> or
  \<open>errors.Errorf\<close>. \<open>errors.Wrap\<close> adds a message for the log and keeps the cause, which is
  what \<open>errors.Is\<close> looks at: a wrapped error is represented by its cause.
\<close>

datatype error = Registered string nat | Text string

datatype 'a res = Ok 'a | Err error | Panic error

definition ErrInvalidCoins :: error where "ErrInvalidCoins = Registered ''sdk'' 10"
definition ErrInsufficientFunds :: error where "ErrInsufficientFunds = Registered ''sdk'' 5"
definition ErrInvalidAddress :: error where "ErrInvalidAddress = Registered ''sdk'' 7"
definition ErrUnknownAddress :: error where "ErrUnknownAddress = Registered ''sdk'' 9"
definition ErrUnauthorized :: error where "ErrUnauthorized = Registered ''sdk'' 4"
definition ErrInvalidRequest :: error where "ErrInvalidRequest = Registered ''sdk'' 18"

definition nil_deref :: error where
  "nil_deref = Text ''invalid memory address or nil pointer dereference''"

definition index_out_of_range :: error where
  "index_out_of_range = Text ''index out of range''"

fun is_ok :: "'a res \<Rightarrow> bool" where
  "is_ok (Ok _) = True"
| "is_ok _ = False"

text \<open>Sequencing: the rest runs only when the step returned without error or panic.\<close>

fun and_then :: "'a res \<times> 's \<Rightarrow> ('a \<Rightarrow> 's \<Rightarrow> 'b res \<times> 's) \<Rightarrow> 'b res \<times> 's" where
  "and_then (Ok v, s) f = f v s"
| "and_then (Err e, s) f = (Err e, s)"
| "and_then (Panic e, s) f = (Panic e, s)"

text \<open>Sequencing of pure steps, with no context involved.\<close>

fun bind_res :: "'a res \<Rightarrow> ('a \<Rightarrow> 'b res) \<Rightarrow> 'b res" where
  "bind_res (Ok v) f = f v"
| "bind_res (Err e) f = Err e"
| "bind_res (Panic e) f = Panic e"

text \<open>A pure step lifted into a context.\<close>

definition lift_res :: "'a res \<Rightarrow> 's \<Rightarrow> 'a res \<times> 's" where
  "lift_res r s = (r, s)"

text \<open>\<open>for _, x := range xs { if err := f(x); err != nil { return err } }\<close>\<close>

fun for_each :: "'b list \<Rightarrow> ('b \<Rightarrow> 's \<Rightarrow> unit res \<times> 's) \<Rightarrow> 's \<Rightarrow> unit res \<times> 's" where
  "for_each [] f s = (Ok (), s)"
| "for_each (x # xs) f s = and_then (f x s) (\<lambda>_ s'. for_each xs f s')"

text \<open>The \<open>Must...\<close> wrappers: an error return becomes a panic.\<close>

fun must :: "'a res \<times> 's \<Rightarrow> 'a res \<times> 's" where
  "must (Err e, s) = (Panic e, s)"
| "must r = r"

text \<open>\<open>defer recover()\<close> that turns a panic into an error return.\<close>

fun recover_err :: "'a res \<times> 's \<Rightarrow> 'a res \<times> 's" where
  "recover_err (Panic e, s) = (Err e, s)"
| "recover_err r = r"

lemmas res_splits = res.splits prod.splits

lemma and_then_eq [op_simps]:
  "and_then r f =
     (case fst r of Ok v \<Rightarrow> f v (snd r) | Err e \<Rightarrow> (Err e, snd r) | Panic e \<Rightarrow> (Panic e, snd r))"
  by (cases r; cases "fst r") auto

lemma and_then_Ok_iff:
  "and_then r f = (Ok w, s') \<longleftrightarrow> (\<exists>v s. r = (Ok v, s) \<and> f v s = (Ok w, s'))"
  by (cases r; cases "fst r") auto

lemma bind_res_Ok_iff: "bind_res r f = Ok w \<longleftrightarrow> (\<exists>v. r = Ok v \<and> f v = Ok w)"
  by (cases r) auto

lemma fst_and_then_Ok:
  "fst (and_then r f) = Ok w \<longleftrightarrow> (\<exists>v s. r = (Ok v, s) \<and> fst (f v s) = Ok w)"
  by (cases r; cases "fst r") auto

lemma for_each_append:
  "for_each (xs @ ys) f s = and_then (for_each xs f s) (\<lambda>_ s'. for_each ys f s')"
proof (induction xs arbitrary: s)
  case (Cons x xs)
  then show ?case by (cases "f x s"; cases "fst (f x s)") auto
qed simp

subsection \<open>What a step keeps\<close>

text \<open>
  \<open>keeps P m\<close>: from a context with \<open>P\<close> the step leaves a context with \<open>P\<close>, however it
  ends. \<open>keeps_obs g m\<close>: the step does not change the observation \<open>g\<close>.
\<close>

definition keeps :: "('s \<Rightarrow> bool) \<Rightarrow> ('s \<Rightarrow> 'a res \<times> 's) \<Rightarrow> bool" where
  "keeps P m \<longleftrightarrow> (\<forall>s. P s \<longrightarrow> P (snd (m s)))"

lemma keepsI: "(\<And>s. P s \<Longrightarrow> P (snd (m s))) \<Longrightarrow> keeps P m"
  by (simp add: keeps_def)

lemma keepsD: "keeps P m \<Longrightarrow> P s \<Longrightarrow> P (snd (m s))"
  by (simp add: keeps_def)

lemma keeps_and_then:
  assumes "P (snd r)" and "\<And>v s. r = (Ok v, s) \<Longrightarrow> P s \<Longrightarrow> P (snd (f v s))"
  shows "P (snd (and_then r f))"
  using assms by (cases r; cases "fst r") auto

lemma keeps_must [simp]: "snd (must r) = snd r"
  by (cases r; cases "fst r") auto

lemma keeps_recover_err [simp]: "snd (recover_err r) = snd r"
  by (cases r; cases "fst r") auto

lemma keeps_for_each:
  assumes "\<And>x s. x \<in> set xs \<Longrightarrow> P s \<Longrightarrow> P (snd (f x s))"
  shows "P s \<Longrightarrow> P (snd (for_each xs f s))"
  using assms
proof (induction xs arbitrary: s)
  case (Cons x xs)
  show ?case
    unfolding for_each.simps
  proof (rule keeps_and_then)
    show "P (snd (f x s))" using Cons.prems by simp
  next
    fix v s' assume "P s'"
    then show "P (snd (for_each xs f s'))" using Cons.IH Cons.prems(2) by simp
  qed
qed simp

lemma must_Ok_iff [simp]: "must r = (Ok v, s) \<longleftrightarrow> r = (Ok v, s)"
  by (cases r; cases "fst r") auto

lemma recover_err_Ok_iff [simp]: "recover_err r = (Ok v, s) \<longleftrightarrow> r = (Ok v, s)"
  by (cases r; cases "fst r") auto

lemma recover_err_no_panic [simp]: "fst (recover_err r) \<noteq> Panic e"
  by (cases r; cases "fst r") auto

text \<open>
  Congruences for running an operation on a concrete state by simplification: what follows a
  step is looked at only once the step has its result.
\<close>

lemma and_then_weak: "r = r' \<Longrightarrow> and_then r f = and_then r' f"
  by simp

lemma bind_res_weak: "r = r' \<Longrightarrow> bind_res r f = bind_res r' f"
  by simp

lemma Let_weak: "r = r' \<Longrightarrow> Let r f = Let r' f"
  by simp

lemmas run_congs = and_then_weak bind_res_weak Let_weak

lemma pair_of_fst: "fst r = x \<Longrightarrow> r = (x, snd r)"
  by (cases r) simp

section \<open>Go's integers\<close>

text \<open>
  \<open>wrap64\<close> is the conversion to \<open>int64\<close> (two's complement, low 64 bits), \<open>wrapu64\<close> the
  conversion to \<open>uint64\<close>. \<open>quo\<close> and \<open>rem\<close> truncate towards zero, as Go's \<open>/\<close>, \<open>%\<close> and
  \<open>big.Int.Quo\<close> do.
\<close>

definition wrap64 :: "int \<Rightarrow> int" where
  "wrap64 x = (x + 2 ^ 63) mod 2 ^ 64 - 2 ^ 63"

definition wrapu64 :: "int \<Rightarrow> int" where
  "wrapu64 x = x mod 2 ^ 64"

definition in_int64 :: "int \<Rightarrow> bool" where
  "in_int64 x \<longleftrightarrow> - (2 ^ 63) \<le> x \<and> x < 2 ^ 63"

definition in_uint64 :: "int \<Rightarrow> bool" where
  "in_uint64 x \<longleftrightarrow> 0 \<le> x \<and> x < 2 ^ 64"

definition quo :: "int \<Rightarrow> int \<Rightarrow> int" where
  "quo a b = sgn a * sgn b * (\<bar>a\<bar> div \<bar>b\<bar>)"

lemma wrap64_id [simp]: "in_int64 x \<Longrightarrow> wrap64 x = x"
  by (simp add: wrap64_def in_int64_def)

lemma wrap64_bounds: "in_int64 (wrap64 x)"
  by (simp add: wrap64_def in_int64_def algebra_simps)

lemma wrapu64_id [simp]: "in_uint64 x \<Longrightarrow> wrapu64 x = x"
  by (simp add: wrapu64_def in_uint64_def)

lemma quo_nonneg: "0 \<le> a \<Longrightarrow> 0 \<le> b \<Longrightarrow> quo a b = a div b"
  by (cases "a = 0"; cases "b = 0") (auto simp: quo_def)

lemma quo_dvd: "b \<noteq> 0 \<Longrightarrow> b dvd a \<Longrightarrow> quo a b * b = a"
  by (cases "0 \<le> a"; cases "0 < b")
    (auto simp: quo_def sgn_if div_minus_right abs_if elim!: dvdE split: if_splits)

text \<open>
  \<open>cosmossdk.io/math\<close> integers are \<open>int\<close>; their \<open>Int64()\<close> and \<open>Uint64()\<close> panic when the
  value does not fit, as their documentation says.
\<close>

definition Int64 :: "int \<Rightarrow> int res" where
  "Int64 x = (if in_int64 x then Ok x else Panic (Text ''Int64() out of bound''))"

definition Uint64 :: "int \<Rightarrow> int res" where
  "Uint64 x = (if in_uint64 x then Ok x else Panic (Text ''Uint64() out of bounds''))"

lemma Int64_Ok [simp]: "Int64 x = Ok y \<longleftrightarrow> in_int64 x \<and> y = x"
  by (auto simp: Int64_def)

lemma Uint64_Ok [simp]: "Uint64 x = Ok y \<longleftrightarrow> in_uint64 x \<and> y = x"
  by (auto simp: Uint64_def)

section \<open>Time\<close>

text \<open>
  A \<open>time.Time\<close> is the number of nanoseconds since the Unix epoch, a \<open>time.Duration\<close> an
  \<open>int64\<close> number of nanoseconds. \<open>t.Sub(u)\<close> saturates, as documented.
\<close>

type_synonym time = int
type_synonym duration = int

definition time_sub :: "time \<Rightarrow> time \<Rightarrow> duration" where
  "time_sub t u = max (- (2 ^ 63)) (min (2 ^ 63 - 1) (t - u))"

definition Hour :: duration where "Hour = 3600 * 1000000000"

lemma time_sub_id: "in_int64 (t - u) \<Longrightarrow> time_sub t u = t - u"
  by (simp add: time_sub_def in_int64_def)

section \<open>The part of the context every keeper reads\<close>

text \<open>
  \<open>sdk.Context\<close> with the block time, the block height and the events emitted so far. Each
  component extends this record by its own stores, so a method of a lower component applies
  to the context of every higher one.
\<close>

datatype attr = AStr string | AInt int | ABool bool | AStrs "string list" | AInts "int list"

type_synonym event = "string \<times> attr list"

type_synonym addr = string

record ctx =
  block_time :: time
  block_height :: int
  events :: "event list"

definition emit :: "event \<Rightarrow> ('s ctx_scheme) \<Rightarrow> ('s ctx_scheme)" where
  "emit ev c = c\<lparr>events := events c @ [ev]\<rparr>"

lemma emit_simps [simp]:
  "block_time (emit ev c) = block_time c"
  "block_height (emit ev c) = block_height c"
  "events (emit ev c) = events c @ [ev]"
  "ctx.more (emit ev c) = ctx.more c"
  by (simp_all add: emit_def)

section \<open>Lists\<close>

lemma sum_list_map_update:
  fixes f :: "'a \<Rightarrow> int"
  assumes "i < length xs"
  shows "sum_list (map f (xs[i := x])) = sum_list (map f xs) - f (xs ! i) + f x"
  using assms
proof (induction xs arbitrary: i)
  case (Cons a xs)
  then show ?case by (cases i) auto
qed simp

lemma finite_dom_upd [simp]: "finite (dom m) \<Longrightarrow> finite (dom (m(k := v)))"
  by (cases v) auto

section \<open>Stores\<close>

text \<open>
  A module's part of the key-value store is a map from decoded keys to decoded records. An
  iterator visits the keys in increasing order; keys are chosen so that the order of the
  decoded keys is the byte order of the encoded ones.
\<close>

definition store_keys :: "('k::linorder \<rightharpoonup> 'v) \<Rightarrow> 'k list" where
  "store_keys m = sorted_list_of_set (dom m)"

definition store_items :: "('k::linorder \<rightharpoonup> 'v) \<Rightarrow> ('k \<times> 'v) list" where
  "store_items m = map (\<lambda>x. (x, the (m x))) (store_keys m)"

lemma set_store_keys [simp]: "finite (dom m) \<Longrightarrow> set (store_keys m) = dom m"
  by (simp add: store_keys_def)

lemma sorted_store_keys [simp]: "sorted_wrt (<) (store_keys m)"
  by (simp add: store_keys_def)

lemma distinct_store_keys [simp]: "distinct (store_keys m)"
  by (simp add: store_keys_def)

lemma store_keys_empty [simp]: "store_keys Map.empty = []"
  by (simp add: store_keys_def)

lemma store_keys_insert:
  "finite (dom m) \<Longrightarrow> k \<notin> dom m \<Longrightarrow> store_keys (m(k \<mapsto> v)) = insort k (store_keys m)"
  by (simp add: store_keys_def)

lemma store_keys_upd: "k \<in> dom m \<Longrightarrow> store_keys (m(k \<mapsto> v)) = store_keys m"
  by (simp add: store_keys_def insert_absorb)

lemma store_keys_single [simp]: "store_keys [k \<mapsto> v] = [k]"
  by (simp add: store_keys_def)

lemma map_of_store_items: "finite (dom m) \<Longrightarrow> map_of (store_items m) = m"
proof
  fix x assume f: "finite (dom m)"
  have "map_of (map (\<lambda>x. (x, the (m x))) xs) x = (if x \<in> set xs then Some (the (m x)) else None)" for xs
    by (induction xs) auto
  from this[of "store_keys m"] f show "map_of (store_items m) x = m x"
    by (auto simp: store_items_def domIff)
qed

lemma store_items_fst [simp]: "map fst (store_items m) = store_keys m"
  by (simp add: store_items_def o_def)

lemma store_items_mem: "finite (dom m) \<Longrightarrow> (x, v) \<in> set (store_items m) \<longleftrightarrow> m x = Some v"
  by (auto simp: store_items_def domIff)

end
