(* ===== verification/Fraction.thy ===== *)
theory Fraction
  imports Prelude Complex_Main
begin

text \<open>
  \<open>util/fraction.go\<close>: rational numbers over \<open>big.Int\<close> with a null value, their arithmetic,
  their text form and its parser. The two pointers of the Go struct are options, an operation
  on a nil pointer or a division by zero is a panic.

  \<open>Reduce\<close> normalises the numerator and denominator it was called on in place. The model
  returns the reduced value; callers in the repository reduce fresh results only, and the
  rational value is the same before and after.

  The lemmas \<open>Mul_val\<close>, \<open>Div_val\<close>, \<open>Add_val\<close>, \<open>Sub_val\<close>, \<open>LT_val\<close> and their kin say that
  the routines compute rational arithmetic through the abstraction \<open>frac_val\<close>; the property
  at the end is the text round trip.
\<close>

section \<open>Values\<close>

record fraction =
  f_num :: "int option"
  f_denom :: "int option"

definition mk_frac :: "int \<Rightarrow> int \<Rightarrow> fraction" where
  "mk_frac n d = \<lparr>f_num = Some n, f_denom = Some d\<rparr>"

definition null_frac :: fraction where
  "null_frac = \<lparr>f_num = None, f_denom = None\<rparr>"

definition NewFraction :: "int \<Rightarrow> int \<Rightarrow> fraction" where
  "NewFraction num denom = mk_frac num denom"

definition Percent :: "int \<Rightarrow> fraction" where
  "Percent x = NewFraction x 100"

definition Permille :: "int \<Rightarrow> fraction" where
  "Permille x = NewFraction x 1000"

definition FractionInt :: "int \<Rightarrow> fraction" where
  "FractionInt x = NewFraction x 1"

definition FractionZero :: fraction where
  "FractionZero = FractionInt 0"

text \<open>Reading both pointers; a nil one is dereferenced and panics.\<close>

definition with_parts :: "fraction \<Rightarrow> (int \<Rightarrow> int \<Rightarrow> 'a res) \<Rightarrow> 'a res" where
  "with_parts x f =
     (case (f_num x, f_denom x) of (Some n, Some d) \<Rightarrow> f n d | _ \<Rightarrow> Panic nil_deref)"

definition div_by_zero :: error where
  "div_by_zero = Text ''division by zero''"

definition big_quo :: "int \<Rightarrow> int \<Rightarrow> int res" where
  "big_quo a b = (if b = 0 then Panic div_by_zero else Ok (quo a b))"

lemma with_parts_mk [simp]: "with_parts (mk_frac n d) f = f n d"
  by (simp add: with_parts_def mk_frac_def)

lemma with_parts_null [simp]: "with_parts null_frac f = Panic nil_deref"
  by (simp add: with_parts_def null_frac_def)

lemma mk_frac_inject [simp]: "mk_frac n d = mk_frac n' d' \<longleftrightarrow> n = n' \<and> d = d'"
  by (simp add: mk_frac_def)

lemma mk_frac_sel [simp]: "f_num (mk_frac n d) = Some n" "f_denom (mk_frac n d) = Some d"
  by (simp_all add: mk_frac_def)

lemma mk_frac_not_null [simp]: "mk_frac n d \<noteq> null_frac" "null_frac \<noteq> mk_frac n d"
  by (simp_all add: mk_frac_def null_frac_def)

lemma frac_parts: "f_num x = Some n \<Longrightarrow> f_denom x = Some d \<Longrightarrow> x = mk_frac n d"
  by (cases x) (simp add: mk_frac_def)

section \<open>Operations\<close>

definition BigInt :: "fraction \<Rightarrow> int res" where
  "BigInt x = with_parts x big_quo"

definition Frac_Int64 :: "fraction \<Rightarrow> int res" where
  "Frac_Int64 x = bind_res (BigInt x) (\<lambda>i. Ok (wrap64 i))"

definition IsNullValue :: "fraction \<Rightarrow> bool" where
  "IsNullValue x \<longleftrightarrow> f_num x = None \<and> f_denom x = None"

definition Clone :: "fraction \<Rightarrow> fraction res" where
  "Clone x = (if IsNullValue x then Ok null_frac else with_parts x (\<lambda>n d. Ok (mk_frac n d)))"

definition Reduce :: "fraction \<Rightarrow> fraction res" where
  "Reduce x = with_parts x (\<lambda>n d.
     let n' = (if d < 0 then - n else n); d' = (if d < 0 then - d else d); q = gcd n' d'
     in bind_res (big_quo n' q) (\<lambda>n''. bind_res (big_quo d' q) (\<lambda>d''. Ok (mk_frac n'' d''))))"

definition Mul :: "fraction \<Rightarrow> fraction \<Rightarrow> fraction res" where
  "Mul x y = with_parts x (\<lambda>n d. with_parts y (\<lambda>n' d'. Reduce (mk_frac (n * n') (d * d'))))"

definition MulInt64 :: "fraction \<Rightarrow> int \<Rightarrow> fraction res" where
  "MulInt64 x y = Mul x (FractionInt y)"

definition Div :: "fraction \<Rightarrow> fraction \<Rightarrow> fraction res" where
  "Div x y = with_parts x (\<lambda>n d. with_parts y (\<lambda>n' d'. Reduce (mk_frac (n * d') (d * n'))))"

definition DivInt64 :: "fraction \<Rightarrow> int \<Rightarrow> fraction res" where
  "DivInt64 x y = Div x (FractionInt y)"

definition Neg :: "fraction \<Rightarrow> fraction res" where
  "Neg x = with_parts x (\<lambda>n d. Ok (mk_frac (- n) d))"

definition big_lcm :: "int \<Rightarrow> int \<Rightarrow> int res" where
  "big_lcm x y = bind_res (big_quo (x * y) (gcd x y)) (\<lambda>r. Ok (if r < 0 then - r else r))"

definition Add :: "fraction \<Rightarrow> fraction \<Rightarrow> fraction res" where
  "Add x y = with_parts x (\<lambda>n d. with_parts y (\<lambda>n' d'.
     bind_res (big_lcm d d') (\<lambda>comDenom.
     bind_res (big_quo (n * comDenom) d) (\<lambda>a.
     bind_res (big_quo (n' * comDenom) d') (\<lambda>b.
     Ok (mk_frac (a + b) comDenom))))))"

definition Sub :: "fraction \<Rightarrow> fraction \<Rightarrow> fraction res" where
  "Sub x y = bind_res (Neg y) (\<lambda>y'. Add x y')"

definition IsZero :: "fraction \<Rightarrow> bool res" where
  "IsZero x = (case f_num x of None \<Rightarrow> Panic nil_deref | Some n \<Rightarrow> Ok (sgn n = 0))"

definition IsNegative :: "fraction \<Rightarrow> bool res" where
  "IsNegative x = with_parts x (\<lambda>n d. Ok (sgn n * sgn d < 0))"

definition IsPositive :: "fraction \<Rightarrow> bool res" where
  "IsPositive x = with_parts x (\<lambda>n d. Ok (sgn n * sgn d > 0))"

definition Frac_Equal :: "fraction \<Rightarrow> fraction \<Rightarrow> bool res" where
  "Frac_Equal x y = bind_res (Sub x y) IsZero"

definition GT :: "fraction \<Rightarrow> fraction \<Rightarrow> bool res" where
  "GT x y = bind_res (Sub x y) IsPositive"

definition LT :: "fraction \<Rightarrow> fraction \<Rightarrow> bool res" where
  "LT x y = GT y x"

definition GTE :: "fraction \<Rightarrow> fraction \<Rightarrow> bool res" where
  "GTE x y = bind_res (LT x y) (\<lambda>b. Ok (\<not> b))"

definition LTE :: "fraction \<Rightarrow> fraction \<Rightarrow> bool res" where
  "LTE x y = bind_res (GT x y) (\<lambda>b. Ok (\<not> b))"

section \<open>The text form\<close>

text \<open>\<open>big.Int\<close>'s decimal text (standard library): digits, with a minus sign when negative.\<close>

definition digit_char :: "nat \<Rightarrow> char" where
  "digit_char d = char_of (48 + d)"

definition is_digit :: "char \<Rightarrow> bool" where
  "is_digit c \<longleftrightarrow> 48 \<le> (of_char c :: nat) \<and> (of_char c :: nat) \<le> 57"

fun show_nat :: "nat \<Rightarrow> string" where
  "show_nat n = (if n < 10 then [digit_char n] else show_nat (n div 10) @ [digit_char (n mod 10)])"

declare show_nat.simps [simp del]

definition show_int :: "int \<Rightarrow> string" where
  "show_int i = (if i < 0 then CHR ''-'' # show_nat (nat (- i)) else show_nat (nat i))"

definition read_nat :: "string \<Rightarrow> nat" where
  "read_nat ds = foldl (\<lambda>a c. 10 * a + (of_char c - 48)) 0 ds"

definition Frac_String :: "fraction \<Rightarrow> string res" where
  "Frac_String x = (if IsNullValue x then Ok ''nil''
     else with_parts x (\<lambda>n d.
       Ok (show_int n @ (if d = 100 then ''%'' else if d = 1 then [] else CHR ''/'' # show_int d))))"

definition invalid_format :: error where
  "invalid_format = Text ''invalid fraction format, 'x%' or 'x/y' expected: ''"

text \<open>
  \<open>^(-?\d+)%$\<close> first, then \<open>^(-?\d+)(?:/(\d+))?$\<close>: an optional sign, the longest run of
  digits, and what the two patterns allow after it.
\<close>

definition parse_suffix :: "int \<Rightarrow> string \<Rightarrow> fraction res" where
  "parse_suffix num rest =
     (if rest = ''%'' then Ok (mk_frac num 100)
      else (case rest of
          [] \<Rightarrow> Ok (mk_frac num 1)
        | c # t \<Rightarrow>
            if c = CHR ''/'' \<and> t \<noteq> [] \<and> list_all is_digit t
            then Ok (mk_frac num (int (read_nat t)))
            else Err invalid_format))"

definition ParseFraction :: "string \<Rightarrow> fraction res" where
  "ParseFraction s =
     (if s = [] \<or> s = ''nil'' then Ok null_frac
      else
        let neg = (hd s = CHR ''-'');
            body = (if neg then tl s else s);
            ds = takeWhile is_digit body;
            num = (if neg then - int (read_nat ds) else int (read_nat ds))
        in if ds = [] then Err invalid_format else parse_suffix num (dropWhile is_digit body))"

definition Frac_Size :: "fraction \<Rightarrow> nat res" where
  "Frac_Size x = bind_res (Frac_String x) (\<lambda>s. Ok (length s))"

text \<open>\<open>copy(dest, s)\<close> fills the front of \<open>dest\<close>; the count returned is that of \<open>s\<close>.\<close>

definition MarshalTo :: "fraction \<Rightarrow> string \<Rightarrow> (string \<times> nat) res" where
  "MarshalTo x dest = bind_res (Frac_String x) (\<lambda>s.
     Ok (take (length dest) s @ drop (length s) dest, length s))"

definition Frac_Unmarshal :: "string \<Rightarrow> fraction res" where
  "Frac_Unmarshal bz = ParseFraction bz"

section \<open>Fractions as rational numbers\<close>

definition wf_frac :: "fraction \<Rightarrow> bool" where
  "wf_frac x \<longleftrightarrow> (\<exists>n d. x = mk_frac n d \<and> d \<noteq> 0)"

definition frac_val :: "fraction \<Rightarrow> rat" where
  "frac_val x = of_int (the (f_num x)) / of_int (the (f_denom x))"

lemma wf_mk [simp]: "wf_frac (mk_frac n d) \<longleftrightarrow> d \<noteq> 0"
  by (auto simp: wf_frac_def)

lemma frac_val_mk [simp]: "frac_val (mk_frac n d) = of_int n / of_int d"
  by (simp add: frac_val_def)

lemma wf_fracE:
  assumes "wf_frac x"
  obtains n d where "x = mk_frac n d" "d \<noteq> 0" "frac_val x = of_int n / of_int d"
  using assms by (auto simp: wf_frac_def)

lemma wf_NewFraction [simp]: "wf_frac (NewFraction n d) \<longleftrightarrow> d \<noteq> 0"
  by (simp add: NewFraction_def)

lemma frac_val_NewFraction [simp]: "frac_val (NewFraction n d) = of_int n / of_int d"
  by (simp add: NewFraction_def)

lemma wf_FractionInt [simp]: "wf_frac (FractionInt n)"
  by (simp add: FractionInt_def)

lemma frac_val_FractionInt [simp]: "frac_val (FractionInt n) = of_int n"
  by (simp add: FractionInt_def)

lemma quo_of_int: "b \<noteq> 0 \<Longrightarrow> b dvd a \<Longrightarrow> (of_int (quo a b) :: rat) = of_int a / of_int b"
  by (metis nonzero_eq_divide_eq of_int_eq_0_iff of_int_mult quo_dvd)

lemma Reduce_mk:
  assumes "d \<noteq> 0"
  obtains n' d' where "Reduce (mk_frac n d) = Ok (mk_frac n' d')" "0 < d'"
    "(of_int n' :: rat) / of_int d' = of_int n / of_int d" "coprime n' d'"
proof -
  define n1 where "n1 = (if d < 0 then - n else n)"
  define d1 where "d1 = \<bar>d\<bar>"
  define q where "q = gcd n1 d1"
  have d1: "0 < d1" "d1 = (if d < 0 then - d else d)" using assms by (auto simp: d1_def)
  have q: "0 < q" "q dvd n1" "q dvd d1" using d1 by (auto simp: q_def)
  have r: "Reduce (mk_frac n d) = Ok (mk_frac (quo n1 q) (quo d1 q))"
    using q(1) by (simp add: Reduce_def Let_def big_quo_def n1_def d1(2) q_def)
  have e: "quo n1 q = n1 div q" "quo d1 q = d1 div q"
    using q quo_dvd[of q n1] quo_dvd[of q d1] by (metis less_irrefl nonzero_mult_div_cancel_right)+
  have "(of_int (quo n1 q) :: rat) / of_int (quo d1 q) = of_int n1 / of_int d1"
    using q by (simp add: quo_of_int)
  also have "\<dots> = of_int n / of_int d" by (auto simp: n1_def d1_def abs_if)
  finally have v: "(of_int (quo n1 q) :: rat) / of_int (quo d1 q) = of_int n / of_int d" .
  have p: "0 < quo d1 q" using d1 q e by (auto simp: pos_imp_zdiv_pos_iff zdvd_imp_le)
  have c: "coprime (quo n1 q) (quo d1 q)"
    using div_gcd_coprime[of n1 d1] d1(1) by (simp add: e q_def[symmetric])
  show ?thesis using that[OF r p v c] .
qed

definition reduced :: "fraction \<Rightarrow> bool" where
  "reduced x \<longleftrightarrow> (\<exists>n d. x = mk_frac n d \<and> 0 < d \<and> coprime n d)"

lemma Reduce_val:
  assumes "wf_frac x"
  shows "\<exists>z. Reduce x = Ok z \<and> wf_frac z \<and> reduced z \<and> frac_val z = frac_val x"
proof -
  obtain n d where x: "x = mk_frac n d" "d \<noteq> 0" using assms by (auto elim: wf_fracE)
  then obtain n' d' where r: "Reduce x = Ok (mk_frac n' d')" "0 < d'"
    "(of_int n' :: rat) / of_int d' = of_int n / of_int d" "coprime n' d'"
    using Reduce_mk by metis
  then show ?thesis using x by (auto simp: reduced_def)
qed

lemma Mul_val:
  assumes "wf_frac x" "wf_frac y"
  shows "\<exists>z. Mul x y = Ok z \<and> wf_frac z \<and> reduced z \<and> frac_val z = frac_val x * frac_val y"
proof -
  obtain n d n' d' where x: "x = mk_frac n d" "d \<noteq> 0" and y: "y = mk_frac n' d'" "d' \<noteq> 0"
    using assms by (auto elim!: wf_fracE)
  show ?thesis using Reduce_val[of "mk_frac (n * n') (d * d')"] x y by (simp add: Mul_def)
qed

lemma Div_val:
  assumes "wf_frac x" "wf_frac y" "frac_val y \<noteq> 0"
  shows "\<exists>z. Div x y = Ok z \<and> wf_frac z \<and> reduced z \<and> frac_val z = frac_val x / frac_val y"
proof -
  obtain n d n' d' where x: "x = mk_frac n d" "d \<noteq> 0" and y: "y = mk_frac n' d'" "d' \<noteq> 0"
    using assms by (auto elim!: wf_fracE)
  then have "n' \<noteq> 0" using assms(3) by auto
  then show ?thesis using Reduce_val[of "mk_frac (n * d') (d * n')"] x y
    by (simp add: Div_def)
qed

lemma MulInt64_val:
  "wf_frac x \<Longrightarrow> \<exists>z. MulInt64 x k = Ok z \<and> wf_frac z \<and> reduced z \<and> frac_val z = frac_val x * of_int k"
  using Mul_val[of x "FractionInt k"] by (simp add: MulInt64_def)

lemma Neg_val: "wf_frac x \<Longrightarrow> \<exists>z. Neg x = Ok z \<and> wf_frac z \<and> frac_val z = - frac_val x"
  by (auto simp: Neg_def elim!: wf_fracE)

lemma big_lcm_val: "x \<noteq> 0 \<Longrightarrow> y \<noteq> 0 \<Longrightarrow> big_lcm x y = Ok (lcm x y)"
proof -
  assume x: "x \<noteq> 0" and y: "y \<noteq> 0"
  define g where "g = gcd x y"
  define r where "r = quo (x * y) g"
  have g: "0 < g" "g dvd x * y" using x by (auto simp: g_def)
  have rg: "r * g = x * y" unfolding r_def by (rule quo_dvd) (use g in auto)
  have "\<bar>r\<bar> * g = \<bar>r * g\<bar>" using g(1) by (simp add: abs_mult)
  also have "\<dots> = \<bar>x\<bar> * \<bar>y\<bar>" unfolding rg by (rule abs_mult)
  also have "\<dots> = lcm x y * g"
    unfolding g_def using prod_gcd_lcm_int[of x y] by (simp only: mult.commute)
  finally have "\<bar>r\<bar> = lcm x y" using g(1) by simp
  moreover have "big_lcm x y = Ok \<bar>r\<bar>"
    using g(1) by (auto simp: big_lcm_def big_quo_def r_def g_def)
  ultimately show ?thesis by simp
qed

lemma Add_val:
  assumes "wf_frac x" "wf_frac y"
  shows "\<exists>z. Add x y = Ok z \<and> wf_frac z \<and> frac_val z = frac_val x + frac_val y"
proof -
  obtain n d n' d' where x: "x = mk_frac n d" "d \<noteq> 0" and y: "y = mk_frac n' d'" "d' \<noteq> 0"
    using assms by (auto elim!: wf_fracE)
  define l where "l = lcm d d'"
  have l: "l \<noteq> 0" "d dvd n * l" "d' dvd n' * l" using x y by (auto simp: l_def)
  have a: "Add x y = Ok (mk_frac (quo (n * l) d + quo (n' * l) d') l)"
    using x y by (simp add: Add_def big_lcm_val big_quo_def l_def)
  have "(of_int (quo (n * l) d + quo (n' * l) d') :: rat) / of_int l = frac_val x + frac_val y"
    using x y l by (simp add: quo_of_int add_divide_distrib)
  then show ?thesis using a l by auto
qed

lemma Sub_val:
  assumes "wf_frac x" "wf_frac y"
  shows "\<exists>z. Sub x y = Ok z \<and> wf_frac z \<and> frac_val z = frac_val x - frac_val y"
  using Neg_val[OF assms(2)] Add_val[OF assms(1)] by (force simp: Sub_def)

lemma sgn_div_rat: "sgn (of_int n / of_int d :: rat) = of_int (sgn n * sgn d)"
  by (auto simp: sgn_if divide_pos_pos divide_neg_neg divide_less_0_iff zero_less_divide_iff)

lemma IsPositive_val: "wf_frac x \<Longrightarrow> IsPositive x = Ok (0 < frac_val x)"
  by (auto simp: IsPositive_def sgn_if zero_less_divide_iff elim!: wf_fracE)

lemma IsNegative_val: "wf_frac x \<Longrightarrow> IsNegative x = Ok (frac_val x < 0)"
  by (auto simp: IsNegative_def sgn_if divide_less_0_iff elim!: wf_fracE)

lemma IsZero_val: "wf_frac x \<Longrightarrow> IsZero x = Ok (frac_val x = 0)"
  by (auto simp: IsZero_def sgn_if elim!: wf_fracE)

lemma GT_val: "wf_frac x \<Longrightarrow> wf_frac y \<Longrightarrow> GT x y = Ok (frac_val y < frac_val x)"
  using Sub_val[of x y] by (auto simp: GT_def IsPositive_val)

lemma LT_val: "wf_frac x \<Longrightarrow> wf_frac y \<Longrightarrow> LT x y = Ok (frac_val x < frac_val y)"
  by (simp add: LT_def GT_val)

lemma GTE_val: "wf_frac x \<Longrightarrow> wf_frac y \<Longrightarrow> GTE x y = Ok (frac_val y \<le> frac_val x)"
  by (auto simp: GTE_def LT_val)

lemma LTE_val: "wf_frac x \<Longrightarrow> wf_frac y \<Longrightarrow> LTE x y = Ok (frac_val x \<le> frac_val y)"
  by (auto simp: LTE_def GT_val)

lemma Frac_Equal_val: "wf_frac x \<Longrightarrow> wf_frac y \<Longrightarrow> Frac_Equal x y = Ok (frac_val x = frac_val y)"
  using Sub_val[of x y] by (auto simp: Frac_Equal_def IsZero_val)

section \<open>Text round trip\<close>

lemma of_char_digit [simp]: "d < 10 \<Longrightarrow> of_char (digit_char d) = 48 + d"
  by (simp add: digit_char_def)

lemma is_digit_digit [simp]: "d < 10 \<Longrightarrow> is_digit (digit_char d)"
  by (simp add: is_digit_def)

lemma show_nat_nonempty [simp]: "show_nat n \<noteq> []"
  by (subst show_nat.simps) simp

lemma show_nat_digits: "list_all is_digit (show_nat n)"
proof (induction n rule: show_nat.induct)
  case (1 n)
  then show ?case by (subst show_nat.simps) auto
qed

lemma read_nat_snoc: "read_nat (ds @ [c]) = 10 * read_nat ds + (of_char c - 48)"
  by (simp add: read_nat_def)

lemma read_show_nat [simp]: "read_nat (show_nat n) = n"
proof (induction n rule: show_nat.induct)
  case (1 n)
  then show ?case
    by (subst show_nat.simps) (auto simp: read_nat_snoc, simp add: read_nat_def)
qed

lemma not_digit_sep [simp]:
  "\<not> is_digit (CHR ''%'')" "\<not> is_digit (CHR ''/'')" "\<not> is_digit (CHR ''-'')"
  "\<not> is_digit (CHR ''n'')"
  by (simp_all add: is_digit_def)

lemma show_nat_first: "show_nat n = c # t \<Longrightarrow> is_digit c"
  using show_nat_digits[of n] by simp

lemma digits_split:
  assumes "list_all is_digit ds" "rest = [] \<or> \<not> is_digit (hd rest)"
  shows "takeWhile is_digit (ds @ rest) = ds" "dropWhile is_digit (ds @ rest) = rest"
  using assms by (induction ds) (cases rest; auto)+

text \<open>
  What the parser makes of a printed numerator followed by one of the three suffixes the
  printer writes.
\<close>

lemma parse_shown:
  assumes "rest = [] \<or> \<not> is_digit (hd rest)"
  shows "ParseFraction (show_int n @ rest) = parse_suffix n rest"
proof (cases "n < 0")
  case True
  then show ?thesis
    using digits_split[OF show_nat_digits assms, of "nat (- n)"]
    by (simp add: ParseFraction_def show_int_def Let_def)
next
  case False
  obtain c t where ct: "show_nat (nat n) = c # t" by (cases "show_nat (nat n)") auto
  then have c: "is_digit c" by (rule show_nat_first)
  then have "c \<noteq> CHR ''-''" "c \<noteq> CHR ''n''" by auto
  moreover have "read_nat (c # t) = nat n" using ct read_show_nat[of "nat n"] by simp
  ultimately show ?thesis
    using False digits_split[OF show_nat_digits assms, of "nat n"]
    by (simp add: ParseFraction_def show_int_def Let_def ct)
qed

lemma Frac_String_mk:
  "Frac_String (mk_frac n d) =
     Ok (show_int n @ (if d = 100 then ''%'' else if d = 1 then [] else CHR ''/'' # show_int d))"
  by (simp add: Frac_String_def IsNullValue_def)

lemma Parse_String_mk:
  assumes "0 \<le> d"
  shows "bind_res (Frac_String (mk_frac n d)) ParseFraction = Ok (mk_frac n d)"
proof -
  define rest where
    "rest = (if d = 100 then ''%'' else if d = 1 then [] else CHR ''/'' # show_int d)"
  have "rest = [] \<or> \<not> is_digit (hd rest)" by (simp add: rest_def)
  from parse_shown[OF this, of n] show ?thesis
    using assms show_nat_digits[of "nat d"]
    by (auto simp: Frac_String_mk rest_def show_int_def parse_suffix_def)
qed



text \<open>C37. The arithmetic of util.Fraction is rational arithmetic: on fractions with a non-zero
  denominator Add, Sub and Mul return (they never panic) the sum, difference and product of
  the rational values, Div the quotient when the divisor is not zero, results stay well
  formed, and LT, LTE and Equal decide the order and equality of the values.\<close>

theorem fraction_arithmetic:
  assumes "wf_frac x" "wf_frac y"
  shows "(\<exists>z. Add x y = Ok z \<and> wf_frac z \<and> frac_val z = frac_val x + frac_val y)
    \<and> (\<exists>z. Sub x y = Ok z \<and> wf_frac z \<and> frac_val z = frac_val x - frac_val y)
    \<and> (\<exists>z. Mul x y = Ok z \<and> wf_frac z \<and> reduced z \<and> frac_val z = frac_val x * frac_val y)
    \<and> (frac_val y \<noteq> 0 \<longrightarrow>
         (\<exists>z. Div x y = Ok z \<and> wf_frac z \<and> reduced z \<and> frac_val z = frac_val x / frac_val y))
    \<and> LT x y = Ok (frac_val x < frac_val y)
    \<and> LTE x y = Ok (frac_val x \<le> frac_val y)
    \<and> Frac_Equal x y = Ok (frac_val x = frac_val y)"
  using Add_val[OF assms] Sub_val[OF assms] Mul_val[OF assms] Div_val[OF assms]
    LT_val[OF assms] LTE_val[OF assms] Frac_Equal_val[OF assms] by blast

theorem fraction_arithmetic_witness:
  "\<exists>z. Div (mk_frac 1 2) (mk_frac (-3) 4) = Ok z \<and> wf_frac z \<and> reduced z
     \<and> frac_val z = frac_val (mk_frac 1 2) / frac_val (mk_frac (-3) 4)"
  using fraction_arithmetic[of "mk_frac 1 2" "mk_frac (-3) 4"] by simp

end
