(* ===== verification/Lists.thy ===== *)
theory Lists
  imports Prelude
begin

text \<open>
  \<open>util/lists.go\<close> and the two list helpers of \<open>x/profile/keeper/params.go\<close>: searching,
  removing, inserting and merging strings in slices. The slice behind the pointer argument is
  returned with the boolean the Go function returns. Go compares strings bytewise, which is
  the lexicographic order on \<open>string\<close>.

  The loops are recursive functions over the slice. The lemmas relate them to sets and
  multisets; \<open>strict_sorted\<close> is the invariant of the slices kept in order (no duplicates,
  increasing).
\<close>

section \<open>Operations\<close>

fun index_of :: "'a \<Rightarrow> 'a list \<Rightarrow> nat option" where
  "index_of x [] = None"
| "index_of x (y # ys) = (if y = x then Some 0 else map_option Suc (index_of x ys))"

text \<open>\<open>copy(arr[i:], arr[i+1:])\<close> and cutting the last element drops position \<open>i\<close>.\<close>

definition RemoveStringPreserveOrder :: "'a list \<Rightarrow> 'a \<Rightarrow> 'a list \<times> bool" where
  "RemoveStringPreserveOrder arr item =
     (case index_of item arr of
        Some i \<Rightarrow> (take i arr @ drop (i + 1) arr, True)
      | None \<Rightarrow> (arr, False))"

definition RemoveStringFast :: "'a list \<Rightarrow> 'a \<Rightarrow> 'a list \<times> bool" where
  "RemoveStringFast arr item =
     (case index_of item arr of
        Some i \<Rightarrow> (butlast (arr[i := last arr]), True)
      | None \<Rightarrow> (arr, False))"

fun AddStringSorted :: "('a::linorder) list \<Rightarrow> 'a \<Rightarrow> 'a list \<times> bool" where
  "AddStringSorted [] item = ([item], True)"
| "AddStringSorted (s # arr) item =
     (if s = item then (s # arr, False)
      else if s > item then (item # s # arr, True)
      else (s # fst (AddStringSorted arr item), snd (AddStringSorted arr item)))"

definition AddStringOntoEnd :: "'a list \<Rightarrow> 'a \<Rightarrow> 'a list \<times> bool" where
  "AddStringOntoEnd arr item =
     (case index_of item arr of Some _ \<Rightarrow> (arr, False) | None \<Rightarrow> (arr @ [item], True))"

text \<open>The loop of \<open>MergeStringsSorted\<close>, with what is left of the two slices.\<close>

fun merge_loop :: "('a::linorder) list \<Rightarrow> 'a list \<Rightarrow> 'a list" where
  "merge_loop [] ys = ys"
| "merge_loop xs [] = xs"
| "merge_loop (x # xs) (y # ys) =
     (if x < y then x # merge_loop xs (y # ys)
      else if x = y then x # merge_loop xs ys
      else y # merge_loop (x # xs) ys)"

definition MergeStringsSorted :: "('a::linorder) list \<Rightarrow> 'a list \<Rightarrow> 'a list" where
  "MergeStringsSorted arr1 arr2 =
     (if length arr2 = 0 then arr1 else if length arr1 = 0 then arr2 else merge_loop arr1 arr2)"

fun ContainsString :: "'a list \<Rightarrow> 'a \<Rightarrow> bool" where
  "ContainsString [] item = False"
| "ContainsString (s # arr) item = (if s = item then True else ContainsString arr item)"

text \<open>\<open>add\<close> and \<open>remove\<close> of the profile parameters.\<close>

definition params_add :: "'a list \<Rightarrow> 'a \<Rightarrow> 'a list" where
  "params_add arr item = (if ContainsString arr item then arr else arr @ [item])"

definition params_remove :: "'a list \<Rightarrow> 'a \<Rightarrow> 'a list" where
  "params_remove arr item =
     (case index_of item arr of
        None \<Rightarrow> arr
      | Some idx \<Rightarrow>
          butlast (if idx \<noteq> length arr - 1 then arr[idx := last arr] else arr))"

section \<open>What they compute\<close>

lemma index_of_None [simp]: "index_of x xs = None \<longleftrightarrow> x \<notin> set xs"
  by (induction xs) auto

lemma index_of_Some:
  "index_of x xs = Some i \<Longrightarrow> i < length xs \<and> xs ! i = x \<and> x \<notin> set (take i xs)"
  by (induction xs arbitrary: i) (auto split: if_splits)

lemma index_of_notin [simp]: "x \<notin> set xs \<Longrightarrow> index_of x xs = None"
  by simp

lemma index_of_SomeE:
  assumes "x \<in> set xs"
  obtains i where "index_of x xs = Some i"
  using assms by (cases "index_of x xs") auto

lemma ContainsString_iff [simp]: "ContainsString arr item \<longleftrightarrow> item \<in> set arr"
  by (induction arr) auto

lemma remove1_index: "index_of x xs = Some i \<Longrightarrow> take i xs @ drop (i + 1) xs = remove1 x xs"
  by (induction xs arbitrary: i) (auto split: if_splits)

lemma RemoveStringPreserveOrder_eq:
  "RemoveStringPreserveOrder arr item = (remove1 item arr, item \<in> set arr)"
proof (cases "item \<in> set arr")
  case True
  then obtain i where i: "index_of item arr = Some i" by (rule index_of_SomeE)
  then show ?thesis using True remove1_index[OF i] by (simp add: RemoveStringPreserveOrder_def)
qed (simp add: RemoveStringPreserveOrder_def remove1_idem)

lemma mset_butlast_update:
  assumes "i < length xs"
  shows "mset (butlast (xs[i := last xs])) = mset xs - {#xs ! i#}"
proof -
  have ne: "xs \<noteq> []" using assms by auto
  have "mset (xs[i := last xs]) = add_mset (last xs) (mset xs - {#xs ! i#})"
    using assms by (simp add: mset_update)
  moreover have "xs[i := last xs] \<noteq> []" "last (xs[i := last xs]) = last xs"
    using ne assms by (auto simp: last_list_update)
  then have "mset (xs[i := last xs]) = add_mset (last xs) (mset (butlast (xs[i := last xs])))"
    using append_butlast_last_id[of "xs[i := last xs]"]
    by (metis add_mset_add_single mset.simps(1) mset.simps(2) mset_append)
  ultimately show ?thesis by simp
qed

lemma RemoveStringFast_mset: "mset (fst (RemoveStringFast arr item)) = mset arr - {#item#}"
proof (cases "index_of item arr")
  case None
  then show ?thesis by (auto simp: RemoveStringFast_def)
next
  case (Some i)
  from index_of_Some[OF this] Some show ?thesis
    by (simp add: RemoveStringFast_def mset_butlast_update)
qed

lemma RemoveStringFast_distinct:
  assumes d: "distinct arr"
  shows "distinct (fst (RemoveStringFast arr item))"
    and "set (fst (RemoveStringFast arr item)) = set arr - {item}"
proof -
  have m: "mset (fst (RemoveStringFast arr item)) = mset (remove1 item arr)"
    by (simp add: RemoveStringFast_mset)
  then show "distinct (fst (RemoveStringFast arr item))"
    using d mset_eq_imp_distinct_iff[OF m] by simp
  show "set (fst (RemoveStringFast arr item)) = set arr - {item}"
    using mset_eq_setD[OF m] d by (simp add: set_remove1_eq)
qed

lemma params_remove_eq: "params_remove arr item = fst (RemoveStringFast arr item)"
proof (cases "index_of item arr")
  case (Some i)
  then have "i < length arr" by (simp add: index_of_Some)
  then have "arr \<noteq> []" by auto
  then have "i = length arr - 1 \<Longrightarrow> arr[i := last arr] = arr"
    by (simp add: last_conv_nth list_update_id)
  with Some show ?thesis by (simp add: params_remove_def RemoveStringFast_def)
qed (simp add: params_remove_def RemoveStringFast_def)

lemma params_add_set [simp]: "set (params_add arr item) = insert item (set arr)"
  by (auto simp: params_add_def)

lemma params_add_distinct: "distinct arr \<Longrightarrow> distinct (params_add arr item)"
  by (auto simp: params_add_def)

lemma AddStringOntoEnd_eq: "AddStringOntoEnd arr item = (params_add arr item, item \<notin> set arr)"
proof (cases "item \<in> set arr")
  case True
  then obtain i where "index_of item arr = Some i" by (rule index_of_SomeE)
  with True show ?thesis by (simp add: AddStringOntoEnd_def params_add_def)
qed (simp add: AddStringOntoEnd_def params_add_def)

subsection \<open>Sorted slices\<close>

abbreviation strict_sorted :: "('a::linorder) list \<Rightarrow> bool" where
  "strict_sorted xs \<equiv> sorted_wrt (<) xs"

lemma AddStringSorted_set [simp]: "set (fst (AddStringSorted arr item)) = insert item (set arr)"
  by (induction arr) auto

lemma AddStringSorted_sorted:
  "strict_sorted arr \<Longrightarrow> strict_sorted (fst (AddStringSorted arr item))"
  by (induction arr) (auto simp: not_less_iff_gr_or_eq)

lemma AddStringSorted_flag:
  "strict_sorted arr \<Longrightarrow> snd (AddStringSorted arr item) = (item \<notin> set arr)"
  by (induction arr) auto

lemma merge_loop_set [simp]: "set (merge_loop xs ys) = set xs \<union> set ys"
  by (induction xs ys rule: merge_loop.induct) auto

lemma merge_loop_sorted:
  "strict_sorted xs \<Longrightarrow> strict_sorted ys \<Longrightarrow> strict_sorted (merge_loop xs ys)"
  by (induction xs ys rule: merge_loop.induct) (auto dest: order.strict_trans)

lemma MergeStringsSorted_eq: "MergeStringsSorted xs ys = merge_loop xs ys"
  by (cases xs; cases ys) (auto simp: MergeStringsSorted_def)

lemma remove1_strict_sorted: "strict_sorted xs \<Longrightarrow> strict_sorted (remove1 x xs)"
proof (induction xs)
  case (Cons a xs)
  then show ?case using set_remove1_subset[of x xs] by auto
qed simp

text \<open>C39. The ordered-slice helpers keep their order and compute sets: on strictly increasing
  slices AddStringSorted inserts exactly the item and reports whether it was new,
  RemoveStringPreserveOrder deletes exactly it, MergeStringsSorted is the strictly increasing
  union, so no name is ever listed twice.\<close>

theorem sorted_slices:
  assumes "strict_sorted xs" "strict_sorted ys"
  shows "strict_sorted (MergeStringsSorted xs ys)
    \<and> set (MergeStringsSorted xs ys) = set xs \<union> set ys
    \<and> (case AddStringSorted xs item of (zs, new) \<Rightarrow>
         strict_sorted zs \<and> set zs = insert item (set xs) \<and> new = (item \<notin> set xs))
    \<and> (case RemoveStringPreserveOrder xs item of (zs, found) \<Rightarrow>
         strict_sorted zs \<and> set zs = set xs - {item} \<and> found = (item \<in> set xs))"
proof -
  have d: "distinct xs" using assms(1) strict_sorted_iff by blast
  have a: "strict_sorted (fst (AddStringSorted xs item))"
    "set (fst (AddStringSorted xs item)) = insert item (set xs)"
    "snd (AddStringSorted xs item) = (item \<notin> set xs)"
    using assms AddStringSorted_sorted AddStringSorted_flag by auto
  show ?thesis
    using assms a d
    by (simp add: MergeStringsSorted_eq merge_loop_sorted RemoveStringPreserveOrder_eq
        remove1_strict_sorted set_remove1_eq split_beta)
qed

theorem sorted_slices_witness:
  "strict_sorted (MergeStringsSorted [1, 4, 6] [2, 4 :: int])
   \<and> set (MergeStringsSorted [1, 4, 6] [2, 4 :: int]) = {1, 2, 4, 6}"
  using sorted_slices[of "[1, 4, 6 :: int]" "[2, 4]" 3] by auto

end
