(* ===== verification/Coins.thy ===== *)
theory Coins
  imports Prelude Lists
begin

text \<open>
  The part of the Cosmos SDK the keepers compute with. \<open>sdk.Coins\<close> and the bech32 address
  codec are not code of this repository: the record \<open>sdk\<close> holds the functions as parameters,
  and every keeper carries one. The locale \<open>sdk_laws\<close> states what their documentation
  promises about them (\<open>Add\<close> adds amounts per denomination, \<open>Sub\<close> panics on a negative
  result, \<open>IsValid\<close> coin lists are sorted, positive and determined by their amounts, an
  address survives printing and parsing). The last section gives a concrete implementation
  and proves the laws of it, so that every hypothesis \<open>sdk_laws L\<close> can be met.
\<close>

section \<open>The interface\<close>

type_synonym denom = string
type_synonym coin = "denom \<times> int"
type_synonym coins = "coin list"

record sdk =
  AmountOf :: "coins \<Rightarrow> denom \<Rightarrow> int"
  IsValid :: "coins \<Rightarrow> bool"
  IsZeroCoins :: "coins \<Rightarrow> bool"
  IsAllPositive :: "coins \<Rightarrow> bool"
  IsAnyNegative :: "coins \<Rightarrow> bool"
  IsAnyGT :: "coins \<Rightarrow> coins \<Rightarrow> bool"
  IsAllGTE :: "coins \<Rightarrow> coins \<Rightarrow> bool"
  EqualCoins :: "coins \<Rightarrow> coins \<Rightarrow> bool"
  AddC :: "coins \<Rightarrow> coins \<Rightarrow> coins"
  SubC :: "coins \<Rightarrow> coins \<Rightarrow> coins res"
  SafeSubNeg :: "coins \<Rightarrow> coins \<Rightarrow> bool"
  NewCoin :: "denom \<Rightarrow> int \<Rightarrow> coin res"
  NewCoins :: "coins \<Rightarrow> coins res"
  AccAddressFromBech32 :: "string \<Rightarrow> addr option"
  AccString :: "addr \<Rightarrow> string"

definition ConfigMainDenom :: denom where "ConfigMainDenom = ''uartr''"
definition ConfigDelegatedDenom :: denom where "ConfigDelegatedDenom = ''uartrd''"
definition ConfigRevokingDenom :: denom where "ConfigRevokingDenom = ''uartrr''"

definition known_denom :: "denom \<Rightarrow> bool" where
  "known_denom d \<longleftrightarrow> d = ConfigMainDenom \<or> d = ConfigDelegatedDenom \<or> d = ConfigRevokingDenom"

lemma known_denoms [simp]:
  "known_denom ConfigMainDenom" "known_denom ConfigDelegatedDenom" "known_denom ConfigRevokingDenom"
  by (simp_all add: known_denom_def)

lemma denoms_distinct [simp]:
  "ConfigMainDenom \<noteq> ConfigDelegatedDenom" "ConfigDelegatedDenom \<noteq> ConfigMainDenom"
  "ConfigMainDenom \<noteq> ConfigRevokingDenom" "ConfigRevokingDenom \<noteq> ConfigMainDenom"
  "ConfigDelegatedDenom \<noteq> ConfigRevokingDenom" "ConfigRevokingDenom \<noteq> ConfigDelegatedDenom"
  by (simp_all add: ConfigMainDenom_def ConfigDelegatedDenom_def ConfigRevokingDenom_def)

text \<open>\<open>sdk.NewCoins(sdk.NewCoin(denom, amount))\<close>, and \<open>util.Uartrs\<close>, \<open>util.UartrsUint64\<close>.\<close>

definition one_coin :: "sdk \<Rightarrow> denom \<Rightarrow> int \<Rightarrow> coins res" where
  "one_coin L d x = bind_res (NewCoin L d x) (\<lambda>c. NewCoins L [c])"

definition Uartrs :: "sdk \<Rightarrow> int \<Rightarrow> coins res" where
  "Uartrs L n = one_coin L ConfigMainDenom n"

definition UartrsUint64 :: "sdk \<Rightarrow> int \<Rightarrow> coins res" where
  "UartrsUint64 L n = one_coin L ConfigMainDenom n"

section \<open>What the documentation promises\<close>

locale sdk_laws =
  fixes L :: sdk
  assumes valid_nil: "IsValid L []"
    and amount_nil: "AmountOf L [] d = 0"
    and amount_nonneg: "IsValid L a \<Longrightarrow> 0 \<le> AmountOf L a d"
    and valid_ext: "IsValid L a \<Longrightarrow> IsValid L b \<Longrightarrow> (\<And>d. AmountOf L a d = AmountOf L b d) \<Longrightarrow> a = b"
    and add_valid: "IsValid L a \<Longrightarrow> IsValid L b \<Longrightarrow> IsValid L (AddC L a b)"
    and add_amount:
      "IsValid L a \<Longrightarrow> IsValid L b \<Longrightarrow> AmountOf L (AddC L a b) d = AmountOf L a d + AmountOf L b d"
    and sub_ok: "IsValid L a \<Longrightarrow> IsValid L b \<Longrightarrow> (\<And>d. AmountOf L b d \<le> AmountOf L a d) \<Longrightarrow>
      \<exists>c. SubC L a b = Ok c \<and> IsValid L c \<and> (\<forall>d. AmountOf L c d = AmountOf L a d - AmountOf L b d)"
    and safe_sub: "IsValid L a \<Longrightarrow> IsValid L b \<Longrightarrow>
      SafeSubNeg L a b \<longleftrightarrow> (\<exists>d. AmountOf L a d < AmountOf L b d)"
    and new_coins_valid: "IsValid L a \<Longrightarrow> NewCoins L a = Ok a"
    and one_coin_ok: "known_denom d \<Longrightarrow> 0 \<le> x \<Longrightarrow>
      \<exists>c. one_coin L d x = Ok c \<and> IsValid L c \<and> (\<forall>d'. AmountOf L c d' = (if d' = d then x else 0))"
    and new_coin_ok: "known_denom d \<Longrightarrow> 0 \<le> x \<Longrightarrow> NewCoin L d x = Ok (d, x)"
    and valid_mem: "IsValid L a \<Longrightarrow> (d, x) \<in> set a \<longleftrightarrow> 0 < x \<and> AmountOf L a d = x"
    and valid_sorted: "IsValid L a \<Longrightarrow> sorted_wrt (<) (map fst a)"
    and valid_single: "known_denom d \<Longrightarrow> 0 < x \<Longrightarrow> IsValid L [(d, x)]"
    and add_zero_coin: "known_denom d \<Longrightarrow> IsValid L a \<Longrightarrow> AddC L a [(d, 0)] = a"
    and all_positive: "IsValid L a \<Longrightarrow> IsAllPositive L a \<longleftrightarrow> a \<noteq> []"
    and any_negative: "IsValid L a \<Longrightarrow> \<not> IsAnyNegative L a"
    and any_gt: "IsValid L a \<Longrightarrow> IsValid L b \<Longrightarrow>
      IsAnyGT L a b \<longleftrightarrow> (\<exists>d. AmountOf L b d \<noteq> 0 \<and> AmountOf L b d < AmountOf L a d)"
    and new_coin_neg: "x < 0 \<Longrightarrow> \<exists>e. NewCoin L d x = Panic e"
    and zero_coins: "IsValid L a \<Longrightarrow> IsZeroCoins L a \<longleftrightarrow> (\<forall>d. AmountOf L a d = 0)"
    and equal_coins: "IsValid L a \<Longrightarrow> IsValid L b \<Longrightarrow>
      EqualCoins L a b \<longleftrightarrow> (\<forall>d. AmountOf L a d = AmountOf L b d)"
    and bech32_empty: "AccAddressFromBech32 L [] = None"
    and bech32_roundtrip: "w \<noteq> [] \<Longrightarrow> AccAddressFromBech32 L (AccString L w) = Some w"
begin

lemma one_coin_neg: "x < 0 \<Longrightarrow> \<exists>e. one_coin L d x = Panic e"
  using new_coin_neg[of x d] by (auto simp: one_coin_def)

lemma zero_coins_iff_nil: "IsValid L a \<Longrightarrow> IsZeroCoins L a \<longleftrightarrow> a = []"
  using zero_coins valid_ext[of a "[]"] by (auto simp: amount_nil valid_nil)

lemma one_coin_zero: "known_denom d \<Longrightarrow> one_coin L d 0 = Ok []"
  using one_coin_ok[of d 0] valid_ext[of _ "[]"] by (fastforce simp: amount_nil valid_nil)

lemma amount_single: "known_denom d \<Longrightarrow> 0 < x \<Longrightarrow> AmountOf L [(d, x)] d' = (if d' = d then x else 0)"
  using valid_mem[OF valid_single[of d x], of d' "AmountOf L [(d, x)] d'"] valid_single[of d x]
    amount_nonneg[OF valid_single[of d x], of d'] valid_mem[OF valid_single[of d x], of d x]
  by (cases "AmountOf L [(d, x)] d' = 0") auto

lemma AccString_inj: "a \<noteq> [] \<Longrightarrow> b \<noteq> [] \<Longrightarrow> AccString L a = AccString L b \<longleftrightarrow> a = b"
  by (metis bech32_roundtrip option.inject)

lemma AccString_nonempty: "a \<noteq> [] \<Longrightarrow> AccString L a \<noteq> []"
  using bech32_empty bech32_roundtrip by fastforce

lemma sub_add_cancel:
  assumes "IsValid L a" "IsValid L b"
  shows "SubC L (AddC L a b) b = Ok a"
proof -
  obtain c where c: "SubC L (AddC L a b) b = Ok c" "IsValid L c"
    "\<forall>d. AmountOf L c d = AmountOf L (AddC L a b) d - AmountOf L b d"
    using sub_ok[of "AddC L a b" b] assms add_valid add_amount amount_nonneg by fastforce
  then have "c = a" using assms by (intro valid_ext) (auto simp: add_amount)
  with c show ?thesis by simp
qed

end

section \<open>A concrete implementation\<close>

text \<open>
  Sorted association lists without zero amounts. It serves to evaluate the model on concrete
  inputs and to show that the laws hold together.
\<close>

definition ref_amount :: "coins \<Rightarrow> denom \<Rightarrow> int" where
  "ref_amount c d = (case map_of c d of None \<Rightarrow> 0 | Some x \<Rightarrow> x)"

definition ref_sorted :: "coins \<Rightarrow> bool" where
  "ref_sorted c \<longleftrightarrow> strict_sorted (map fst c) \<and> (\<forall>p \<in> set c. snd p \<noteq> 0)"

definition ref_valid :: "coins \<Rightarrow> bool" where
  "ref_valid c \<longleftrightarrow> strict_sorted (map fst c) \<and> (\<forall>p \<in> set c. 0 < snd p)"

fun ref_put :: "coins \<Rightarrow> denom \<Rightarrow> int \<Rightarrow> coins" where
  "ref_put [] d x = (if x = 0 then [] else [(d, x)])"
| "ref_put ((d', y) # c) d x =
     (if d < d' then (if x = 0 then (d', y) # c else (d, x) # (d', y) # c)
      else if d = d' then (if x = 0 then c else (d, x) # c)
      else (d', y) # ref_put c d x)"

fun ref_acc :: "int \<Rightarrow> coins \<Rightarrow> coins \<Rightarrow> coins" where
  "ref_acc s a [] = a"
| "ref_acc s a ((d, x) # b) = ref_acc s (ref_put a d (ref_amount a d + s * x)) b"

definition ref_sub :: "coins \<Rightarrow> coins \<Rightarrow> coins res" where
  "ref_sub a b = (let c = ref_acc (-1) a b in
     if (\<exists>p \<in> set c. snd p < 0) then Panic (Text ''negative coin amount'') else Ok c)"

definition ref_new_coin :: "denom \<Rightarrow> int \<Rightarrow> coin res" where
  "ref_new_coin d x = (if x < 0 then Panic (Text ''negative coin amount'') else Ok (d, x))"

definition ref_new_coins :: "coins \<Rightarrow> coins res" where
  "ref_new_coins c = (let c' = filter (\<lambda>p. snd p \<noteq> 0) c in
     if ref_valid c' then Ok c' else Panic (Text ''invalid coin set''))"

definition ref_sdk :: sdk where
  "ref_sdk = \<lparr>
     AmountOf = ref_amount,
     IsValid = ref_valid,
     IsZeroCoins = list_all (\<lambda>p. snd p = 0),
     IsAllPositive = (\<lambda>c. c \<noteq> [] \<and> list_all (\<lambda>p. 0 < snd p) c),
     IsAnyNegative = list_ex (\<lambda>p. snd p < 0),
     IsAnyGT = (\<lambda>a b. b \<noteq> [] \<and> list_ex (\<lambda>p. ref_amount b (fst p) < snd p \<and> ref_amount b (fst p) \<noteq> 0) a),
     IsAllGTE = (\<lambda>a b. list_all (\<lambda>p. snd p \<le> ref_amount a (fst p)) b),
     EqualCoins = (\<lambda>a b. a = b),
     AddC = ref_acc 1,
     SubC = ref_sub,
     SafeSubNeg = (\<lambda>a b. list_ex (\<lambda>p. snd p < 0) (ref_acc (-1) a b)),
     NewCoin = ref_new_coin,
     NewCoins = ref_new_coins,
     AccAddressFromBech32 = (\<lambda>s. if take 5 s = ''artr1'' \<and> 5 < length s then Some (drop 5 s) else None),
     AccString = (\<lambda>a. ''artr1'' @ a) \<rparr>"

lemma ref_amount_simps [simp]:
  "ref_amount [] d = 0"
  "ref_amount ((d', x) # c) d = (if d = d' then x else ref_amount c d)"
  by (simp_all add: ref_amount_def)

lemma ref_amount_notin: "d \<notin> fst ` set c \<Longrightarrow> ref_amount c d = 0"
  by (induction c) auto

lemma ref_sorted_Cons:
  "ref_sorted ((d, x) # c) \<longleftrightarrow> x \<noteq> 0 \<and> (\<forall>d' \<in> fst ` set c. d < d') \<and> ref_sorted c"
  by (auto simp: ref_sorted_def)

lemma ref_put_keys: "fst ` set (ref_put c d x) \<subseteq> insert d (fst ` set c)"
  by (induction c d x rule: ref_put.induct) auto

lemma ref_put_sorted: "ref_sorted c \<Longrightarrow> ref_sorted (ref_put c d x)"
proof (induction c d x rule: ref_put.induct)
  case (2 d' y c d x)
  have s: "y \<noteq> 0" "\<forall>e \<in> fst ` set c. d' < e" "ref_sorted c"
    using 2(2) by (simp_all add: ref_sorted_Cons)
  consider (lt) "d < d'" | (eq) "d = d'" | (gt) "d' < d" by (rule linorder_cases)
  then show ?case
  proof cases
    case lt
    then have "\<forall>e \<in> fst ` set c. d < e" using s(2) order.strict_trans by blast
    with lt s show ?thesis by (simp add: ref_sorted_Cons)
  next
    case eq
    with s show ?thesis by (simp add: ref_sorted_Cons)
  next
    case gt
    then have n: "\<not> d < d'" "d \<noteq> d'" by auto
    have "\<forall>e \<in> fst ` set (ref_put c d x). d' < e"
      using ref_put_keys[of c d x] s(2) gt by blast
    with n s 2(1)[OF n s(3)] show ?thesis by (simp add: ref_sorted_Cons)
  qed
qed (simp add: ref_sorted_def)

lemma ref_put_amount:
  "ref_sorted c \<Longrightarrow> ref_amount (ref_put c d x) e = (if e = d then x else ref_amount c e)"
proof (induction c d x rule: ref_put.induct)
  case (2 d' y c d x)
  have "d < d' \<Longrightarrow> d \<notin> fst ` set c" "d = d' \<Longrightarrow> d \<notin> fst ` set c"
    using 2(2) by (auto simp: ref_sorted_Cons)
  then show ?case using 2 ref_amount_notin[of d c]
    by (auto simp: ref_sorted_Cons)
qed auto

lemma ref_acc_sorted: "ref_sorted a \<Longrightarrow> ref_sorted (ref_acc s a b)"
  by (induction s a b rule: ref_acc.induct) (auto intro: ref_put_sorted)

lemma ref_acc_amount:
  "ref_sorted a \<Longrightarrow> distinct (map fst b) \<Longrightarrow>
   ref_amount (ref_acc s a b) e = ref_amount a e + s * ref_amount b e"
proof (induction s a b rule: ref_acc.induct)
  case (2 s a d x b)
  then show ?case using ref_amount_notin[of d b] by (auto simp: ref_put_sorted ref_put_amount)
qed simp

lemma ref_sorted_nonneg:
  assumes "ref_sorted c"
  shows "(\<forall>p \<in> set c. 0 < snd p) \<longleftrightarrow> (\<forall>d. 0 \<le> ref_amount c d)"
  using assms
proof (induction c)
  case (Cons p c)
  obtain d x where p: "p = (d, x)" by (cases p)
  have n: "ref_amount c d = 0" using Cons.prems by (intro ref_amount_notin) (auto simp: p ref_sorted_Cons)
  have c: "ref_sorted c" "x \<noteq> 0" using Cons.prems by (auto simp: p ref_sorted_Cons)
  have "(\<forall>e. 0 \<le> ref_amount (p # c) e) \<longleftrightarrow> 0 \<le> x \<and> (\<forall>e. 0 \<le> ref_amount c e)"
  proof (rule iffI)
    assume a: "\<forall>e. 0 \<le> ref_amount (p # c) e"
    have "0 \<le> ref_amount c e" for e
      using a[rule_format, of e] n by (cases "e = d") (simp_all add: p)
    then show "0 \<le> x \<and> (\<forall>e. 0 \<le> ref_amount c e)"
      using a[rule_format, of d] by (simp add: p)
  qed (simp add: p)
  then show ?case using Cons.IH[OF c(1)] c(2) by (auto simp: p)
qed simp

lemma ref_valid_sorted: "ref_valid c \<longleftrightarrow> ref_sorted c \<and> (\<forall>d. 0 \<le> ref_amount c d)"
proof
  assume v: "ref_valid c"
  then have "ref_sorted c" by (force simp: ref_valid_def ref_sorted_def)
  then show "ref_sorted c \<and> (\<forall>d. 0 \<le> ref_amount c d)"
    using v ref_sorted_nonneg[of c] by (simp add: ref_valid_def)
next
  assume v: "ref_sorted c \<and> (\<forall>d. 0 \<le> ref_amount c d)"
  then show "ref_valid c"
    using ref_sorted_nonneg[of c] by (simp add: ref_valid_def ref_sorted_def)
qed

lemma ref_sorted_distinct: "ref_sorted c \<Longrightarrow> distinct (map fst c)"
  by (simp add: ref_sorted_def strict_sorted_iff)

lemma ref_sorted_in: "ref_sorted c \<Longrightarrow> d \<in> fst ` set c \<longleftrightarrow> ref_amount c d \<noteq> 0"
proof (induction c)
  case (Cons p c)
  then show ?case by (cases p) (auto simp: ref_sorted_Cons)
qed simp

lemma ref_sorted_repr: "distinct (map fst a) \<Longrightarrow> map (\<lambda>d. (d, ref_amount a d)) (map fst a) = a"
proof -
  assume d: "distinct (map fst a)"
  have "(fst p, ref_amount a (fst p)) = p" if "p \<in> set a" for p
    using d that by (cases p) (simp add: ref_amount_def map_of_is_SomeI)
  then show ?thesis by (simp add: o_def map_idI)
qed

lemma ref_sorted_ext:
  assumes "ref_sorted a" "ref_sorted b" "\<And>d. ref_amount a d = ref_amount b d"
  shows "a = b"
proof -
  have "fst ` set a = fst ` set b"
    by (rule set_eqI) (simp only: ref_sorted_in[OF assms(1)] ref_sorted_in[OF assms(2)] assms(3))
  then have "map fst a = map fst b"
    using assms(1,2) by (intro strict_sorted_equal) (auto simp: ref_sorted_def)
  then have "map (\<lambda>d. (d, ref_amount a d)) (map fst a) = map (\<lambda>d. (d, ref_amount b d)) (map fst b)"
    using assms(3) by simp
  then show ?thesis
    unfolding ref_sorted_repr[OF ref_sorted_distinct[OF assms(1)]]
      ref_sorted_repr[OF ref_sorted_distinct[OF assms(2)]] .
qed

lemma ref_acc_neg_iff:
  assumes "ref_valid a" "ref_valid b"
  shows "(\<exists>p \<in> set (ref_acc (-1) a b). snd p < 0) \<longleftrightarrow> (\<exists>d. ref_amount a d < ref_amount b d)"
proof -
  have s: "ref_sorted a" "ref_sorted b" using assms by (auto simp: ref_valid_sorted)
  have srt: "ref_sorted (ref_acc (-1) a b)" by (rule ref_acc_sorted[OF s(1)])
  have am: "ref_amount (ref_acc (-1) a b) d = ref_amount a d - ref_amount b d" for d
    using ref_acc_amount[OF s(1) ref_sorted_distinct[OF s(2)], of "-1"] by simp
  have "(\<exists>p \<in> set (ref_acc (-1) a b). snd p < 0) \<longleftrightarrow> \<not> (\<forall>p \<in> set (ref_acc (-1) a b). 0 < snd p)"
    using srt by (force simp: ref_sorted_def not_less)
  also have "\<dots> \<longleftrightarrow> (\<exists>d. ref_amount a d < ref_amount b d)"
    unfolding ref_sorted_nonneg[OF srt] am by (auto simp: not_le)
  finally show ?thesis .
qed

lemma ref_valid_filter: "ref_valid a \<Longrightarrow> filter (\<lambda>p. snd p \<noteq> 0) a = a"
  by (auto simp: ref_valid_def filter_id_conv)

lemma ref_one_coin: "one_coin ref_sdk d x = (if x < 0 then Panic (Text ''negative coin amount'')
    else Ok (if x = 0 then [] else [(d, x)]))"
  by (auto simp: one_coin_def ref_sdk_def ref_new_coin_def ref_new_coins_def ref_valid_def)

interpretation ref_coins: sdk_laws ref_sdk
proof
  show "IsValid ref_sdk (AddC ref_sdk a b)" if "IsValid ref_sdk a" "IsValid ref_sdk b" for a b
    using that ref_acc_sorted ref_acc_amount ref_sorted_distinct
    by (simp add: ref_sdk_def ref_valid_sorted)
  show "AmountOf ref_sdk (AddC ref_sdk a b) d = AmountOf ref_sdk a d + AmountOf ref_sdk b d"
    if "IsValid ref_sdk a" "IsValid ref_sdk b" for a b d
    using that ref_acc_amount ref_sorted_distinct by (simp add: ref_sdk_def ref_valid_sorted)
  show "\<exists>c. SubC ref_sdk a b = Ok c \<and> IsValid ref_sdk c \<and>
      (\<forall>d. AmountOf ref_sdk c d = AmountOf ref_sdk a d - AmountOf ref_sdk b d)"
    if "IsValid ref_sdk a" "IsValid ref_sdk b" "\<And>d. AmountOf ref_sdk b d \<le> AmountOf ref_sdk a d"
    for a b
  proof -
    have v: "ref_valid a" "ref_valid b" and le: "\<And>d. ref_amount b d \<le> ref_amount a d"
      using that by (simp_all add: ref_sdk_def)
    then have s: "ref_sorted a" "ref_sorted b" by (auto simp: ref_valid_sorted)
    let ?c = "ref_acc (-1) a b"
    have "SubC ref_sdk a b = Ok ?c"
      using ref_acc_neg_iff[OF v] le by (auto simp: ref_sdk_def ref_sub_def Let_def not_less)
    moreover have am: "\<forall>d. ref_amount ?c d = ref_amount a d - ref_amount b d"
      using ref_acc_amount[OF s(1) ref_sorted_distinct[OF s(2)], of "-1"] by simp
    moreover have "ref_valid ?c"
      using am le ref_acc_sorted[OF s(1)] by (simp add: ref_valid_sorted)
    ultimately show ?thesis by (simp add: ref_sdk_def)
  qed
  show "SafeSubNeg ref_sdk a b \<longleftrightarrow> (\<exists>d. AmountOf ref_sdk a d < AmountOf ref_sdk b d)"
    if "IsValid ref_sdk a" "IsValid ref_sdk b" for a b
    using that ref_acc_neg_iff[of a b] by (simp add: ref_sdk_def list_ex_iff)
  show "a = b" if "IsValid ref_sdk a" "IsValid ref_sdk b"
    "\<And>d. AmountOf ref_sdk a d = AmountOf ref_sdk b d" for a b
    using that by (intro ref_sorted_ext) (simp_all add: ref_sdk_def ref_valid_sorted)
  show "NewCoins ref_sdk a = Ok a" if "IsValid ref_sdk a" for a
    using that by (simp add: ref_sdk_def ref_new_coins_def ref_valid_filter)
  show "\<exists>c. one_coin ref_sdk d x = Ok c \<and> IsValid ref_sdk c
      \<and> (\<forall>d'. AmountOf ref_sdk c d' = (if d' = d then x else 0))"
    if "known_denom d" "0 \<le> x" for d x
    using that by (auto simp: ref_one_coin) (auto simp: ref_sdk_def ref_valid_def)
  show "\<exists>e. NewCoin ref_sdk d x = Panic e" if "x < 0" for d x
    using that by (simp add: ref_sdk_def ref_new_coin_def)
  show "IsZeroCoins ref_sdk a \<longleftrightarrow> (\<forall>d. AmountOf ref_sdk a d = 0)" if "IsValid ref_sdk a" for a
  proof -
    have s: "ref_sorted a" using that by (simp add: ref_sdk_def ref_valid_sorted)
    have "(\<forall>d. ref_amount a d = 0) \<longleftrightarrow> a = []" using ref_sorted_in[OF s] by fastforce
    moreover have "list_all (\<lambda>p. snd p = 0) a \<longleftrightarrow> a = []"
      using s by (cases a) (auto simp: ref_sorted_def)
    ultimately show ?thesis by (simp add: ref_sdk_def)
  qed
  show "EqualCoins ref_sdk a b \<longleftrightarrow> (\<forall>d. AmountOf ref_sdk a d = AmountOf ref_sdk b d)"
    if "IsValid ref_sdk a" "IsValid ref_sdk b" for a b
    using that ref_sorted_ext[of a b] by (auto simp: ref_sdk_def ref_valid_sorted)
  show "(d, x) \<in> set a \<longleftrightarrow> 0 < x \<and> AmountOf ref_sdk a d = x" if "IsValid ref_sdk a" for a d x
  proof -
    have v: "ref_valid a" using that by (simp add: ref_sdk_def)
    then have s: "distinct (map fst a)" using ref_sorted_distinct ref_valid_sorted by blast
    have p: "\<forall>p \<in> set a. 0 < snd p" using v by (simp add: ref_valid_def)
    have "(d, x) \<in> set a \<longleftrightarrow> map_of a d = Some x" using s by simp
    then show ?thesis using p by (force simp: ref_sdk_def ref_amount_def split: option.splits)
  qed
  show "AddC ref_sdk a [(d, 0)] = a" if "known_denom d" "IsValid ref_sdk a" for a d
  proof -
    have s: "ref_sorted a" using that by (simp add: ref_sdk_def ref_valid_sorted)
    then have "ref_put a d (ref_amount a d) = a"
      by (intro ref_sorted_ext ref_put_sorted) (simp_all add: ref_put_amount)
    then show ?thesis by (simp add: ref_sdk_def)
  qed
  show "IsAnyGT ref_sdk a b \<longleftrightarrow> (\<exists>d. AmountOf ref_sdk b d \<noteq> 0 \<and> AmountOf ref_sdk b d < AmountOf ref_sdk a d)"
    (is "?l = ?r") if "IsValid ref_sdk a" "IsValid ref_sdk b" for a b
  proof -
    have v: "ref_valid a" "ref_valid b" using that by (simp_all add: ref_sdk_def)
    then have da: "distinct (map fst a)" using ref_sorted_distinct ref_valid_sorted by blast
    have n: "0 \<le> ref_amount b d" for d using v(2) ref_valid_sorted by blast
    have m: "(d, x) \<in> set a \<Longrightarrow> ref_amount a d = x" for d x
      using da by (simp add: ref_amount_def)
    have sa: "ref_sorted a" using v(1) ref_valid_sorted by blast
    have "?r \<longleftrightarrow> (\<exists>p \<in> set a. ref_amount b (fst p) < snd p \<and> ref_amount b (fst p) \<noteq> 0)" (is "_ = ?m")
    proof
      assume ?r
      then obtain d where d: "ref_amount b d \<noteq> 0" "ref_amount b d < ref_amount a d"
        by (auto simp: ref_sdk_def)
      then have "ref_amount a d \<noteq> 0" using n[of d] by simp
      then obtain p where p: "p \<in> set a" "fst p = d" using ref_sorted_in[OF sa, of d] by auto
      then have "(d, snd p) \<in> set a" by (metis prod.collapse)
      then have "snd p = ref_amount a d" using m[of d "snd p"] by simp
      with d p show ?m by (intro bexI[of _ p]) simp_all
    next
      assume ?m
      then obtain p where p: "p \<in> set a" "ref_amount b (fst p) < snd p" "ref_amount b (fst p) \<noteq> 0"
        by blast
      then have "ref_amount a (fst p) = snd p" using m[of "fst p" "snd p"] by simp
      with p show ?r by (auto simp: ref_sdk_def)
    qed
    moreover have "?l \<longleftrightarrow> ?m"
      by (auto simp: ref_sdk_def list_ex_iff)
    ultimately show ?thesis by blast
  qed
  show "IsAllPositive ref_sdk a \<longleftrightarrow> a \<noteq> []" if "IsValid ref_sdk a" for a
    using that by (auto simp: ref_sdk_def ref_valid_def list_all_iff)
  show "\<not> IsAnyNegative ref_sdk a" if "IsValid ref_sdk a" for a
    using that by (fastforce simp: ref_sdk_def ref_valid_def list_ex_iff)
  show "0 \<le> AmountOf ref_sdk a d" if "IsValid ref_sdk a" for a d
    using that by (simp add: ref_sdk_def ref_valid_sorted)
qed (simp_all add: ref_sdk_def ref_valid_def ref_new_coin_def)

end
