(* ===== verification/Fee.thy ===== *)
theory Fee
  imports Fraction Coins
begin

text \<open>
  \<open>util/fee.go\<close>: the transaction fee and the way it is split between the block proposer, the
  company account and burning. The fee is rounded down to a multiple of the least common
  multiple of the three denominators, so that the three shares are integers; the lemmas show
  that they are, and that they add up.
\<close>

section \<open>Operations\<close>

definition TransactionFeeSplitRatiosMaxLcm :: int where
  "TransactionFeeSplitRatiosMaxLcm = 100"

definition calculateForBurningFeeFraction :: "fraction \<Rightarrow> fraction \<Rightarrow> fraction res" where
  "calculateForBurningFeeFraction forProposer forCompany =
     bind_res (Sub (FractionInt 1) forProposer) (\<lambda>x. Sub x forCompany)"

text \<open>\<open>big.Int\<close> operations on a nil pointer panic.\<close>

definition deref :: "int option \<Rightarrow> int res" where
  "deref p = (case p of None \<Rightarrow> Panic nil_deref | Some x \<Rightarrow> Ok x)"

definition CalculateTransactionFeeSplitRatiosLCM :: "fraction \<Rightarrow> fraction \<Rightarrow> int res" where
  "CalculateTransactionFeeSplitRatiosLCM forProposer forCompany =
     bind_res (deref (f_denom forProposer)) (\<lambda>dp.
     bind_res (deref (f_denom forCompany)) (\<lambda>dc.
     bind_res (big_lcm dp dc) (\<lambda>l.
     bind_res (calculateForBurningFeeFraction forProposer forCompany) (\<lambda>b.
     bind_res (deref (f_denom b)) (\<lambda>db. big_lcm l db)))))"

text \<open>\<open>math.Int.Mod\<close> is the Euclidean remainder and panics on zero.\<close>

definition int_mod :: "int \<Rightarrow> int \<Rightarrow> int res" where
  "int_mod a b = (if b = 0 then Panic div_by_zero else Ok (a mod \<bar>b\<bar>))"

definition calculateSplittableFee :: "int \<Rightarrow> fraction \<Rightarrow> fraction \<Rightarrow> int res" where
  "calculateSplittableFee feeLimit forProposer forCompany =
     bind_res (CalculateTransactionFeeSplitRatiosLCM forProposer forCompany) (\<lambda>l.
     bind_res (int_mod feeLimit l) (\<lambda>m. Ok (feeLimit - m)))"

definition CalculateFee :: "int \<Rightarrow> fraction \<Rightarrow> int \<Rightarrow> fraction \<Rightarrow> fraction \<Rightarrow> int res" where
  "CalculateFee amount txFeeFraction txFeeMaxAmount forProposer forCompany =
     bind_res (Int64 amount) (\<lambda>a.
     bind_res (MulInt64 txFeeFraction a) (\<lambda>z.
     bind_res (Frac_Int64 z) (\<lambda>fee.
       calculateSplittableFee
         (if txFeeMaxAmount \<noteq> 0 \<and> fee > txFeeMaxAmount then txFeeMaxAmount else fee)
         forProposer forCompany)))"

text \<open>\<open>math.NewInt(fraction.MulInt64(fee.Int64()).Int64())\<close>, the share of a fee.\<close>

definition fee_share :: "fraction \<Rightarrow> int \<Rightarrow> int res" where
  "fee_share x fee =
     bind_res (Int64 fee) (\<lambda>f. bind_res (MulInt64 x f) (\<lambda>z. Frac_Int64 z))"

definition SplitFee :: "int \<Rightarrow> fraction \<Rightarrow> fraction \<Rightarrow> (int \<times> int \<times> int) res" where
  "SplitFee splittableFee forProposer forCompany =
     bind_res (fee_share forProposer splittableFee) (\<lambda>p.
     bind_res (fee_share forCompany splittableFee) (\<lambda>c.
     bind_res (calculateForBurningFeeFraction forProposer forCompany) (\<lambda>bf.
     bind_res (fee_share bf splittableFee) (\<lambda>b. Ok (p, c, b)))))"

definition IsSendable :: "denom \<Rightarrow> bool" where
  "IsSendable d \<longleftrightarrow> d = ConfigMainDenom"

section \<open>The shares\<close>

text \<open>The integer part of a rational, rounded towards zero; \<open>BigInt\<close> computes it.\<close>

lemma quo_add_rem: "\<exists>r. a = quo a b * b + r \<and> \<bar>r\<bar> < \<bar>b\<bar>" if "b \<noteq> 0"
proof -
  define m where "m = \<bar>a\<bar> mod \<bar>b\<bar>"
  have m: "0 \<le> m" "m < \<bar>b\<bar>" using that by (auto simp: m_def)
  have d: "\<bar>a\<bar> = (\<bar>a\<bar> div \<bar>b\<bar>) * \<bar>b\<bar> + m" by (simp add: m_def)
  have "a = sgn a * \<bar>a\<bar>" by (simp add: mult_sgn_abs)
  also have "\<dots> = sgn a * ((\<bar>a\<bar> div \<bar>b\<bar>) * \<bar>b\<bar>) + sgn a * m"
    by (subst d) (simp only: distrib_left)
  also have "sgn a * ((\<bar>a\<bar> div \<bar>b\<bar>) * \<bar>b\<bar>) = quo a b * b"
    by (simp add: quo_def abs_sgn[of b] mult_ac)
  finally have "a = quo a b * b + sgn a * m" .
  moreover have "\<bar>sgn a * m\<bar> < \<bar>b\<bar>" using m that by (auto simp: abs_mult sgn_if)
  ultimately show ?thesis by blast
qed

lemma BigInt_exact:
  assumes "wf_frac z" "frac_val z = of_int k"
  shows "BigInt z = Ok k"
proof -
  obtain n d where z: "z = mk_frac n d" "d \<noteq> 0" "frac_val z = of_int n / of_int d"
    using assms(1) by (rule wf_fracE)
  then have "(of_int n :: rat) = of_int (k * d)" using assms(2) by (simp add: field_simps)
  then have "n = k * d" by (simp only: of_int_eq_iff)
  with z have "quo n d = k" using quo_dvd[of d n] by simp
  with z show ?thesis by (simp add: BigInt_def big_quo_def)
qed

lemma dvd_share:
  assumes "d \<noteq> 0" "d dvd f"
  shows "\<exists>k. (of_int n / of_int d :: rat) * of_int f = of_int k"
proof -
  obtain g where "f = d * g" using assms(2) by (rule dvdE)
  then have "(of_int n / of_int d :: rat) * of_int f = of_int (n * g)" using assms(1) by simp
  then show ?thesis by blast
qed

lemma in_int64_between: "in_int64 b \<Longrightarrow> 0 \<le> a \<Longrightarrow> a \<le> b \<Longrightarrow> in_int64 a"
  by (simp add: in_int64_def)

lemma fee_share_exact:
  assumes "x = mk_frac n d" "d \<noteq> 0" "d dvd f" "in_int64 f" "0 \<le> f"
    "0 \<le> frac_val x" "frac_val x \<le> 1"
  obtains k where "fee_share x f = Ok k" "of_int k = frac_val x * of_int f" "0 \<le> k" "k \<le> f"
proof -
  obtain k where k: "frac_val x * of_int f = of_int k"
    using dvd_share[OF assms(2,3), of n] assms(1) by auto
  have wf: "wf_frac x" using assms(1,2) by simp
  obtain z where z: "MulInt64 x f = Ok z" "wf_frac z" "frac_val z = of_int k"
    using MulInt64_val[OF wf, of f] k by auto
  have "0 \<le> (of_int k :: rat)" unfolding k[symmetric] using assms(5,6) by simp
  then have k0: "0 \<le> k" by simp
  have "(of_int k :: rat) \<le> 1 * of_int f"
    unfolding k[symmetric] by (rule mult_right_mono) (use assms(5,7) in auto)
  then have kf: "k \<le> f" by simp
  have "in_int64 k" using assms(4) k0 kf by (rule in_int64_between)
  then have "fee_share x f = Ok k"
    using z assms(4) by (simp add: fee_share_def Int64_def Frac_Int64_def BigInt_exact)
  with that k k0 kf show ?thesis by simp
qed

text \<open>The ratios the parameter validation accepts, as rationals.\<close>

definition valid_ratios :: "fraction \<Rightarrow> fraction \<Rightarrow> bool" where
  "valid_ratios p c \<longleftrightarrow> wf_frac p \<and> wf_frac c \<and> 0 \<le> frac_val p \<and> 0 \<le> frac_val c
     \<and> frac_val p + frac_val c \<le> 1"

lemma Add_denom:
  assumes "d \<noteq> 0" "d' \<noteq> 0"
  shows "Add (mk_frac n d) (mk_frac n' d') =
    Ok (mk_frac (quo (n * lcm d d') d + quo (n' * lcm d d') d') (lcm d d'))"
  using assms by (simp add: Add_def big_lcm_val big_quo_def)

lemma Sub_denom:
  assumes "d \<noteq> 0" "d' \<noteq> 0"
  shows "\<exists>k. Sub (mk_frac n d) (mk_frac n' d') = Ok (mk_frac k (lcm d d'))"
  using assms by (simp add: Sub_def Neg_def Add_denom)

lemma burning_fraction:
  assumes "dp \<noteq> 0" "dc \<noteq> 0"
  obtains k where "calculateForBurningFeeFraction (mk_frac np dp) (mk_frac nc dc)
      = Ok (mk_frac k (lcm dp dc))"
    and "frac_val (mk_frac k (lcm dp dc)) = 1 - frac_val (mk_frac np dp) - frac_val (mk_frac nc dc)"
proof -
  have one: "FractionInt 1 = mk_frac 1 1" by (simp add: FractionInt_def NewFraction_def)
  obtain k1 where k1: "Sub (mk_frac 1 1) (mk_frac np dp) = Ok (mk_frac k1 (lcm 1 dp))"
    using Sub_denom[of 1 dp 1 np] assms by auto
  have v1: "frac_val (mk_frac k1 (lcm 1 dp)) = 1 - frac_val (mk_frac np dp)"
    using Sub_val[of "mk_frac 1 1" "mk_frac np dp"] k1 assms by auto
  have nz: "lcm 1 dp \<noteq> 0" using assms by simp
  obtain k2 where k2: "Sub (mk_frac k1 (lcm 1 dp)) (mk_frac nc dc) =
      Ok (mk_frac k2 (lcm (lcm 1 dp) dc))"
    using Sub_denom[OF nz assms(2)] by blast
  have wf: "wf_frac (mk_frac k1 (lcm 1 dp))" "wf_frac (mk_frac nc dc)" using assms by simp_all
  have v2: "frac_val (mk_frac k2 (lcm (lcm 1 dp) dc))
      = frac_val (mk_frac k1 (lcm 1 dp)) - frac_val (mk_frac nc dc)"
    using Sub_val[OF wf] k2 by auto
  have l: "lcm (lcm 1 dp) dc = lcm dp dc" by (simp add: lcm.assoc)
  show ?thesis
    using that[of k2] k1 k2 v1 v2 unfolding calculateForBurningFeeFraction_def one l by simp
qed

lemma split_lcm:
  assumes "dp \<noteq> 0" "dc \<noteq> 0"
  shows "CalculateTransactionFeeSplitRatiosLCM (mk_frac np dp) (mk_frac nc dc) = Ok (lcm dp dc)"
proof -
  obtain k where k: "calculateForBurningFeeFraction (mk_frac np dp) (mk_frac nc dc)
      = Ok (mk_frac k (lcm dp dc))"
    using burning_fraction[OF assms] by metis
  have "lcm dp dc \<noteq> 0" using assms by simp
  with k assms show ?thesis
    by (simp add: CalculateTransactionFeeSplitRatiosLCM_def deref_def big_lcm_val)
qed

lemma calculateSplittableFee_val:
  assumes "dp \<noteq> 0" "dc \<noteq> 0"
  shows "calculateSplittableFee f (mk_frac np dp) (mk_frac nc dc) = Ok (f - f mod lcm dp dc)"
  using split_lcm[OF assms, of np nc] assms by (simp add: calculateSplittableFee_def int_mod_def)

lemma SplitFee_exact:
  assumes r: "valid_ratios (mk_frac np dp) (mk_frac nc dc)"
    and f: "lcm dp dc dvd f" "in_int64 f" "0 \<le> f"
  shows "\<exists>p c b. SplitFee f (mk_frac np dp) (mk_frac nc dc) = Ok (p, c, b)
    \<and> p + c + b = f \<and> 0 \<le> p \<and> 0 \<le> c \<and> 0 \<le> b
    \<and> of_int p = frac_val (mk_frac np dp) * of_int f
    \<and> of_int c = frac_val (mk_frac nc dc) * of_int f"
proof -
  let ?P = "mk_frac np dp" and ?C = "mk_frac nc dc"
  have d: "dp \<noteq> 0" "dc \<noteq> 0" using r by (auto simp: valid_ratios_def)
  have v: "0 \<le> frac_val ?P" "0 \<le> frac_val ?C" "frac_val ?P + frac_val ?C \<le> 1"
    using r by (auto simp: valid_ratios_def)
  have le: "frac_val ?P \<le> 1" "frac_val ?C \<le> 1" using v by linarith+
  obtain k where k: "calculateForBurningFeeFraction ?P ?C = Ok (mk_frac k (lcm dp dc))"
    "frac_val (mk_frac k (lcm dp dc)) = 1 - frac_val ?P - frac_val ?C"
    using burning_fraction[OF d] by metis
  have dvd: "dp dvd f" "dc dvd f" using f(1) by (meson dvd_lcm1 dvd_lcm2 dvd_trans)+
  obtain p where p: "fee_share ?P f = Ok p" "of_int p = frac_val ?P * of_int f" "0 \<le> p" "p \<le> f"
    using fee_share_exact[OF refl d(1) dvd(1) f(2,3) v(1) le(1)] .
  obtain c where c: "fee_share ?C f = Ok c" "of_int c = frac_val ?C * of_int f" "0 \<le> c" "c \<le> f"
    using fee_share_exact[OF refl d(2) dvd(2) f(2,3) v(2) le(2)] .
  have l: "lcm dp dc \<noteq> 0" using d by simp
  have bv: "0 \<le> frac_val (mk_frac k (lcm dp dc))" "frac_val (mk_frac k (lcm dp dc)) \<le> 1"
    unfolding k(2) using v by linarith+
  obtain b where b: "fee_share (mk_frac k (lcm dp dc)) f = Ok b"
    "of_int b = frac_val (mk_frac k (lcm dp dc)) * of_int f" "0 \<le> b" "b \<le> f"
    using fee_share_exact[OF refl l f(1,2,3) bv] .
  have "(of_int (p + c + b) :: rat)
      = (frac_val ?P + frac_val ?C + frac_val (mk_frac k (lcm dp dc))) * of_int f"
    unfolding of_int_add p(2) c(2) b(2) distrib_right ..
  also have "\<dots> = of_int f" unfolding k(2) by simp
  finally have "(of_int (p + c + b) :: rat) = of_int f" .
  then have "p + c + b = f" by (simp only: of_int_eq_iff)
  with p c b k show ?thesis by (auto simp: SplitFee_def)
qed

lemma fee_bounds:
  assumes "wf_frac q" "valid_ratios p c" "in_int64 amount" "0 \<le> maxfee"
    and "0 \<le> frac_val q * of_int amount" "frac_val q * of_int amount < 2 ^ 63"
  shows "\<exists>fee x y z. CalculateFee amount q maxfee p c = Ok fee
    \<and> 0 \<le> fee \<and> of_int fee \<le> frac_val q * of_int amount \<and> (maxfee \<noteq> 0 \<longrightarrow> fee \<le> maxfee)
    \<and> SplitFee fee p c = Ok (x, y, z) \<and> x + y + z = fee \<and> 0 \<le> x \<and> 0 \<le> y \<and> 0 \<le> z
    \<and> of_int x = frac_val p * of_int fee \<and> of_int y = frac_val c * of_int fee"
proof -
  obtain np dp nc dc where pc: "p = mk_frac np dp" "dp \<noteq> 0" "c = mk_frac nc dc" "dc \<noteq> 0"
    using assms(2) by (auto simp: valid_ratios_def elim!: wf_fracE)
  obtain w where w: "MulInt64 q amount = Ok w" "wf_frac w" "reduced w"
    "frac_val w = frac_val q * of_int amount"
    using MulInt64_val[OF assms(1)] by blast
  obtain n d where nd: "w = mk_frac n d" "0 < d" using w(3) by (auto simp: reduced_def)
  have n0: "0 \<le> n" using assms(5) nd unfolding w(4)[symmetric] by (simp add: zero_le_divide_iff)
  define g where "g = n div d"
  have gle: "of_int g \<le> frac_val w"
    using nd unfolding g_def by (simp add: le_divide_eq flip: of_int_mult) (simp add: minus_mod_eq_div_mult[symmetric])
  have g0: "0 \<le> g" using n0 nd by (simp add: g_def pos_imp_zdiv_nonneg_iff)
  have "(of_int g :: rat) < of_int (2 ^ 63)" using gle assms(6) w(4) by simp
  then have g64: "in_int64 g" using g0 by (simp only: of_int_less_iff) (simp add: in_int64_def)
  have gi: "Frac_Int64 w = Ok g"
    using nd n0 g64 by (simp add: Frac_Int64_def BigInt_def big_quo_def quo_nonneg flip: g_def)
  define h where "h = (if maxfee \<noteq> 0 \<and> g > maxfee then maxfee else g)"
  have h: "0 \<le> h" "h \<le> g" "maxfee \<noteq> 0 \<longrightarrow> h \<le> maxfee" using assms(4) g0 by (auto simp: h_def)
  define l where "l = lcm dp dc"
  have l: "0 < l" using pc by (simp add: l_def lcm_pos_int)
  define fee where "fee = h - h mod l"
  have fee: "0 \<le> fee" "fee \<le> h" "l dvd fee"
    using h(1) l zmod_le_nonneg_dividend[OF h(1), of l] by (simp_all add: fee_def)
  have calc: "CalculateFee amount q maxfee p c = Ok fee"
    using w(1) gi assms(3) calculateSplittableFee_val[OF pc(2,4), of h np nc]
    by (simp add: CalculateFee_def Int64_def pc h_def fee_def l_def)
  have "in_int64 fee" using g64 fee h by (auto simp: in_int64_def)
  from SplitFee_exact[OF assms(2)[unfolded pc] fee(3)[unfolded l_def] this fee(1)]
  obtain x y z where xyz: "SplitFee fee p c = Ok (x, y, z)" "x + y + z = fee"
    "0 \<le> x" "0 \<le> y" "0 \<le> z"
    "of_int x = frac_val p * of_int fee" "of_int y = frac_val c * of_int fee"
    unfolding pc by blast
  have "(of_int fee :: rat) \<le> of_int g" using fee(2) h(2) by simp
  then have "of_int fee \<le> frac_val q * of_int amount" using gle unfolding w(4) by linarith
  moreover have "maxfee \<noteq> 0 \<longrightarrow> fee \<le> maxfee" using fee(2) h(3) by linarith
  ultimately show ?thesis using calc fee(1) xyz by (intro exI[of _ fee] exI[of _ x] exI[of _ y] exI[of _ z]) simp
qed



end
