(* ===== verification/Schedule.thy ===== *)
theory Schedule
  imports Prelude
begin

text \<open>
  \<open>x/schedule\<close>: tasks kept in the store under the time they are due at, and performed at the
  beginning of the first block whose time has reached it. The store maps a key, the due time
  in nanoseconds as a big-endian \<open>uint64\<close>, to the bucket of tasks due then; the byte order of
  the keys is the numeric order. The module's parameters lie outside the range of the tasks.

  The keeper's \<open>eventHooks\<close> table is the argument \<open>hooks\<close>. A hook may use every store of the
  application, so contexts are extensions of \<open>sched_ctx\<close>.
\<close>

section \<open>State\<close>

record task =
  task_time :: time
  HandlerName :: string
  Data :: string

record sched_params =
  DayNanos :: int

record sched_ctx = ctx +
  sched_params_store :: "sched_params option"
  sched_store :: "int \<rightharpoonup> task list"

type_synonym 's hook = "string \<Rightarrow> time \<Rightarrow> 's \<Rightarrow> unit res \<times> 's"
type_synonym 's hooks = "string \<rightharpoonup> 's hook"

section \<open>Parameters and periods\<close>

definition Minute :: int where "Minute = 60 * 1000000000"

definition DefaultDayNanos :: int where "DefaultDayNanos = 24 * Hour"

definition DefaultParameters :: sched_params where
  "DefaultParameters = \<lparr>DayNanos = DefaultDayNanos\<rparr>"

definition validateDayNanos :: "int \<Rightarrow> unit res" where
  "validateDayNanos nanos =
     (if nanos = 0 then Err (Text ''value must be positive'')
      else if nanos > DefaultDayNanos then Err (Text ''time quotient is decelarating'')
      else if nanos < Minute then Err (Text ''too fast'')
      else Ok ())"

definition sched_params_Validate :: "sched_params \<Rightarrow> unit res" where
  "sched_params_Validate p = validateDayNanos (DayNanos p)"

definition sched_GetParams :: "'s sched_ctx_scheme \<Rightarrow> sched_params" where
  "sched_GetParams s = (case sched_params_store s of None \<Rightarrow> \<lparr>DayNanos = 0\<rparr> | Some p \<Rightarrow> p)"

definition sched_setParams :: "sched_params \<Rightarrow> 's sched_ctx_scheme \<Rightarrow> 's sched_ctx_scheme" where
  "sched_setParams p s = s\<lparr>sched_params_store := Some p\<rparr>"

definition OneDay :: "'s sched_ctx_scheme \<Rightarrow> duration" where
  "OneDay s = wrap64 (DayNanos (sched_GetParams s))"

definition OneWeek :: "'s sched_ctx_scheme \<Rightarrow> duration" where
  "OneWeek s = wrap64 (7 * OneDay s)"

definition OneMonth :: "'s sched_ctx_scheme \<Rightarrow> duration" where
  "OneMonth s = wrap64 (30 * OneDay s)"

section \<open>Keys\<close>

text \<open>
  \<open>t.Year() < 1970 || t.Year() > 2262\<close> panics; the first excluded instant is 107016 days
  after the epoch. \<open>UnixNano\<close> wraps to \<open>int64\<close> for the last months of 2262, and the
  conversion to \<open>uint64\<close> undoes that.
\<close>

definition year_2263 :: time where
  "year_2263 = 107016 * 24 * Hour"

definition key_ok :: "time \<Rightarrow> bool" where
  "key_ok t \<longleftrightarrow> 0 \<le> t \<and> t < year_2263"

definition Key :: "time \<Rightarrow> int res" where
  "Key t = (if t < 0 \<or> t \<ge> year_2263 then Panic (Text ''time is out of range'')
     else Ok (wrapu64 (wrap64 t)))"

lemma Key_ok: "key_ok t \<Longrightarrow> Key t = Ok t"
proof -
  assume t: "key_ok t"
  have "wrapu64 (wrap64 t) = t mod 2 ^ 64"
    by (simp add: wrapu64_def wrap64_def mod_diff_left_eq)
  also have "\<dots> = t" using t by (simp add: key_ok_def year_2263_def Hour_def)
  finally show ?thesis using t by (simp add: Key_def key_ok_def)
qed

lemma Key_Ok_iff: "Key t = Ok k \<longleftrightarrow> key_ok t \<and> k = t"
proof (cases "key_ok t")
  case False
  then show ?thesis by (auto simp: Key_def key_ok_def)
qed (auto simp: Key_ok)

lemma Key_not_ok: "\<not> key_ok t \<Longrightarrow> Key t = Panic (Text ''time is out of range'')"
  by (auto simp: Key_def key_ok_def)

section \<open>Operations\<close>

definition tasks_between :: "int \<Rightarrow> int \<Rightarrow> 's sched_ctx_scheme \<Rightarrow> task list" where
  "tasks_between since to s =
     concat (map (\<lambda>x. the (sched_store s x))
       (filter (\<lambda>x. since \<le> x \<and> x < to) (store_keys (sched_store s))))"

definition GetTasks :: "time \<Rightarrow> time \<Rightarrow> 's sched_ctx_scheme \<Rightarrow> task list res" where
  "GetTasks since to s =
     bind_res (Key since) (\<lambda>a. bind_res (Key to) (\<lambda>b. Ok (tasks_between a b s)))"

definition bucket :: "'s sched_ctx_scheme \<Rightarrow> int \<Rightarrow> task list" where
  "bucket s x = (case sched_store s x of None \<Rightarrow> [] | Some ts \<Rightarrow> ts)"

definition scheduleTask :: "task \<Rightarrow> 's sched_ctx_scheme \<Rightarrow> unit res \<times> 's sched_ctx_scheme" where
  "scheduleTask tsk s = and_then (lift_res (Key (task_time tsk)) s) (\<lambda>x s.
     (Ok (), s\<lparr>sched_store := (sched_store s)(x \<mapsto> bucket s x @ [tsk])\<rparr>))"

definition ScheduleTask ::
    "time \<Rightarrow> string \<Rightarrow> string \<Rightarrow> 's sched_ctx_scheme \<Rightarrow> unit res \<times> 's sched_ctx_scheme" where
  "ScheduleTask t event d s = scheduleTask \<lparr>task_time = t, HandlerName = event, Data = d\<rparr> s"

definition sched_delete ::
    "time \<Rightarrow> (task \<Rightarrow> bool) \<Rightarrow> 's sched_ctx_scheme \<Rightarrow> unit res \<times> 's sched_ctx_scheme" where
  "sched_delete t predicate s = and_then (lift_res (Key t) s) (\<lambda>x s.
     (case sched_store s x of
        None \<Rightarrow> (Ok (), s)
      | Some items \<Rightarrow>
          let filtered = filter (\<lambda>i. \<not> predicate i) items
          in (Ok (), s\<lparr>sched_store := (sched_store s)
                (x := (if length filtered = 0 then None else Some filtered))\<rparr>)))"

definition DeleteAll ::
    "time \<Rightarrow> string \<Rightarrow> 's sched_ctx_scheme \<Rightarrow> unit res \<times> 's sched_ctx_scheme" where
  "DeleteAll t event s = sched_delete t (\<lambda>i. HandlerName i = event) s"

definition Delete ::
    "time \<Rightarrow> string \<Rightarrow> string \<Rightarrow> 's sched_ctx_scheme \<Rightarrow> unit res \<times> 's sched_ctx_scheme" where
  "Delete t event payload s =
     sched_delete t (\<lambda>i. HandlerName i = event \<and> Data i = payload) s"

text \<open>
  \<open>performSchedule\<close> runs one hook and recovers its panic; the writes made before the panic
  stay. A task without a registered hook is only logged.
\<close>

definition performSchedule ::
    "'s sched_ctx_scheme hooks \<Rightarrow> task \<Rightarrow> 's sched_ctx_scheme \<Rightarrow> 's sched_ctx_scheme" where
  "performSchedule hooks tsk s =
     (case hooks (HandlerName tsk) of
        None \<Rightarrow> s
      | Some hook \<Rightarrow> snd (hook (Data tsk) (task_time tsk) s))"

text \<open>
  \<open>PerformSchedule\<close> iterates over a cache of the store, so it sees the buckets as they were
  when it began, whatever the hooks schedule or delete; the removal of the visited buckets is
  written when all tasks are done.
\<close>

definition PerformSchedule ::
    "'s sched_ctx_scheme hooks \<Rightarrow> 's sched_ctx_scheme \<Rightarrow> unit res \<times> 's sched_ctx_scheme" where
  "PerformSchedule hooks s =
     and_then (lift_res (Key (block_time s + 1)) s) (\<lambda>terminator s.
       let due = filter (\<lambda>x. x < terminator) (store_keys (sched_store s));
           s' = fold (\<lambda>x s'. fold (performSchedule hooks) (the (sched_store s x)) s') due s
       in (Ok (), s'\<lparr>sched_store := sched_store s' |` (- set due)\<rparr>))"

definition sched_BeginBlocker ::
    "'s sched_ctx_scheme hooks \<Rightarrow> 's sched_ctx_scheme \<Rightarrow> unit res \<times> 's sched_ctx_scheme" where
  "sched_BeginBlocker hooks s = PerformSchedule hooks s"

section \<open>Genesis and queries\<close>

record sched_genesis =
  gen_sched_params :: sched_params
  gen_sched_tasks :: "task list"

definition sched_InitGenesis ::
    "sched_params \<Rightarrow> task list \<Rightarrow> 's sched_ctx_scheme \<Rightarrow> unit res \<times> 's sched_ctx_scheme" where
  "sched_InitGenesis params tasks s = for_each tasks scheduleTask (sched_setParams params s)"

definition all_tasks :: "'s sched_ctx_scheme \<Rightarrow> task list" where
  "all_tasks s = concat (map (\<lambda>x. the (sched_store s x)) (store_keys (sched_store s)))"

definition sched_ExportGenesis :: "'s sched_ctx_scheme \<Rightarrow> sched_params \<times> task list" where
  "sched_ExportGenesis s = (sched_GetParams s, all_tasks s)"

fun genesis_tasks_ok :: "task list \<Rightarrow> unit res" where
  "genesis_tasks_ok [] = Ok ()"
| "genesis_tasks_ok (t # ts) =
     (if HandlerName t = [] then Err (Text ''empty handler'') else genesis_tasks_ok ts)"

definition sched_ValidateGenesis :: "sched_genesis \<Rightarrow> unit res" where
  "sched_ValidateGenesis data =
     bind_res (sched_params_Validate (gen_sched_params data))
       (\<lambda>_. genesis_tasks_ok (gen_sched_tasks data))"

text \<open>The query server: a nil request is refused, a panic becomes an internal error.\<close>

definition invalid_argument :: error where "invalid_argument = Registered ''grpc'' 3"
definition internal_error :: error where "internal_error = Registered ''grpc'' 13"

definition sched_query_All :: "unit option \<Rightarrow> 's sched_ctx_scheme \<Rightarrow> task list res" where
  "sched_query_All req s = (if req = None then Err invalid_argument else Ok (all_tasks s))"

definition sched_query_Params :: "unit option \<Rightarrow> 's sched_ctx_scheme \<Rightarrow> sched_params res" where
  "sched_query_Params req s = (if req = None then Err invalid_argument else Ok (sched_GetParams s))"

definition sched_query_Get ::
    "(string \<Rightarrow> time option) \<Rightarrow> (string \<times> string) option \<Rightarrow> 's sched_ctx_scheme \<Rightarrow> task list res" where
  "sched_query_Get Timestamp req s =
     (case req of
        None \<Rightarrow> Err invalid_argument
      | Some (since, to) \<Rightarrow>
          (case (Timestamp since, Timestamp to) of
             (Some a, Some b) \<Rightarrow>
               (case GetTasks a b s of Panic _ \<Rightarrow> Err internal_error | r \<Rightarrow> r)
           | _ \<Rightarrow> Err invalid_argument))"

section \<open>What the store holds\<close>

text \<open>No empty bucket is stored, and every task is in the bucket of its time.\<close>

definition sched_inv :: "'s sched_ctx_scheme \<Rightarrow> bool" where
  "sched_inv s \<longleftrightarrow> finite (dom (sched_store s)) \<and>
     (\<forall>x ts. sched_store s x = Some ts \<longrightarrow> ts \<noteq> [] \<and> key_ok x \<and> (\<forall>t \<in> set ts. task_time t = x))"

lemma bucket_simps [simp]:
  "sched_store s x = None \<Longrightarrow> bucket s x = []"
  "sched_store s x = Some ts \<Longrightarrow> bucket s x = ts"
  by (simp_all add: bucket_def)

lemma the_bucket: "x \<in> dom (sched_store s) \<Longrightarrow> the (sched_store s x) = bucket s x"
  by auto

lemma sched_inv_bucket: "sched_inv s \<Longrightarrow> t \<in> set (bucket s x) \<Longrightarrow> task_time t = x \<and> key_ok x"
  by (cases "sched_store s x") (auto simp: sched_inv_def)

lemma sched_inv_finite [simp]: "sched_inv s \<Longrightarrow> finite (dom (sched_store s))"
  by (simp add: sched_inv_def)

lemma scheduleTask_ok:
  "key_ok (task_time t) \<Longrightarrow> scheduleTask t s =
     (Ok (), s\<lparr>sched_store := (sched_store s)(task_time t \<mapsto> bucket s (task_time t) @ [t])\<rparr>)"
  by (simp add: scheduleTask_def lift_res_def Key_ok)

lemma scheduleTask_panic:
  "\<not> key_ok (task_time t) \<Longrightarrow> scheduleTask t s = (Panic (Text ''time is out of range''), s)"
  by (simp add: scheduleTask_def lift_res_def Key_not_ok)

lemma bucket_upd:
  "bucket (s\<lparr>sched_store := (sched_store s)(x := v)\<rparr>) y =
     (if y = x then (case v of None \<Rightarrow> [] | Some ts \<Rightarrow> ts) else bucket s y)"
  by (simp add: bucket_def)

lemma scheduleTask_inv: "sched_inv s \<Longrightarrow> sched_inv (snd (scheduleTask t s))"
proof (cases "key_ok (task_time t)")
  case True
  assume s: "sched_inv s"
  with True show ?thesis
    using sched_inv_bucket[OF s] by (auto simp: scheduleTask_ok sched_inv_def)
qed (simp add: scheduleTask_panic)

lemma sched_delete_ok:
  assumes "key_ok t"
  shows "\<exists>s'. sched_delete t P s = (Ok (), s')
    \<and> (\<forall>x. bucket s' x = (if x = t then filter (\<lambda>i. \<not> P i) (bucket s t) else bucket s x))
    \<and> s' = s\<lparr>sched_store := sched_store s'\<rparr>"
proof (cases "sched_store s t")
  case None
  then show ?thesis
    using assms by (intro exI[of _ s]) (simp add: sched_delete_def lift_res_def Key_ok)
next
  case (Some items)
  let ?f = "filter (\<lambda>i. \<not> P i) items"
  let ?s = "s\<lparr>sched_store := (sched_store s)(t := (if ?f = [] then None else Some ?f))\<rparr>"
  have "sched_delete t P s = (Ok (), ?s)"
    using Some assms by (simp add: sched_delete_def lift_res_def Key_ok Let_def)
  moreover have "\<forall>x. bucket ?s x = (if x = t then ?f else bucket s x)"
    by (simp add: bucket_upd)
  ultimately show ?thesis using Some by (intro exI[of _ ?s]) simp
qed

lemma sched_delete_inv:
  assumes s: "sched_inv s"
  shows "sched_inv (snd (sched_delete t P s))"
proof (cases "key_ok t")
  case True
  then show ?thesis
  proof (cases "sched_store s t")
    case (Some items)
    let ?f = "filter (\<lambda>i. \<not> P i) items"
    have "sched_delete t P s =
        (Ok (), s\<lparr>sched_store := (sched_store s)(t := (if ?f = [] then None else Some ?f))\<rparr>)"
      using Some True by (simp add: sched_delete_def lift_res_def Key_ok Let_def)
    then show ?thesis using s Some by (auto simp: sched_inv_def)
  qed (use s True in \<open>simp add: sched_delete_def lift_res_def Key_ok\<close>)
qed (use s in \<open>simp add: sched_delete_def lift_res_def Key_not_ok\<close>)

section \<open>Performing the schedule\<close>

lemma fold_concat: "fold (\<lambda>x. fold f (g x)) xs s = fold f (concat (map g xs)) s"
  by (induction xs arbitrary: s) auto

lemma PerformSchedule_eq:
  assumes "sched_inv s" "key_ok (block_time s + 1)"
  defines "ts \<equiv> tasks_between 0 (block_time s + 1) s"
  shows "PerformSchedule hooks s =
    (let s' = fold (performSchedule hooks) ts s in (Ok (), s'\<lparr>sched_store := sched_store s' |`
        (- {x \<in> dom (sched_store s). x \<le> block_time s})\<rparr>))"
proof -
  let ?due = "filter (\<lambda>x. x < block_time s + 1) (store_keys (sched_store s))"
  have f: "filter (\<lambda>x. 0 \<le> x \<and> x < block_time s + 1) (store_keys (sched_store s)) = ?due"
    using assms(1) by (intro filter_cong) (auto simp: sched_inv_def key_ok_def)
  have e: "set ?due = {x \<in> dom (sched_store s). x \<le> block_time s}"
    using assms(1) by auto
  have "PerformSchedule hooks s =
      (let s' = fold (performSchedule hooks) (concat (map (\<lambda>x. the (sched_store s x)) ?due)) s
       in (Ok (), s'\<lparr>sched_store := sched_store s' |` (- set ?due)\<rparr>))"
    using assms(2) by (simp add: PerformSchedule_def lift_res_def Key_ok Let_def fold_concat)
  then show ?thesis unfolding ts_def tasks_between_def f e .
qed

lemma count_concat_buckets:
  assumes "distinct xs" "\<And>x. x \<in> set xs \<Longrightarrow> \<forall>u \<in> set (g x). task_time u = x"
  shows "count (mset (concat (map g xs))) u =
    (if task_time u \<in> set xs then count (mset (g (task_time u))) u else 0)"
  using assms
proof (induction xs)
  case (Cons x xs)
  have "count (mset (g x)) u = 0" if "task_time u \<noteq> x"
    using Cons.prems(2)[of x] that by (auto simp: count_eq_zero_iff)
  with Cons show ?case by (auto simp: count_eq_zero_iff)
qed simp

lemma sorted_concat_buckets:
  assumes "sorted_wrt (<) xs" "\<And>x. x \<in> set xs \<Longrightarrow> \<forall>u \<in> set (g x). task_time u = x"
  shows "sorted (map task_time (concat (map g xs)))"
  using assms
proof (induction xs)
  case (Cons x xs)
  have "sorted (map task_time (g x))"
    using Cons.prems(2)[of x] by (intro sorted_iff_nth_mono[THEN iffD2]) auto
  moreover have "\<forall>u \<in> set (g x). \<forall>w \<in> set (concat (map g xs)). task_time u \<le> task_time w"
    using Cons.prems by (fastforce dest: order.strict_implies_order)
  ultimately show ?case using Cons by (auto simp: sorted_append)
qed simp

lemma tasks_between_char:
  assumes s: "sched_inv s"
  shows "sorted (map task_time (tasks_between a b s))"
    and "count (mset (tasks_between a b s)) u =
      (if a \<le> task_time u \<and> task_time u < b then count (mset (bucket s (task_time u))) u else 0)"
proof -
  define xs where "xs = filter (\<lambda>x. a \<le> x \<and> x < b) (store_keys (sched_store s))"
  have xs: "distinct xs" "sorted_wrt (<) xs"
    "set xs = {x \<in> dom (sched_store s). a \<le> x \<and> x < b}"
    using s by (auto simp: xs_def intro: sorted_wrt_filter)
  have t: "tasks_between a b s = concat (map (bucket s) xs)"
    unfolding tasks_between_def xs_def
    by (rule arg_cong[where f = concat], rule map_cong) (use s in \<open>auto simp: the_bucket\<close>)
  have g: "\<And>x. x \<in> set xs \<Longrightarrow> \<forall>u \<in> set (bucket s x). task_time u = x"
    using sched_inv_bucket[OF s] by blast
  show "sorted (map task_time (tasks_between a b s))"
    unfolding t by (rule sorted_concat_buckets[OF xs(2) g])
  show "count (mset (tasks_between a b s)) u =
      (if a \<le> task_time u \<and> task_time u < b then count (mset (bucket s (task_time u))) u else 0)"
  proof (cases "task_time u \<in> set xs")
    case True
    then show ?thesis
      using count_concat_buckets[OF xs(1) g, where u = u] xs(3) by (simp add: t del: mset_concat)
  next
    case False
    then have "(a \<le> task_time u \<and> task_time u < b) \<longrightarrow> bucket s (task_time u) = []"
      unfolding xs(3) by (auto simp: domIff)
    then show ?thesis
      using count_concat_buckets[OF xs(1) g, where u = u] False by (simp add: t del: mset_concat)
  qed
qed

lemma GetTasks_ok: "key_ok a \<Longrightarrow> key_ok b \<Longrightarrow> GetTasks a b s = Ok (tasks_between a b s)"
  by (simp add: GetTasks_def Key_ok)

text \<open>
  What a client of the scheduler relies on, for its own operations and for the hooks it
  registers: an invariant its hooks keep is kept by a whole run of the schedule, if it does
  not depend on the tasks stored.
\<close>

locale hook_invariant =
  fixes hooks :: "'s sched_ctx_scheme hooks" and I :: "'s sched_ctx_scheme \<Rightarrow> bool"
  assumes hook_keeps: "hooks n = Some h \<Longrightarrow> I s \<Longrightarrow> I (snd (h d t s))"
    and ignores_tasks: "I s \<Longrightarrow> I (s\<lparr>sched_store := (sched_store s) |` A\<rparr>)"
begin

lemma performSchedule_keeps: "I s \<Longrightarrow> I (performSchedule hooks t s)"
  using hook_keeps by (auto simp: performSchedule_def split: option.splits)

lemma fold_keeps: "I s \<Longrightarrow> I (fold (performSchedule hooks) ts s)"
  by (induction ts arbitrary: s) (auto intro: performSchedule_keeps)

lemma PerformSchedule_keeps: "I s \<Longrightarrow> I (snd (PerformSchedule hooks s))"
proof -
  assume I: "I s"
  have f: "I (fold (\<lambda>x. fold (performSchedule hooks) (g x)) xs s)" for g :: "int \<Rightarrow> task list" and xs
    unfolding fold_concat by (rule fold_keeps[OF I])
  show ?thesis
    by (cases "Key (block_time s + 1)")
      (auto simp: PerformSchedule_def lift_res_def Let_def intro!: ignores_tasks f I)
qed

end

text \<open>C9. The scheduler performs exactly the tasks that are due. At a block time in range the
  call returns without error whatever the tasks do (a panic of a task is recovered and its
  writes stay); the tasks run one after another are, with multiplicity, those stored with a
  time not after the block time, in increasing order of time, which is what GetTasks lists;
  afterwards no bucket that was due is left, and every other bucket is as the tasks left it.\<close>

theorem perform_schedule_runs_due:
  assumes "sched_inv s" "key_ok (block_time s + 1)"
  shows "\<exists>ts s'. GetTasks 0 (block_time s + 1) s = Ok ts
    \<and> sorted (map task_time ts)
    \<and> (\<forall>u. count (mset ts) u =
         (if task_time u \<le> block_time s then count (mset (bucket s (task_time u))) u else 0))
    \<and> PerformSchedule hooks s = (Ok (), s')
    \<and> sched_store s' = (\<lambda>x. if x \<in> dom (sched_store s) \<and> x \<le> block_time s then None
         else sched_store (fold (performSchedule hooks) ts s) x)
    \<and> s' = (fold (performSchedule hooks) ts s)\<lparr>sched_store := sched_store s'\<rparr>"
proof -
  let ?ts = "tasks_between 0 (block_time s + 1) s"
  let ?f = "fold (performSchedule hooks) ?ts s"
  let ?s = "?f\<lparr>sched_store := sched_store ?f |` (- {x \<in> dom (sched_store s). x \<le> block_time s})\<rparr>"
  have g: "GetTasks 0 (block_time s + 1) s = Ok ?ts"
    using assms(2) by (intro GetTasks_ok) (auto simp: key_ok_def year_2263_def Hour_def)
  have c: "count (mset ?ts) u =
      (if task_time u \<le> block_time s then count (mset (bucket s (task_time u))) u else 0)" for u
  proof (cases "0 \<le> task_time u")
    case False
    then have "u \<notin> set (bucket s (task_time u))"
      using sched_inv_bucket[OF assms(1), of u "task_time u"] by (auto simp: key_ok_def)
    with False show ?thesis
      unfolding tasks_between_char(2)[OF assms(1)] by (simp add: count_eq_zero_iff)
  qed (unfold tasks_between_char(2)[OF assms(1)], simp)
  have st: "sched_store ?s = (\<lambda>x. if x \<in> dom (sched_store s) \<and> x \<le> block_time s then None
         else sched_store ?f x)"
    by (rule ext) (simp add: restrict_map_def)
  have p: "PerformSchedule hooks s = (Ok (), ?s)"
    using PerformSchedule_eq[OF assms, of hooks] by (simp add: Let_def)
  show ?thesis
    by (intro exI[of _ ?ts] exI[of _ ?s] conjI allI)
      ((rule g tasks_between_char(1)[OF assms(1)] c p st)+, simp)
qed

text \<open>A context with one task due at 5 and one at 9, and a hook that panics after a write.\<close>

definition ex_sched :: "sched_ctx" where
  "ex_sched = \<lparr>block_time = 7, block_height = 1, events = [], sched_params_store = None,
     sched_store = [5 \<mapsto> [\<lparr>task_time = 5, HandlerName = ''a'', Data = ''x''\<rparr>],
                    9 \<mapsto> [\<lparr>task_time = 9, HandlerName = ''a'', Data = ''y''\<rparr>]]\<rparr>"

definition ex_hooks :: "sched_ctx hooks" where
  "ex_hooks = [''a'' \<mapsto> \<lambda>d t s. (Panic nil_deref, emit (d, [AInt t]) s)]"

lemma ex_sched_inv: "sched_inv ex_sched" "key_ok (block_time ex_sched + 1)"
  by (auto simp: sched_inv_def ex_sched_def key_ok_def year_2263_def Hour_def)

theorem perform_schedule_runs_due_witness:
  "\<exists>ts s'. GetTasks 0 8 ex_sched = Ok ts \<and> PerformSchedule ex_hooks ex_sched = (Ok (), s')
     \<and> sched_store s' 5 = None"
  using perform_schedule_runs_due[OF ex_sched_inv, of ex_hooks]
  by (auto simp: ex_sched_def)

definition new_task :: "time \<Rightarrow> string \<Rightarrow> string \<Rightarrow> task" where
  "new_task t ev d = \<lparr>task_time = t, HandlerName = ev, Data = d\<rparr>"

lemma new_task_simps [simp]:
  "task_time (new_task t ev d) = t" "HandlerName (new_task t ev d) = ev" "Data (new_task t ev d) = d"
  by (simp_all add: new_task_def)

lemma ScheduleTask_ok:
  "key_ok t \<Longrightarrow> ScheduleTask t ev d s =
     (Ok (), s\<lparr>sched_store := (sched_store s)(t \<mapsto> bucket s t @ [new_task t ev d])\<rparr>)"
  by (simp add: ScheduleTask_def scheduleTask_ok new_task_def)

text \<open>Scheduling and deleting are exact. ScheduleTask appends one task to the bucket of
  its time and touches no other; Delete then removes every task of that time with the same
  handler and payload and nothing else, so scheduling a task that was not there and deleting
  it gives the same tasks back; a time before 1970 or after 2262 makes both panic with the
  store unchanged.\<close>

theorem schedule_delete_exact:
  "if key_ok t
    then \<exists>s1 s2. ScheduleTask t ev d s = (Ok (), s1) \<and> Delete t ev d s1 = (Ok (), s2)
      \<and> (\<forall>x. bucket s1 x = (if x = t then bucket s t @ [new_task t ev d] else bucket s x))
      \<and> (\<forall>x. bucket s2 x = (if x = t
            then filter (\<lambda>i. \<not> (HandlerName i = ev \<and> Data i = d)) (bucket s t) else bucket s x))
    else ScheduleTask t ev d s = (Panic (Text ''time is out of range''), s)
      \<and> Delete t ev d s = (Panic (Text ''time is out of range''), s)"
proof (cases "key_ok t")
  case True
  let ?s1 = "s\<lparr>sched_store := (sched_store s)(t \<mapsto> bucket s t @ [new_task t ev d])\<rparr>"
  have s1: "ScheduleTask t ev d s = (Ok (), ?s1)"
    using ScheduleTask_ok[OF True] .
  obtain s2 where s2: "Delete t ev d ?s1 = (Ok (), s2)"
    "\<forall>x. bucket s2 x = (if x = t then filter (\<lambda>i. \<not> (HandlerName i = ev \<and> Data i = d)) (bucket ?s1 t)
       else bucket ?s1 x)"
    using sched_delete_ok[OF True, of "\<lambda>i. HandlerName i = ev \<and> Data i = d" ?s1]
    unfolding Delete_def by blast
  have b: "\<forall>x. bucket ?s1 x = (if x = t then bucket s t @ [new_task t ev d] else bucket s x)"
    by (simp add: bucket_upd)
  have "\<forall>x. bucket s2 x = (if x = t
      then filter (\<lambda>i. \<not> (HandlerName i = ev \<and> Data i = d)) (bucket s t) else bucket s x)"
    using s2(2) by (simp add: bucket_upd)
  with s1 s2(1) b show ?thesis
    unfolding if_P[OF True] by (intro exI conjI) assumption+
qed (simp add: ScheduleTask_def scheduleTask_panic Delete_def sched_delete_def lift_res_def Key_not_ok)

section \<open>Genesis round trip\<close>

lemma in_concat_map: "x \<in> set xs \<Longrightarrow> t \<in> set (g x) \<Longrightarrow> t \<in> set (concat (map g xs))"
  by auto

lemma for_each_schedule:
  assumes "\<forall>t \<in> set ts. key_ok (task_time t)"
  shows "\<exists>m. for_each ts scheduleTask s = (Ok (), s\<lparr>sched_store := m\<rparr>)
    \<and> (\<forall>x. m x = (if x \<in> task_time ` set ts
         then Some (bucket s x @ filter (\<lambda>t. task_time t = x) ts) else sched_store s x))"
  using assms
proof (induction ts arbitrary: s)
  case (Cons t ts)
  let ?s = "s\<lparr>sched_store := (sched_store s)(task_time t \<mapsto> bucket s (task_time t) @ [t])\<rparr>"
  obtain m where m: "for_each ts scheduleTask ?s = (Ok (), ?s\<lparr>sched_store := m\<rparr>)"
    "\<forall>x. m x = (if x \<in> task_time ` set ts
       then Some (bucket ?s x @ filter (\<lambda>t. task_time t = x) ts) else sched_store ?s x)"
    using Cons.IH[of ?s] Cons.prems by auto
  have "for_each (t # ts) scheduleTask s = (Ok (), s\<lparr>sched_store := m\<rparr>)"
    using m(1) Cons.prems by (simp add: scheduleTask_ok)
  moreover have "m x = (if x \<in> task_time ` set (t # ts)
      then Some (bucket s x @ filter (\<lambda>u. task_time u = x) (t # ts)) else sched_store s x)" for x
  proof (cases "x = task_time t")
    case True
    have "filter (\<lambda>u. task_time u = x) ts = []" if "x \<notin> task_time ` set ts"
      using that by (auto simp: filter_empty_conv)
    with True show ?thesis using m(2)[rule_format, of x] by (simp add: bucket_upd)
  next
    case False
    with m(2)[rule_format, of x] show ?thesis by (simp add: bucket_upd)
  qed
  ultimately show ?case by blast
next
  case Nil
  show ?case by (intro exI[of _ "sched_store s"]) simp
qed

text \<open>Export and import of the schedule are inverse: from a store that satisfies the
  invariant and holds the parameters, the exported genesis imported into a context without
  tasks gives exactly the same parameters and the same buckets, in the same order.\<close>

theorem schedule_genesis_roundtrip:
  assumes "sched_inv s" "sched_params_store s = Some p" "sched_store s0 = Map.empty"
  shows "sched_InitGenesis (fst (sched_ExportGenesis s)) (snd (sched_ExportGenesis s)) s0 =
    (Ok (), s0\<lparr>sched_params_store := Some p, sched_store := sched_store s\<rparr>)"
proof -
  let ?ts = "all_tasks s" and ?s0 = "s0\<lparr>sched_params_store := Some p\<rparr>"
  have ts: "?ts = concat (map (bucket s) (store_keys (sched_store s)))"
    unfolding all_tasks_def
    by (rule arg_cong[where f = concat], rule map_cong) (use assms(1) in \<open>auto simp: the_bucket\<close>)
  have tt: "\<forall>t \<in> set ?ts. key_ok (task_time t)"
    using sched_inv_bucket[OF assms(1)] by (auto simp: ts)
  have g: "filter (\<lambda>t. task_time t = x) (concat (map (bucket s) xs)) =
      (if x \<in> set xs then bucket s x else [])" if "distinct xs" for x xs
    using that
  proof (induction xs)
    case (Cons y xs)
    have "filter (\<lambda>t. task_time t = x) (bucket s y) = (if x = y then bucket s y else [])"
      using sched_inv_bucket[OF assms(1)] by (auto simp: filter_id_conv filter_empty_conv)
    with Cons show ?case by auto
  qed simp
  obtain m where m: "for_each ?ts scheduleTask ?s0 = (Ok (), ?s0\<lparr>sched_store := m\<rparr>)"
    "\<And>x. m x = (if x \<in> task_time ` set ?ts
         then Some (bucket ?s0 x @ filter (\<lambda>t. task_time t = x) ?ts) else sched_store ?s0 x)"
    using for_each_schedule[OF tt, of ?s0] by auto
  have "m x = sched_store s x" for x
  proof (cases "sched_store s x")
    case None
    then have "x \<notin> task_time ` set ?ts"
      using sched_inv_bucket[OF assms(1)] by (auto simp: ts)
    with None show ?thesis using assms(3) by (simp add: m(2))
  next
    case (Some b)
    have bi: "b \<noteq> []" "\<forall>t \<in> set b. task_time t = x"
      using assms(1) Some unfolding sched_inv_def by blast+
    define t where "t = hd b"
    have t: "t \<in> set b" "task_time t = x" using bi by (auto simp: t_def)
    have x: "x \<in> set (store_keys (sched_store s))"
      unfolding set_store_keys[OF sched_inv_finite[OF assms(1)]] using Some by (rule domI)
    have b: "bucket s x = b" using Some by simp
    have "t \<in> set ?ts"
      unfolding ts by (rule in_concat_map[OF x]) (simp only: b t(1))
    with t(2) have "x \<in> task_time ` set ?ts" by blast
    moreover have "filter (\<lambda>t. task_time t = x) ?ts = b"
      unfolding ts g[OF distinct_store_keys] using x b by (simp only: if_True)
    ultimately show ?thesis using Some assms(3) by (simp add: m(2) bucket_def)
  qed
  then have "m = sched_store s" by (rule ext)
  with m(1) show ?thesis
    using assms(2) by (simp add: sched_InitGenesis_def sched_ExportGenesis_def
        sched_GetParams_def sched_setParams_def)
qed

theorem schedule_genesis_roundtrip_witness:
  "sched_InitGenesis (fst (sched_ExportGenesis (sched_setParams DefaultParameters ex_sched)))
     (snd (sched_ExportGenesis (sched_setParams DefaultParameters ex_sched)))
     (ex_sched\<lparr>sched_store := Map.empty\<rparr>) =
   (Ok (), sched_setParams DefaultParameters ex_sched)"
proof -
  let ?s = "sched_setParams DefaultParameters ex_sched"
  have "sched_inv ?s" "sched_params_store ?s = Some DefaultParameters"
    "sched_store (ex_sched\<lparr>sched_store := Map.empty\<rparr>) = Map.empty"
    using ex_sched_inv(1) by (simp_all add: sched_setParams_def sched_inv_def)
  from schedule_genesis_roundtrip[OF this] show ?thesis
    by (simp add: sched_setParams_def)
qed

end
