(* ===== verification/Bank.thy ===== *)
theory Bank
  imports Fee Schedule
begin

text \<open>
  \<open>x/bank\<close>: balances, supply, parameters and the messages Send and Burn. The stores of the
  module extend the context of the scheduler. The keeper \<open>'s bank_keeper\<close> carries what the
  Go keeper is built with: the coin and address library, the module accounts known to the
  auth keeper with their permissions, the addresses that may not receive, and the registered
  \<open>SetCoins\<close> hooks. Go iterates over the map of hooks in an unspecified order; the list is
  the order of one such iteration, and no result below depends on it.

  The auth module is not code of the repository; of its state the model keeps the set of
  existing accounts.
\<close>

section \<open>State\<close>

record split_ratios =
  ForProposer :: fraction
  ForCompany :: fraction

record bank_params =
  MinSend :: int
  DustDelegation :: int
  TransactionFee :: fraction
  MaxTransactionFee :: int
  TransactionFeeSplitRatios :: split_ratios
  CompanyAccount :: string
  BlockedSenders :: "string list"

text \<open>The SDK's denomination metadata: its key, and the rest carried unread.\<close>

record metadata =
  md_base :: denom
  md_rest :: string

record bank_ctx = sched_ctx +
  accounts :: "addr set"
  balances :: "addr \<rightharpoonup> coins"
  total_supply :: "coins option"
  bank_params_store :: "bank_params option"
  denom_metadata :: "denom \<rightharpoonup> metadata"

type_synonym 's bank_op = "'s bank_ctx_scheme \<Rightarrow> unit res \<times> 's bank_ctx_scheme"

record 's bank_keeper =
  bk_sdk :: sdk
  bk_module_addr :: "string \<rightharpoonup> addr"
  bk_perm :: "string \<Rightarrow> string \<Rightarrow> bool"
  bk_blockedAddrs :: "string \<Rightarrow> bool"
  bk_setCoinHooks :: "(string \<times> (addr \<Rightarrow> 's bank_op)) list"

definition bank_ErrInputOutputMismatch :: error where
  "bank_ErrInputOutputMismatch = Registered ''artrbank'' 3"

section \<open>Parameters\<close>

definition zero_bank_params :: bank_params where
  "zero_bank_params = \<lparr>MinSend = 0, DustDelegation = 0, TransactionFee = null_frac,
     MaxTransactionFee = 0,
     TransactionFeeSplitRatios = \<lparr>ForProposer = null_frac, ForCompany = null_frac\<rparr>,
     CompanyAccount = [], BlockedSenders = []\<rparr>"

definition bank_GetParams :: "'s bank_ctx_scheme \<Rightarrow> bank_params" where
  "bank_GetParams s = (case bank_params_store s of None \<Rightarrow> zero_bank_params | Some p \<Rightarrow> p)"

definition bank_SetParams :: "bank_params \<Rightarrow> 's bank_ctx_scheme \<Rightarrow> 's bank_ctx_scheme" where
  "bank_SetParams p s = s\<lparr>bank_params_store := Some p\<rparr>"

definition GetMinSend :: "'s bank_ctx_scheme \<Rightarrow> int" where
  "GetMinSend s = MinSend (bank_GetParams s)"

definition SetMinSend :: "int \<Rightarrow> 's bank_ctx_scheme \<Rightarrow> 's bank_ctx_scheme" where
  "SetMinSend minSend s = bank_SetParams ((bank_GetParams s)\<lparr>MinSend := minSend\<rparr>) s"

definition BlockedSenderAddr :: "'s bank_keeper \<Rightarrow> addr \<Rightarrow> 's bank_ctx_scheme \<Rightarrow> bool" where
  "BlockedSenderAddr k a s =
     list_ex (\<lambda>v. v = AccString (bk_sdk k) a) (BlockedSenders (bank_GetParams s))"

definition BlockedAddr :: "'s bank_keeper \<Rightarrow> addr \<Rightarrow> bool" where
  "BlockedAddr k a = bk_blockedAddrs k (AccString (bk_sdk k) a)"

definition AddBlockedSender :: "'s bank_keeper \<Rightarrow> addr \<Rightarrow> 's bank_ctx_scheme \<Rightarrow> 's bank_ctx_scheme" where
  "AddBlockedSender k blockedSender s =
     (let params = bank_GetParams s
      in bank_SetParams (params\<lparr>BlockedSenders :=
           fst (AddStringOntoEnd (BlockedSenders params) (AccString (bk_sdk k) blockedSender))\<rparr>) s)"

definition RemoveBlockedSender :: "'s bank_keeper \<Rightarrow> addr \<Rightarrow> 's bank_ctx_scheme \<Rightarrow> 's bank_ctx_scheme" where
  "RemoveBlockedSender k blockedSender s =
     (let params = bank_GetParams s
      in bank_SetParams (params\<lparr>BlockedSenders :=
           fst (RemoveStringFast (BlockedSenders params) (AccString (bk_sdk k) blockedSender))\<rparr>) s)"

fun GetBlockedSenders_loop :: "sdk \<Rightarrow> string list \<Rightarrow> addr list res" where
  "GetBlockedSenders_loop L [] = Ok []"
| "GetBlockedSenders_loop L (b # bs) =
     (case AccAddressFromBech32 L b of
        None \<Rightarrow> Panic (Text ''invalid address'')
      | Some a \<Rightarrow> bind_res (GetBlockedSenders_loop L bs) (\<lambda>as. Ok (a # as)))"

definition GetBlockedSenders :: "sdk \<Rightarrow> bank_params \<Rightarrow> addr list res" where
  "GetBlockedSenders L p = GetBlockedSenders_loop L (BlockedSenders p)"

definition SetBlockedSenders :: "sdk \<Rightarrow> addr list \<Rightarrow> bank_params \<Rightarrow> bank_params" where
  "SetBlockedSenders L as p = p\<lparr>BlockedSenders := map (AccString L) as\<rparr>"

definition DefaultMinSend :: int where "DefaultMinSend = 1000"
definition DefaultDustDelegation :: int where "DefaultDustDelegation = 0"
definition DefaultMaxTransactionFee :: int where "DefaultMaxTransactionFee = 10000000"

definition bank_NewParams ::
    "sdk \<Rightarrow> int \<Rightarrow> int \<Rightarrow> fraction \<Rightarrow> int \<Rightarrow> split_ratios \<Rightarrow> string \<Rightarrow> addr list \<Rightarrow> bank_params" where
  "bank_NewParams L minSend dust fee maxFee feeSplitRatios companyAccount blockedSenders =
     SetBlockedSenders L blockedSenders
       \<lparr>MinSend = minSend, DustDelegation = dust, TransactionFee = fee, MaxTransactionFee = maxFee,
        TransactionFeeSplitRatios = feeSplitRatios, CompanyAccount = companyAccount,
        BlockedSenders = []\<rparr>"

definition bank_DefaultParams :: "sdk \<Rightarrow> bank_params" where
  "bank_DefaultParams L = SetBlockedSenders L []
     \<lparr>MinSend = DefaultMinSend, DustDelegation = DefaultDustDelegation, TransactionFee = Permille 3,
      MaxTransactionFee = DefaultMaxTransactionFee,
      TransactionFeeSplitRatios = \<lparr>ForProposer = FractionInt 1, ForCompany = FractionZero\<rparr>,
      CompanyAccount = [], BlockedSenders = []\<rparr>"

subsection \<open>Validation\<close>

definition validateDustDelegation :: "int \<Rightarrow> unit res" where
  "validateDustDelegation dt =
     (if dt < 0 then Err (Text ''DustDelegation must be non-negative'') else Ok ())"

definition validateTransactionFee :: "fraction \<Rightarrow> unit res" where
  "validateTransactionFee dt = bind_res (IsNegative dt) (\<lambda>neg.
     if neg then Err (Text ''TransactionFee must be non-negative'') else Ok ())"

definition validateMaxTransactionFee :: "int \<Rightarrow> unit res" where
  "validateMaxTransactionFee dt =
     (if dt < 0 then Err (Text ''MaxTransactionFee must be non-negative'') else Ok ())"

definition validateTransactionFeeSplitRatios :: "split_ratios \<Rightarrow> unit res" where
  "validateTransactionFeeSplitRatios dt =
     bind_res (IsNegative (ForProposer dt)) (\<lambda>np.
     if np then Err (Text ''TransactionFeeSplitRatios.ForProposer must be non-negative'') else
     bind_res (IsNegative (ForCompany dt)) (\<lambda>nc.
     if nc then Err (Text ''TransactionFeeSplitRatios.ForCompany must be non-negative'') else
     bind_res (bind_res (Add (ForProposer dt) (ForCompany dt)) (\<lambda>x. GT x (FractionInt 1))) (\<lambda>gt.
     if gt then Err (Text ''TransactionFeeSplitRatios sums must be less than or equal 1'') else
     bind_res (CalculateTransactionFeeSplitRatiosLCM (ForProposer dt) (ForCompany dt)) (\<lambda>l.
     if l > TransactionFeeSplitRatiosMaxLcm
     then Err (Text ''TransactionFeeSplitRatios LCM must be less than or equal 100'')
     else Ok ()))))"

definition validateCompanyAccount :: "sdk \<Rightarrow> string \<Rightarrow> unit res" where
  "validateCompanyAccount L dt =
     (if AccAddressFromBech32 L dt = None then Err (Text ''cannot parse account address'') else Ok ())"

fun validateAccounts :: "sdk \<Rightarrow> string list \<Rightarrow> unit res" where
  "validateAccounts L [] = Ok ()"
| "validateAccounts L (b # bs) =
     (if AccAddressFromBech32 L b = None then Err (Text ''invalid acc address'')
      else validateAccounts L bs)"

definition bank_params_Validate :: "sdk \<Rightarrow> bank_params \<Rightarrow> unit res" where
  "bank_params_Validate L p =
     bind_res (validateDustDelegation (DustDelegation p)) (\<lambda>_.
     bind_res (validateTransactionFee (TransactionFee p)) (\<lambda>_.
     bind_res (validateMaxTransactionFee (MaxTransactionFee p)) (\<lambda>_.
     bind_res (validateTransactionFeeSplitRatios (TransactionFeeSplitRatios p)) (\<lambda>_.
     bind_res (validateCompanyAccount L (CompanyAccount p)) (\<lambda>_.
     validateAccounts L (BlockedSenders p))))))"

section \<open>Balances\<close>

definition GetBalance :: "'s bank_keeper \<Rightarrow> addr \<Rightarrow> 's bank_ctx_scheme \<Rightarrow> coins res" where
  "GetBalance k a s =
     (case balances s a of None \<Rightarrow> Ok [] | Some c \<Rightarrow> NewCoins (bk_sdk k) c)"

definition SpendableCoins :: "'s bank_keeper \<Rightarrow> addr \<Rightarrow> 's bank_ctx_scheme \<Rightarrow> coins res" where
  "SpendableCoins k a s = GetBalance k a s"

definition LockedCoins :: "'s bank_keeper \<Rightarrow> addr \<Rightarrow> 's bank_ctx_scheme \<Rightarrow> coins res" where
  "LockedCoins k a s = NewCoins (bk_sdk k) []"

definition HasBalance :: "'s bank_keeper \<Rightarrow> addr \<Rightarrow> coin \<Rightarrow> 's bank_ctx_scheme \<Rightarrow> bool res" where
  "HasBalance k a amt s = bind_res (GetBalance k a s) (\<lambda>b. Ok (IsAllGTE (bk_sdk k) b [amt]))"

definition ValidateBalance :: "'s bank_keeper \<Rightarrow> addr \<Rightarrow> 's bank_ctx_scheme \<Rightarrow> unit res" where
  "ValidateBalance k a s =
     (if a \<notin> accounts s then Err ErrUnknownAddress
      else bind_res (GetBalance k a s) (\<lambda>b.
        if \<not> IsValid (bk_sdk k) b then Err (Text ''account balance is invalid'') else Ok ()))"

text \<open>A store key shorter than an address panics, a longer one is cut.\<close>

definition AddrLen :: nat where "AddrLen = 20"

definition AddressFromBalancesStore :: "string \<Rightarrow> addr res" where
  "AddressFromBalancesStore key =
     (if length key < AddrLen then Panic (Text ''unexpected account address key length'')
      else Ok (take AddrLen key))"

text \<open>The iteration calls \<open>cb\<close> with a state of the caller until it returns true.\<close>

fun iterate_balances :: "(addr \<Rightarrow> coins \<Rightarrow> 'c \<Rightarrow> bool \<times> 'c) \<Rightarrow> (addr \<times> coins) list \<Rightarrow> 'c \<Rightarrow> 'c res" where
  "iterate_balances cb [] c = Ok c"
| "iterate_balances cb ((key, b) # xs) c =
     bind_res (AddressFromBalancesStore key) (\<lambda>a.
       if fst (cb a b c) then Ok (snd (cb a b c)) else iterate_balances cb xs (snd (cb a b c)))"

definition IterateAllBalances ::
    "(addr \<Rightarrow> coins \<Rightarrow> 'c \<Rightarrow> bool \<times> 'c) \<Rightarrow> 'c \<Rightarrow> 's bank_ctx_scheme \<Rightarrow> 'c res" where
  "IterateAllBalances cb c s = iterate_balances cb (store_items (balances s)) c"

type_synonym bank_balance = "string \<times> coins"

definition GetAccountsBalances :: "'s bank_keeper \<Rightarrow> 's bank_ctx_scheme \<Rightarrow> bank_balance list res" where
  "GetAccountsBalances k s =
     IterateAllBalances (\<lambda>a b acc. (False, acc @ [(AccString (bk_sdk k) a, b)])) [] s"

definition NonnegativeBalanceInvariant :: "'s bank_keeper \<Rightarrow> 's bank_ctx_scheme \<Rightarrow> bool res" where
  "NonnegativeBalanceInvariant k s = bind_res
     (IterateAllBalances (\<lambda>a b n. (False, if IsAnyNegative (bk_sdk k) b then n + 1 else n)) (0::int) s)
     (\<lambda>count. Ok (count \<noteq> 0))"

definition fireSetCoins :: "'s bank_keeper \<Rightarrow> addr \<Rightarrow> 's bank_op" where
  "fireSetCoins k a s = for_each (bk_setCoinHooks k) (\<lambda>p. snd p a) s"

definition SetBalance :: "'s bank_keeper \<Rightarrow> addr \<Rightarrow> coins \<Rightarrow> 's bank_op" where
  "SetBalance k a balance s =
     (if \<not> IsValid (bk_sdk k) balance then (Err ErrInvalidCoins, s)
      else fireSetCoins k a
        (s\<lparr>balances := (balances s)(a := (if length balance = 0 then None else Some balance))\<rparr>))"

definition SubtractCoins :: "'s bank_keeper \<Rightarrow> addr \<Rightarrow> coins \<Rightarrow> 's bank_op" where
  "SubtractCoins k a amt s =
     (if \<not> IsValid (bk_sdk k) amt then (Err ErrInvalidCoins, s)
      else
        and_then (lift_res (GetBalance k a s) s) (\<lambda>balance s.
        and_then (lift_res (SpendableCoins k a s) s) (\<lambda>spendable s.
        if SafeSubNeg (bk_sdk k) spendable amt then (Err ErrInsufficientFunds, s)
        else
          and_then (lift_res (SubC (bk_sdk k) balance amt) s) (\<lambda>diff s.
          and_then (lift_res (NewCoins (bk_sdk k) diff) s) (\<lambda>rest s.
          SetBalance k a rest s)))))"

definition AddCoins :: "'s bank_keeper \<Rightarrow> addr \<Rightarrow> coins \<Rightarrow> 's bank_op" where
  "AddCoins k a amt s =
     (if \<not> IsValid (bk_sdk k) amt then (Err ErrInvalidCoins, s)
      else
        and_then (lift_res (GetBalance k a s) s) (\<lambda>balance s.
        and_then (lift_res (NewCoins (bk_sdk k) (AddC (bk_sdk k) balance amt)) s) (\<lambda>tot s.
        SetBalance k a tot s)))"

definition EventTransfer :: "'s bank_keeper \<Rightarrow> addr \<Rightarrow> addr \<Rightarrow> coins \<Rightarrow> event" where
  "EventTransfer k fromAddr toAddr amt =
     (''artery.bank.v1beta1.EventTransfer'',
      [AStr (AccString (bk_sdk k) fromAddr), AStr (AccString (bk_sdk k) toAddr),
       AStrs (map fst amt), AInts (map snd amt)])"

definition SendCoins :: "'s bank_keeper \<Rightarrow> addr \<Rightarrow> addr \<Rightarrow> coins \<Rightarrow> 's bank_op" where
  "SendCoins k fromAddr toAddr amt s =
     and_then (SubtractCoins k fromAddr amt (emit (EventTransfer k fromAddr toAddr amt) s))
       (\<lambda>_ s. AddCoins k toAddr amt s)"

subsection \<open>Inputs and outputs\<close>

record transfer_part =
  Address :: addr
  Coins :: coins

definition part_ValidateBasic :: "sdk \<Rightarrow> transfer_part \<Rightarrow> unit res" where
  "part_ValidateBasic L p =
     (if length (Address p) = 0 then Err ErrInvalidAddress
      else if \<not> IsValid L (Coins p) then Err ErrInvalidCoins
      else if \<not> IsAllPositive L (Coins p) then Err ErrInvalidCoins
      else Ok ())"

fun parts_total :: "sdk \<Rightarrow> transfer_part list \<Rightarrow> coins \<Rightarrow> coins res" where
  "parts_total L [] tot = Ok tot"
| "parts_total L (p # ps) tot =
     bind_res (part_ValidateBasic L p) (\<lambda>_. parts_total L ps (AddC L tot (Coins p)))"

definition ValidateInputsOutputs :: "sdk \<Rightarrow> transfer_part list \<Rightarrow> transfer_part list \<Rightarrow> unit res" where
  "ValidateInputsOutputs L inputs outputs =
     bind_res (parts_total L inputs []) (\<lambda>totalIn.
     bind_res (parts_total L outputs []) (\<lambda>totalOut.
     if \<not> EqualCoins L totalIn totalOut then Err bank_ErrInputOutputMismatch else Ok ()))"

definition InputOutputCoins ::
    "'s bank_keeper \<Rightarrow> transfer_part list \<Rightarrow> transfer_part list \<Rightarrow> 's bank_op" where
  "InputOutputCoins k inputs outputs s =
     and_then (lift_res (ValidateInputsOutputs (bk_sdk k) inputs outputs) s) (\<lambda>_ s.
     and_then (for_each inputs (\<lambda>i. SubtractCoins k (Address i) (Coins i)) s) (\<lambda>_ s.
     for_each outputs (\<lambda>out. AddCoins k (Address out) (Coins out)) s))"

section \<open>Supply and module accounts\<close>

definition GetSupply :: "'s bank_ctx_scheme \<Rightarrow> coins res" where
  "GetSupply s = (case total_supply s of
     None \<Rightarrow> Panic (Text ''stored supply should not have been nil'') | Some t \<Rightarrow> Ok t)"

definition SetSupply :: "coins \<Rightarrow> 's bank_ctx_scheme \<Rightarrow> 's bank_ctx_scheme" where
  "SetSupply t s = s\<lparr>total_supply := Some t\<rparr>"

definition Inflate :: "sdk \<Rightarrow> coins \<Rightarrow> coins \<Rightarrow> coins" where
  "Inflate L amount tot = AddC L tot amount"

definition Deflate :: "sdk \<Rightarrow> coins \<Rightarrow> coins \<Rightarrow> coins res" where
  "Deflate L amount tot = SubC L tot amount"

definition supply_ValidateBasic :: "sdk \<Rightarrow> coins \<Rightarrow> unit res" where
  "supply_ValidateBasic L tot =
     (if \<not> IsValid L tot then Err (Text ''invalid total supply'') else Ok ())"

text \<open>
  \<open>GetModuleAddress\<close> only looks up the permissions of the module accounts;
  \<open>GetModuleAccount\<close> also creates the account in the auth store when it is missing.
\<close>

definition module_addr :: "'s bank_keeper \<Rightarrow> string \<Rightarrow> addr res" where
  "module_addr k name =
     (case bk_module_addr k name of None \<Rightarrow> Panic ErrUnknownAddress | Some a \<Rightarrow> Ok a)"

definition module_account :: "'s bank_keeper \<Rightarrow> string \<Rightarrow> 's bank_ctx_scheme \<Rightarrow> addr res \<times> 's bank_ctx_scheme" where
  "module_account k name s =
     (case bk_module_addr k name of
        None \<Rightarrow> (Panic ErrUnknownAddress, s)
      | Some a \<Rightarrow> (Ok a, s\<lparr>accounts := insert a (accounts s)\<rparr>))"

definition SendCoinsFromModuleToAccount :: "'s bank_keeper \<Rightarrow> string \<Rightarrow> addr \<Rightarrow> coins \<Rightarrow> 's bank_op" where
  "SendCoinsFromModuleToAccount k senderModule recipientAddr amt s =
     and_then (lift_res (module_addr k senderModule) s) (\<lambda>senderAddr s.
     SendCoins k senderAddr recipientAddr amt s)"

definition SendCoinsFromModuleToModule :: "'s bank_keeper \<Rightarrow> string \<Rightarrow> string \<Rightarrow> coins \<Rightarrow> 's bank_op" where
  "SendCoinsFromModuleToModule k senderModule recipientModule amt s =
     and_then (lift_res (module_addr k senderModule) s) (\<lambda>senderAddr s.
     and_then (module_account k recipientModule s) (\<lambda>recipientAddr s.
     SendCoins k senderAddr recipientAddr amt s))"

definition SendCoinsFromAccountToModule :: "'s bank_keeper \<Rightarrow> addr \<Rightarrow> string \<Rightarrow> coins \<Rightarrow> 's bank_op" where
  "SendCoinsFromAccountToModule k senderAddr recipientModule amt s =
     and_then (module_account k recipientModule s) (\<lambda>recipientAddr s.
     SendCoins k senderAddr recipientAddr amt s)"

definition MintCoins :: "'s bank_keeper \<Rightarrow> string \<Rightarrow> coins \<Rightarrow> 's bank_op" where
  "MintCoins k moduleName amt s =
     and_then (module_account k moduleName s) (\<lambda>acc s.
     if \<not> bk_perm k moduleName ''minter'' then (Panic ErrUnauthorized, s)
     else
       and_then (AddCoins k acc amt s) (\<lambda>_ s.
       and_then (lift_res (GetSupply s) s) (\<lambda>tot s.
       (Ok (), SetSupply (Inflate (bk_sdk k) amt tot) s))))"

definition BurnAccCoins :: "'s bank_keeper \<Rightarrow> addr \<Rightarrow> coins \<Rightarrow> 's bank_op" where
  "BurnAccCoins k acc amt s =
     and_then (SubtractCoins k acc amt s) (\<lambda>_ s.
     and_then (lift_res (GetSupply s) s) (\<lambda>tot s.
     and_then (lift_res (Deflate (bk_sdk k) amt tot) s) (\<lambda>tot' s.
     (Ok (), SetSupply tot' s))))"

text \<open>\<open>if err := k.BurnAccCoins(...); err != nil { return nil }\<close>\<close>

fun swallow_err :: "unit res \<times> 's \<Rightarrow> unit res \<times> 's" where
  "swallow_err (Err e, s) = (Ok (), s)"
| "swallow_err r = r"

definition BurnCoins :: "'s bank_keeper \<Rightarrow> string \<Rightarrow> coins \<Rightarrow> 's bank_op" where
  "BurnCoins k moduleName amt s =
     and_then (module_account k moduleName s) (\<lambda>acc s.
     if \<not> bk_perm k moduleName ''burner'' then (Panic ErrUnauthorized, s)
     else swallow_err (BurnAccCoins k acc amt s))"

section \<open>Fees\<close>

definition SplittableFeeCollectorName :: string where
  "SplittableFeeCollectorName = ''splittable_fee_collector''"

text \<open>The loop of \<open>PayTxFee\<close> over the coins of the amount.\<close>

fun tx_fee :: "'s bank_keeper \<Rightarrow> bank_params \<Rightarrow> coins \<Rightarrow> coins \<Rightarrow> coins res" where
  "tx_fee k p [] fee = Ok fee"
| "tx_fee k p (c # amt) fee =
     (if \<not> IsSendable (fst c) then Panic (Text ''not sendable'')
      else
        bind_res (CalculateFee (snd c) (TransactionFee p) (MaxTransactionFee p)
          (ForProposer (TransactionFeeSplitRatios p)) (ForCompany (TransactionFeeSplitRatios p))) (\<lambda>f.
        bind_res (NewCoin (bk_sdk k) (fst c) f) (\<lambda>coin.
        tx_fee k p amt (AddC (bk_sdk k) fee [coin]))))"

definition PayTxFee ::
    "'s bank_keeper \<Rightarrow> addr \<Rightarrow> coins \<Rightarrow> 's bank_ctx_scheme \<Rightarrow> coins res \<times> 's bank_ctx_scheme" where
  "PayTxFee k senderAddr amt s =
     and_then (lift_res (tx_fee k (bank_GetParams s) amt []) s) (\<lambda>fee s.
     if IsZeroCoins (bk_sdk k) fee then (Ok fee, s)
     else
       and_then (SendCoinsFromAccountToModule k senderAddr SplittableFeeCollectorName fee s)
         (\<lambda>_ s. (Ok fee, s)))"

section \<open>Messages\<close>

definition TagTx :: "string \<Rightarrow> string \<Rightarrow> 's ctx_scheme \<Rightarrow> 's ctx_scheme" where
  "TagTx modul action s = emit (''message'', [AStr modul, AStr action]) s"

record MsgSend =
  send_FromAddress :: string
  send_ToAddress :: string
  send_Amount :: coins

record MsgBurn =
  burn_Account :: string
  burn_Amount :: int

definition MsgSend_ValidateBasic :: "sdk \<Rightarrow> MsgSend \<Rightarrow> unit res" where
  "MsgSend_ValidateBasic L msg =
     (if length (send_FromAddress msg) = 0 then Err ErrInvalidAddress
      else if AccAddressFromBech32 L (send_FromAddress msg) = None then Err ErrInvalidAddress
      else if length (send_ToAddress msg) = 0 then Err ErrInvalidAddress
      else if AccAddressFromBech32 L (send_ToAddress msg) = None then Err ErrInvalidAddress
      else if \<not> IsValid L (send_Amount msg) then Err ErrInvalidCoins
      else if \<not> IsAllPositive L (send_Amount msg) then Err ErrInvalidCoins
      else Ok ())"

definition MsgBurn_ValidateBasic :: "sdk \<Rightarrow> MsgBurn \<Rightarrow> unit res" where
  "MsgBurn_ValidateBasic L msg =
     (if AccAddressFromBech32 L (burn_Account msg) = None then Err ErrInvalidAddress
      else if burn_Amount msg \<le> 0 then Err ErrInvalidCoins
      else Ok ())"

definition Send :: "'s bank_keeper \<Rightarrow> MsgSend \<Rightarrow> 's bank_op" where
  "Send k msg s =
     (case AccAddressFromBech32 (bk_sdk k) (send_ToAddress msg) of
        None \<Rightarrow> (Err ErrInvalidAddress, s)
      | Some toAddress \<Rightarrow>
      if toAddress \<notin> accounts s then (Err ErrInvalidAddress, s)
      else if BlockedAddr k toAddress then (Err ErrUnauthorized, s)
      else if list_ex (\<lambda>c. \<not> IsSendable (fst c)) (send_Amount msg) then (Err ErrInvalidCoins, s)
      else
        and_then (lift_res (one_coin (bk_sdk k) ConfigMainDenom (GetMinSend s)) s) (\<lambda>minCoins s.
        if IsAnyGT (bk_sdk k) minCoins (send_Amount msg) then (Err ErrInvalidCoins, s)
        else
          (case AccAddressFromBech32 (bk_sdk k) (send_FromAddress msg) of
             None \<Rightarrow> (Err ErrInvalidAddress, s)
           | Some fromAddress \<Rightarrow>
           if BlockedSenderAddr k fromAddress s then (Err ErrUnauthorized, s)
           else
             and_then (PayTxFee k fromAddress (send_Amount msg) s) (\<lambda>_ s.
             and_then (SendCoins k fromAddress toAddress (send_Amount msg) s) (\<lambda>_ s.
             (Ok (), TagTx ''artrbank'' ''artery.bank.v1beta1.MsgSend'' s))))))"

definition Burn :: "'s bank_keeper \<Rightarrow> MsgBurn \<Rightarrow> 's bank_op" where
  "Burn k msg s =
     (case AccAddressFromBech32 (bk_sdk k) (burn_Account msg) of
        None \<Rightarrow> (Err ErrInvalidAddress, s)
      | Some account \<Rightarrow>
        and_then (lift_res (one_coin (bk_sdk k) ConfigMainDenom (wrap64 (burn_Amount msg))) s) (\<lambda>c s.
        and_then (BurnAccCoins k account c s) (\<lambda>_ s.
        (Ok (), TagTx ''artrbank'' ''artery.bank.v1beta1.MsgBurn'' s))))"

section \<open>Genesis, metadata and queries\<close>

record bank_genesis =
  gen_bank_params :: bank_params
  gen_balances :: "bank_balance list"
  gen_supply :: coins

definition SanitizeGenesisBalances :: "sdk \<Rightarrow> bank_balance list \<Rightarrow> bank_balance list" where
  "SanitizeGenesisBalances L bs =
     map (\<lambda>(a, c). (a, sort_key fst c))
       (sort_key (\<lambda>p. case AccAddressFromBech32 L (fst p) of None \<Rightarrow> [] | Some a \<Rightarrow> a) bs)"

fun init_balances ::
    "'s bank_keeper \<Rightarrow> bank_balance list \<Rightarrow> coins \<Rightarrow> 's bank_ctx_scheme \<Rightarrow> coins res \<times> 's bank_ctx_scheme" where
  "init_balances k [] totalSupply s = (Ok totalSupply, s)"
| "init_balances k (b # bs) totalSupply s =
     (case AccAddressFromBech32 (bk_sdk k) (fst b) of
        None \<Rightarrow> (Panic (Text ''invalid address''), s)
      | Some a \<Rightarrow> and_then (must (SetBalance k a (snd b) s)) (\<lambda>_ s.
          init_balances k bs (AddC (bk_sdk k) totalSupply (snd b)) s))"

definition bank_InitGenesis :: "'s bank_keeper \<Rightarrow> bank_genesis \<Rightarrow> 's bank_op" where
  "bank_InitGenesis k genState s =
     and_then (init_balances k (SanitizeGenesisBalances (bk_sdk k) (gen_balances genState)) []
         (bank_SetParams (gen_bank_params genState) s)) (\<lambda>totalSupply s.
       (Ok (), SetSupply (if length (gen_supply genState) = 0 then totalSupply else gen_supply genState) s))"

definition bank_ExportGenesis :: "'s bank_keeper \<Rightarrow> 's bank_ctx_scheme \<Rightarrow> bank_genesis res" where
  "bank_ExportGenesis k s =
     bind_res (GetAccountsBalances k s) (\<lambda>bs.
     bind_res (GetSupply s) (\<lambda>t.
     Ok \<lparr>gen_bank_params = bank_GetParams s, gen_balances = bs, gen_supply = t\<rparr>))"

definition GetDenomMetaData :: "denom \<Rightarrow> 's bank_ctx_scheme \<Rightarrow> metadata option" where
  "GetDenomMetaData d s = denom_metadata s d"

definition HasDenomMetaData :: "denom \<Rightarrow> 's bank_ctx_scheme \<Rightarrow> bool" where
  "HasDenomMetaData d s \<longleftrightarrow> denom_metadata s d \<noteq> None"

definition SetDenomMetaData :: "metadata \<Rightarrow> 's bank_ctx_scheme \<Rightarrow> 's bank_ctx_scheme" where
  "SetDenomMetaData md s = s\<lparr>denom_metadata := (denom_metadata s)(md_base md \<mapsto> md)\<rparr>"

fun iterate_metadata :: "(metadata \<Rightarrow> 'c \<Rightarrow> bool \<times> 'c) \<Rightarrow> metadata list \<Rightarrow> 'c \<Rightarrow> 'c" where
  "iterate_metadata cb [] c = c"
| "iterate_metadata cb (md # mds) c =
     (if fst (cb md c) then snd (cb md c) else iterate_metadata cb mds (snd (cb md c)))"

definition IterateAllDenomMetaData ::
    "(metadata \<Rightarrow> 'c \<Rightarrow> bool \<times> 'c) \<Rightarrow> 'c \<Rightarrow> 's bank_ctx_scheme \<Rightarrow> 'c" where
  "IterateAllDenomMetaData cb c s =
     iterate_metadata cb (map snd (store_items (denom_metadata s))) c"

definition bank_query_Params :: "unit option \<Rightarrow> 's bank_ctx_scheme \<Rightarrow> bank_params res" where
  "bank_query_Params req s = (if req = None then Err invalid_argument else Ok (bank_GetParams s))"

definition bank_query_Supply :: "unit option \<Rightarrow> 's bank_ctx_scheme \<Rightarrow> coins res" where
  "bank_query_Supply req s = (if req = None then Err invalid_argument else GetSupply s)"

definition bank_query_Balance :: "'s bank_keeper \<Rightarrow> string option \<Rightarrow> 's bank_ctx_scheme \<Rightarrow> coins res" where
  "bank_query_Balance k req s =
     (case req of
        None \<Rightarrow> Err invalid_argument
      | Some a \<Rightarrow> (case AccAddressFromBech32 (bk_sdk k) a of
          None \<Rightarrow> Err invalid_argument | Some w \<Rightarrow> GetBalance k w s))"

section \<open>Amounts\<close>

text \<open>
  What the stores hold is the amount \<open>bal s a d\<close> of each denomination on each account; the
  stored lists are valid and non-empty.
\<close>

definition coins_of :: "'s bank_ctx_scheme \<Rightarrow> addr \<Rightarrow> coins" where
  "coins_of s a = (case balances s a of None \<Rightarrow> [] | Some c \<Rightarrow> c)"

definition bal :: "sdk \<Rightarrow> 's bank_ctx_scheme \<Rightarrow> addr \<Rightarrow> denom \<Rightarrow> int" where
  "bal L s a d = AmountOf L (coins_of s a) d"

definition bank_inv :: "sdk \<Rightarrow> 's bank_ctx_scheme \<Rightarrow> bool" where
  "bank_inv L s \<longleftrightarrow> finite (dom (balances s)) \<and>
     (\<forall>a c. balances s a = Some c \<longrightarrow> IsValid L c \<and> c \<noteq> [])"

definition circulating :: "sdk \<Rightarrow> 's bank_ctx_scheme \<Rightarrow> denom \<Rightarrow> int" where
  "circulating L s d = (\<Sum>a \<in> dom (balances s). bal L s a d)"

text \<open>\<open>shifted L s s' D\<close>: from \<open>s\<close> to \<open>s'\<close> the amounts changed by exactly \<open>D\<close>.\<close>

definition shifted ::
    "sdk \<Rightarrow> 's bank_ctx_scheme \<Rightarrow> 's bank_ctx_scheme \<Rightarrow> (addr \<Rightarrow> denom \<Rightarrow> int) \<Rightarrow> bool" where
  "shifted L s s' D \<longleftrightarrow> bank_inv L s' \<and> total_supply s' = total_supply s
     \<and> (\<forall>a d. bal L s' a d = bal L s a d + D a d)"

definition at_addr :: "addr \<Rightarrow> (denom \<Rightarrow> int) \<Rightarrow> addr \<Rightarrow> denom \<Rightarrow> int" where
  "at_addr a f = (\<lambda>x d. if x = a then f d else 0)"

lemma shifted_trans:
  "shifted L s s1 D \<Longrightarrow> shifted L s1 s2 E \<Longrightarrow> shifted L s s2 (\<lambda>a d. D a d + E a d)"
  by (simp add: shifted_def)

lemma shifted_cong: "shifted L s s' D \<Longrightarrow> (\<And>a d. D a d = E a d) \<Longrightarrow> shifted L s s' E"
  by (simp add: shifted_def)

text \<open>Only balances and supply matter to these notions.\<close>

lemma bank_frame:
  assumes "balances s' = balances s"
  shows "coins_of s' = coins_of s" "bal L s' = bal L s" "bank_inv L s' = bank_inv L s"
    "circulating L s' = circulating L s"
  using assms by (simp_all add: coins_of_def[abs_def] bal_def[abs_def] bank_inv_def circulating_def[abs_def])

lemma shifted_frame:
  "balances t = balances s \<Longrightarrow> total_supply t = total_supply s \<Longrightarrow>
   balances t' = balances s' \<Longrightarrow> total_supply t' = total_supply s' \<Longrightarrow>
   shifted L t t' D = shifted L s s' D"
  unfolding shifted_def using bank_frame[of t s] bank_frame[of t' s'] by metis

lemma emit_bank [simp]:
  "balances (emit ev s) = balances s" "total_supply (emit ev s) = total_supply s"
  "bank_params_store (emit ev s) = bank_params_store s" "accounts (emit ev s) = accounts s"
  by (simp_all add: emit_def)

section \<open>What the keeper promises\<close>

text \<open>
  The bank relies on the laws of coins and on its hooks leaving balances and supply alone;
  under these every operation below has its effect on the amounts whatever the hooks answer.
\<close>

locale bank_laws =
  fixes k :: "'s bank_keeper"
  assumes sdk: "sdk_laws (bk_sdk k)"
    and hooks_frame: "(n, h) \<in> set (bk_setCoinHooks k) \<Longrightarrow>
      balances (snd (h a s)) = balances s \<and> total_supply (snd (h a s)) = total_supply s"

sublocale bank_laws \<subseteq> coins: sdk_laws "bk_sdk k"
  by (rule sdk)

context bank_laws
begin

lemma fire_frame:
  "balances (snd (fireSetCoins k a s)) = balances s"
  "total_supply (snd (fireSetCoins k a s)) = total_supply s"
proof -
  have "balances (snd (fireSetCoins k a s)) = balances s
      \<and> total_supply (snd (fireSetCoins k a s)) = total_supply s"
    unfolding fireSetCoins_def
    by (rule keeps_for_each[where P = "\<lambda>s'. balances s' = balances s \<and> total_supply s' = total_supply s"])
      (use hooks_frame in \<open>auto\<close>)
  then show "balances (snd (fireSetCoins k a s)) = balances s"
    "total_supply (snd (fireSetCoins k a s)) = total_supply s" by auto
qed

lemma coins_of_valid: "bank_inv (bk_sdk k) s \<Longrightarrow> IsValid (bk_sdk k) (coins_of s a)"
  by (cases "balances s a") (auto simp: bank_inv_def coins_of_def coins.valid_nil)

lemma GetBalance_ok: "bank_inv (bk_sdk k) s \<Longrightarrow> GetBalance k a s = Ok (coins_of s a)"
  by (cases "balances s a")
    (auto simp: bank_inv_def coins_of_def GetBalance_def coins.new_coins_valid)

lemma bal_nonneg: "bank_inv (bk_sdk k) s \<Longrightarrow> 0 \<le> bal (bk_sdk k) s a d"
  by (simp add: bal_def coins.amount_nonneg coins_of_valid)

lemma SetBalance_shift:
  assumes s: "bank_inv (bk_sdk k) s" and c: "IsValid (bk_sdk k) c"
  shows "shifted (bk_sdk k) s (snd (SetBalance k a c s))
    (at_addr a (\<lambda>d. AmountOf (bk_sdk k) c d - bal (bk_sdk k) s a d))"
proof -
  let ?s = "s\<lparr>balances := (balances s)(a := (if length c = 0 then None else Some c))\<rparr>"
  have i: "bank_inv (bk_sdk k) ?s" using s c by (auto simp: bank_inv_def)
  have b: "coins_of ?s x = (if x = a then c else coins_of s x)" for x
    by (auto simp: coins_of_def)
  have "snd (SetBalance k a c s) = snd (fireSetCoins k a ?s)"
    using c by (simp add: SetBalance_def)
  then have f: "balances (snd (SetBalance k a c s)) = balances ?s"
    "total_supply (snd (SetBalance k a c s)) = total_supply s"
    using fire_frame[of a ?s] by auto
  show ?thesis
    unfolding shifted_def bank_frame(2,3)[OF f(1)] f(2)
    using i b by (simp add: at_addr_def bal_def)
qed

lemma SubtractCoins_spec:
  assumes s: "bank_inv (bk_sdk k) s" and amt: "IsValid (bk_sdk k) amt"
  shows "(\<exists>d. bal (bk_sdk k) s a d < AmountOf (bk_sdk k) amt d) \<Longrightarrow>
      SubtractCoins k a amt s = (Err ErrInsufficientFunds, s)"
    and "(\<And>d. AmountOf (bk_sdk k) amt d \<le> bal (bk_sdk k) s a d) \<Longrightarrow>
      \<exists>c. SubtractCoins k a amt s = SetBalance k a c s \<and> IsValid (bk_sdk k) c
        \<and> (\<forall>d. AmountOf (bk_sdk k) c d = bal (bk_sdk k) s a d - AmountOf (bk_sdk k) amt d)"
proof -
  note v = coins_of_valid[OF s, of a]
  note neg = coins.safe_sub[OF v amt]
  {
    assume "\<exists>d. bal (bk_sdk k) s a d < AmountOf (bk_sdk k) amt d"
    then show "SubtractCoins k a amt s = (Err ErrInsufficientFunds, s)"
      using amt neg GetBalance_ok[OF s]
      by (simp add: SubtractCoins_def SpendableCoins_def lift_res_def bal_def)
  next
    assume le: "\<And>d. AmountOf (bk_sdk k) amt d \<le> bal (bk_sdk k) s a d"
    then obtain c where c: "SubC (bk_sdk k) (coins_of s a) amt = Ok c" "IsValid (bk_sdk k) c"
      "\<forall>d. AmountOf (bk_sdk k) c d = bal (bk_sdk k) s a d - AmountOf (bk_sdk k) amt d"
      using coins.sub_ok[OF v amt] unfolding bal_def by blast
    have "\<not> SafeSubNeg (bk_sdk k) (coins_of s a) amt"
      unfolding neg using le by (auto simp: bal_def not_less)
    then have "SubtractCoins k a amt s = SetBalance k a c s"
      using amt c GetBalance_ok[OF s] coins.new_coins_valid[OF c(2)]
      by (simp add: SubtractCoins_def SpendableCoins_def lift_res_def)
    with c show "\<exists>c. SubtractCoins k a amt s = SetBalance k a c s \<and> IsValid (bk_sdk k) c
        \<and> (\<forall>d. AmountOf (bk_sdk k) c d = bal (bk_sdk k) s a d - AmountOf (bk_sdk k) amt d)" by blast
  }
qed

lemma SubtractCoins_shift:
  assumes "bank_inv (bk_sdk k) s" "IsValid (bk_sdk k) amt"
    and "\<And>d. AmountOf (bk_sdk k) amt d \<le> bal (bk_sdk k) s a d"
  shows "shifted (bk_sdk k) s (snd (SubtractCoins k a amt s))
    (at_addr a (\<lambda>d. - AmountOf (bk_sdk k) amt d))"
proof -
  obtain c where c: "SubtractCoins k a amt s = SetBalance k a c s" "IsValid (bk_sdk k) c"
    "\<forall>d. AmountOf (bk_sdk k) c d = bal (bk_sdk k) s a d - AmountOf (bk_sdk k) amt d"
    using SubtractCoins_spec(2)[OF assms] by blast
  show ?thesis
    using SetBalance_shift[OF assms(1) c(2), of a] c(1,3) by (simp add: at_addr_def shifted_def)
qed

lemma AddCoins_spec:
  assumes s: "bank_inv (bk_sdk k) s" and amt: "IsValid (bk_sdk k) amt"
  shows "\<exists>c. AddCoins k a amt s = SetBalance k a c s \<and> IsValid (bk_sdk k) c
    \<and> (\<forall>d. AmountOf (bk_sdk k) c d = bal (bk_sdk k) s a d + AmountOf (bk_sdk k) amt d)"
proof -
  note v = coins_of_valid[OF s, of a]
  have "AddCoins k a amt s = SetBalance k a (AddC (bk_sdk k) (coins_of s a) amt) s"
    using amt GetBalance_ok[OF s] coins.new_coins_valid[OF coins.add_valid[OF v amt]]
    by (simp add: AddCoins_def lift_res_def)
  then show ?thesis using coins.add_valid[OF v amt] coins.add_amount[OF v amt] by (auto simp: bal_def)
qed

lemma AddCoins_shift:
  assumes "bank_inv (bk_sdk k) s" "IsValid (bk_sdk k) amt"
  shows "shifted (bk_sdk k) s (snd (AddCoins k a amt s)) (at_addr a (AmountOf (bk_sdk k) amt))"
proof -
  obtain c where c: "AddCoins k a amt s = SetBalance k a c s" "IsValid (bk_sdk k) c"
    "\<forall>d. AmountOf (bk_sdk k) c d = bal (bk_sdk k) s a d + AmountOf (bk_sdk k) amt d"
    using AddCoins_spec[OF assms] by blast
  show ?thesis
    using SetBalance_shift[OF assms(1) c(2), of a] c(1,3) by (simp add: at_addr_def shifted_def)
qed

lemma SubtractCoins_Ok:
  assumes "bank_inv (bk_sdk k) s" "SubtractCoins k a amt s = (Ok (), s')"
  shows "IsValid (bk_sdk k) amt" "\<And>d. AmountOf (bk_sdk k) amt d \<le> bal (bk_sdk k) s a d"
    "shifted (bk_sdk k) s s' (at_addr a (\<lambda>d. - AmountOf (bk_sdk k) amt d))"
proof -
  show v: "IsValid (bk_sdk k) amt" using assms(2) by (auto simp: SubtractCoins_def split: if_splits)
  show le: "\<And>d. AmountOf (bk_sdk k) amt d \<le> bal (bk_sdk k) s a d"
    using SubtractCoins_spec(1)[OF assms(1) v, of a] assms(2) by (force simp: not_le)
  show "shifted (bk_sdk k) s s' (at_addr a (\<lambda>d. - AmountOf (bk_sdk k) amt d))"
    using SubtractCoins_shift[OF assms(1) v le] assms(2) by simp
qed

lemma AddCoins_Ok:
  assumes "bank_inv (bk_sdk k) s" "AddCoins k a amt s = (Ok (), s')"
  shows "shifted (bk_sdk k) s s' (at_addr a (AmountOf (bk_sdk k) amt))"
proof -
  have v: "IsValid (bk_sdk k) amt" using assms(2) by (auto simp: AddCoins_def split: if_splits)
  show ?thesis using AddCoins_shift[OF assms(1) v, of a] assms(2) by simp
qed

lemma SendCoins_Ok:
  assumes s: "bank_inv (bk_sdk k) s" and ok: "SendCoins k f t amt s = (Ok (), s')"
  shows "IsValid (bk_sdk k) amt" "\<And>d. AmountOf (bk_sdk k) amt d \<le> bal (bk_sdk k) s f d"
    "shifted (bk_sdk k) s s' (\<lambda>a d. at_addr t (AmountOf (bk_sdk k) amt) a d
        - at_addr f (AmountOf (bk_sdk k) amt) a d)"
proof -
  let ?e = "emit (EventTransfer k f t amt) s"
  have e: "bank_inv (bk_sdk k) ?e" using s bank_frame(3)[of ?e s] by simp
  obtain s1 where s1: "SubtractCoins k f amt ?e = (Ok (), s1)" "AddCoins k t amt s1 = (Ok (), s')"
    using ok unfolding SendCoins_def and_then_Ok_iff by auto
  note sub = SubtractCoins_Ok[OF e s1(1)]
  show "IsValid (bk_sdk k) amt" by (rule sub(1))
  have be: "bal (bk_sdk k) ?e = bal (bk_sdk k) s" by (rule bank_frame(2)) simp
  show "\<And>d. AmountOf (bk_sdk k) amt d \<le> bal (bk_sdk k) s f d"
    using sub(2) unfolding be .
  have "bank_inv (bk_sdk k) s1" using sub(3) by (simp add: shifted_def)
  note add = AddCoins_Ok[OF this s1(2)]
  have "shifted (bk_sdk k) ?e s' (\<lambda>a d. at_addr t (AmountOf (bk_sdk k) amt) a d
        - at_addr f (AmountOf (bk_sdk k) amt) a d)"
    by (rule shifted_cong[OF shifted_trans[OF sub(3) add]]) (simp add: at_addr_def)
  then show "shifted (bk_sdk k) s s' (\<lambda>a d. at_addr t (AmountOf (bk_sdk k) amt) a d
        - at_addr f (AmountOf (bk_sdk k) amt) a d)"
    using shifted_frame[of ?e s s' s'] by simp
qed

end

section \<open>Conservation\<close>

context bank_laws
begin

lemma circulating_over:
  assumes "finite A" "dom (balances s) \<subseteq> A"
  shows "circulating (bk_sdk k) s d = (\<Sum>a \<in> A. bal (bk_sdk k) s a d)"
  unfolding circulating_def
proof (rule sum.mono_neutral_left[OF assms])
  show "\<forall>a \<in> A - dom (balances s). bal (bk_sdk k) s a d = 0"
    by (auto simp: bal_def coins_of_def coins.amount_nil domIff)
qed

lemma circulating_shift:
  assumes "bank_inv (bk_sdk k) s" "shifted (bk_sdk k) s s' D"
    and "finite F" "\<And>a. a \<notin> F \<Longrightarrow> D a d = 0"
  shows "circulating (bk_sdk k) s' d = circulating (bk_sdk k) s d + (\<Sum>a \<in> F. D a d)"
proof -
  let ?A = "F \<union> dom (balances s) \<union> dom (balances s')"
  have f: "finite ?A" using assms(1-3) by (simp add: bank_inv_def shifted_def)
  have "circulating (bk_sdk k) s' d = (\<Sum>a \<in> ?A. bal (bk_sdk k) s' a d)"
    by (rule circulating_over[OF f]) auto
  also have "\<dots> = (\<Sum>a \<in> ?A. bal (bk_sdk k) s a d) + (\<Sum>a \<in> ?A. D a d)"
    using assms(2) by (simp add: shifted_def sum.distrib)
  also have "(\<Sum>a \<in> ?A. bal (bk_sdk k) s a d) = circulating (bk_sdk k) s d"
    by (rule circulating_over[OF f, symmetric]) auto
  also have "(\<Sum>a \<in> ?A. D a d) = (\<Sum>a \<in> F. D a d)"
    by (rule sum.mono_neutral_right[OF f]) (use assms(4) in auto)
  finally show ?thesis .
qed

lemma circulating_at:
  assumes "bank_inv (bk_sdk k) s" "shifted (bk_sdk k) s s' (at_addr a g)"
  shows "circulating (bk_sdk k) s' d = circulating (bk_sdk k) s d + g d"
  using circulating_shift[OF assms, of "{a}"] by (simp add: at_addr_def)

lemma SendCoins_circulating:
  assumes "bank_inv (bk_sdk k) s" "SendCoins k f t amt s = (Ok (), s')"
  shows "circulating (bk_sdk k) s' d = circulating (bk_sdk k) s d"
  using circulating_shift[OF assms(1) SendCoins_Ok(3)[OF assms], of "{f, t}" d]
  by (cases "f = t") (auto simp: at_addr_def)

text \<open>What a whole list of subtractions or additions does to the amount in circulation.\<close>

lemma for_each_circulating:
  assumes step: "\<And>p s s'. bank_inv (bk_sdk k) s \<Longrightarrow> f p s = (Ok (), s') \<Longrightarrow>
      shifted (bk_sdk k) s s' (at_addr (Address p) (\<lambda>d. c * AmountOf (bk_sdk k) (Coins p) d))"
  shows "bank_inv (bk_sdk k) s \<Longrightarrow> for_each ps f s = (Ok (), s') \<Longrightarrow>
    bank_inv (bk_sdk k) s' \<and> total_supply s' = total_supply s
    \<and> circulating (bk_sdk k) s' d =
        circulating (bk_sdk k) s d + c * (\<Sum>p \<leftarrow> ps. AmountOf (bk_sdk k) (Coins p) d)"
proof (induction ps arbitrary: s)
  case (Cons p ps)
  obtain s1 where s1: "f p s = (Ok (), s1)" "for_each ps f s1 = (Ok (), s')"
    using Cons.prems(2) by (auto simp: and_then_Ok_iff)
  note sh = step[OF Cons.prems(1) s1(1)]
  have "bank_inv (bk_sdk k) s1" "total_supply s1 = total_supply s" using sh by (auto simp: shifted_def)
  with Cons.IH[OF _ s1(2)] circulating_at[OF Cons.prems(1) sh, of d]
  show ?case by (simp add: algebra_simps)
qed simp

lemma parts_total_Ok:
  "parts_total (bk_sdk k) ps acc = Ok t \<Longrightarrow> IsValid (bk_sdk k) acc \<Longrightarrow>
   IsValid (bk_sdk k) t \<and> (\<forall>d. AmountOf (bk_sdk k) t d =
     AmountOf (bk_sdk k) acc d + (\<Sum>p \<leftarrow> ps. AmountOf (bk_sdk k) (Coins p) d))"
proof (induction ps arbitrary: acc)
  case (Cons p ps)
  have v: "IsValid (bk_sdk k) (Coins p)" and t: "parts_total (bk_sdk k) ps (AddC (bk_sdk k) acc (Coins p)) = Ok t"
    using Cons.prems(1) by (auto simp: bind_res_Ok_iff part_ValidateBasic_def split: if_splits)
  from Cons.IH[OF t coins.add_valid[OF Cons.prems(2) v]] coins.add_amount[OF Cons.prems(2) v]
  show ?case by (simp add: algebra_simps)
qed simp

lemma InputOutputCoins_conserves:
  assumes s: "bank_inv (bk_sdk k) s" and ok: "InputOutputCoins k ins outs s = (Ok (), s')"
  shows "bank_inv (bk_sdk k) s' \<and> total_supply s' = total_supply s
    \<and> circulating (bk_sdk k) s' d = circulating (bk_sdk k) s d"
proof -
  obtain s1 where val: "ValidateInputsOutputs (bk_sdk k) ins outs = Ok ()"
    and s1: "for_each ins (\<lambda>i. SubtractCoins k (Address i) (Coins i)) s = (Ok (), s1)"
    and s2: "for_each outs (\<lambda>out. AddCoins k (Address out) (Coins out)) s1 = (Ok (), s')"
    using ok by (auto simp: InputOutputCoins_def and_then_Ok_iff lift_res_def)
  obtain ti to where t: "parts_total (bk_sdk k) ins [] = Ok ti" "parts_total (bk_sdk k) outs [] = Ok to"
    "EqualCoins (bk_sdk k) ti to"
    using val by (auto simp: ValidateInputsOutputs_def bind_res_Ok_iff split: if_splits)
  note ti = parts_total_Ok[OF t(1) coins.valid_nil] and to = parts_total_Ok[OF t(2) coins.valid_nil]
  have eq: "(\<Sum>p \<leftarrow> ins. AmountOf (bk_sdk k) (Coins p) d) = (\<Sum>p \<leftarrow> outs. AmountOf (bk_sdk k) (Coins p) d)"
    using t(3) ti to coins.equal_coins[of ti to] by (simp add: coins.amount_nil)
  have a: "bank_inv (bk_sdk k) s1 \<and> total_supply s1 = total_supply s
    \<and> circulating (bk_sdk k) s1 d =
        circulating (bk_sdk k) s d + (-1) * (\<Sum>p \<leftarrow> ins. AmountOf (bk_sdk k) (Coins p) d)"
    by (rule for_each_circulating[OF _ s s1]) (use SubtractCoins_Ok(3) in auto)
  have "bank_inv (bk_sdk k) s' \<and> total_supply s' = total_supply s1
    \<and> circulating (bk_sdk k) s' d =
        circulating (bk_sdk k) s1 d + 1 * (\<Sum>p \<leftarrow> outs. AmountOf (bk_sdk k) (Coins p) d)"
    by (rule for_each_circulating[OF _ conjunct1[OF a] s2]) (use AddCoins_Ok in auto)
  with a eq show ?thesis by simp
qed

end

section \<open>Supply\<close>

text \<open>The recorded supply is what is in circulation.\<close>

definition supply_matches :: "sdk \<Rightarrow> 's bank_ctx_scheme \<Rightarrow> bool" where
  "supply_matches L s \<longleftrightarrow> (\<exists>t. total_supply s = Some t \<and> IsValid L t \<and>
     (\<forall>d. AmountOf L t d = circulating L s d))"

lemma module_account_bank:
  "snd (module_account k m s) = s\<lparr>accounts := accounts (snd (module_account k m s))\<rparr>"
  by (simp add: module_account_def split: option.split)

lemma module_account_frame [simp]:
  "balances (snd (module_account k m s)) = balances s"
  "total_supply (snd (module_account k m s)) = total_supply s"
  by (simp_all add: module_account_def split: option.splits)

context bank_laws
begin

lemma MintCoins_supply:
  assumes s: "bank_inv (bk_sdk k) s" "supply_matches (bk_sdk k) s"
    and ok: "MintCoins k m amt s = (Ok (), s')"
  shows "bank_inv (bk_sdk k) s' \<and> supply_matches (bk_sdk k) s'
    \<and> (\<forall>d. circulating (bk_sdk k) s' d = circulating (bk_sdk k) s d + AmountOf (bk_sdk k) amt d)"
proof -
  obtain acc s0 s1 t where m: "module_account k m s = (Ok acc, s0)"
    and a: "AddCoins k acc amt s0 = (Ok (), s1)" and t: "GetSupply s1 = Ok t"
    and s': "s' = SetSupply (Inflate (bk_sdk k) amt t) s1"
    using ok by (auto simp: MintCoins_def and_then_Ok_iff lift_res_def split: if_splits)
  have f: "balances s0 = balances s" "total_supply s0 = total_supply s"
    using module_account_frame[of k m s] m by simp_all
  have s0: "bank_inv (bk_sdk k) s0" using s(1) bank_frame(3)[OF f(1)] by simp
  have v: "IsValid (bk_sdk k) amt" using a by (auto simp: AddCoins_def split: if_splits)
  note sh = AddCoins_Ok[OF s0 a]
  have c: "circulating (bk_sdk k) s1 d = circulating (bk_sdk k) s d + AmountOf (bk_sdk k) amt d" for d
    using circulating_at[OF s0 sh, of d] bank_frame(4)[OF f(1)] by simp
  obtain t0 where t0: "total_supply s = Some t0" "IsValid (bk_sdk k) t0"
    "\<And>d. AmountOf (bk_sdk k) t0 d = circulating (bk_sdk k) s d"
    using s(2) by (auto simp: supply_matches_def)
  have "t = t0" using t sh t0(1) f(2) by (simp add: shifted_def GetSupply_def)
  have fr: "balances s' = balances s1" by (simp add: s' SetSupply_def)
  have "bank_inv (bk_sdk k) s'" using sh bank_frame(3)[OF fr] by (simp add: shifted_def)
  moreover have cs: "circulating (bk_sdk k) s' d = circulating (bk_sdk k) s d + AmountOf (bk_sdk k) amt d" for d
    using c bank_frame(4)[OF fr] by simp
  moreover have "supply_matches (bk_sdk k) s'"
    unfolding supply_matches_def using t0 \<open>t = t0\<close> cs coins.add_valid[OF t0(2) v] coins.add_amount[OF t0(2) v]
    by (simp add: s' SetSupply_def Inflate_def)
  ultimately show ?thesis by blast
qed

lemma BurnAccCoins_supply:
  assumes s: "bank_inv (bk_sdk k) s" "supply_matches (bk_sdk k) s"
    and ok: "BurnAccCoins k a amt s = (Ok (), s')"
  shows "bank_inv (bk_sdk k) s' \<and> supply_matches (bk_sdk k) s'
    \<and> (\<forall>d. circulating (bk_sdk k) s' d = circulating (bk_sdk k) s d - AmountOf (bk_sdk k) amt d)"
proof -
  obtain s1 t t' where a: "SubtractCoins k a amt s = (Ok (), s1)" and t: "GetSupply s1 = Ok t"
    and d: "Deflate (bk_sdk k) amt t = Ok t'" and s': "s' = SetSupply t' s1"
    using ok by (auto simp: BurnAccCoins_def and_then_Ok_iff lift_res_def)
  note sub = SubtractCoins_Ok[OF s(1) a]
  have c: "circulating (bk_sdk k) s1 d = circulating (bk_sdk k) s d - AmountOf (bk_sdk k) amt d" for d
    using circulating_at[OF s(1) sub(3), of d] by simp
  obtain t0 where t0: "total_supply s = Some t0" "IsValid (bk_sdk k) t0"
    "\<And>d. AmountOf (bk_sdk k) t0 d = circulating (bk_sdk k) s d"
    using s(2) by (auto simp: supply_matches_def)
  have tt: "t = t0" using t sub(3) t0(1) by (simp add: shifted_def GetSupply_def)
  have s1: "bank_inv (bk_sdk k) s1" using sub(3) by (simp add: shifted_def)
  have "0 \<le> circulating (bk_sdk k) s1 d" for d
    unfolding circulating_def by (intro sum_nonneg bal_nonneg s1)
  then have "AmountOf (bk_sdk k) amt d \<le> AmountOf (bk_sdk k) t0 d" for d
    using c[of d] t0(3)[of d] by (metis diff_ge_0_iff_ge)
  from coins.sub_ok[OF t0(2) sub(1) this] d tt
  have t': "IsValid (bk_sdk k) t'"
    "\<And>d. AmountOf (bk_sdk k) t' d = AmountOf (bk_sdk k) t0 d - AmountOf (bk_sdk k) amt d"
    by (auto simp: Deflate_def)
  have fr: "balances s' = balances s1" by (simp add: s' SetSupply_def)
  have "bank_inv (bk_sdk k) s'" using s1 bank_frame(3)[OF fr] by simp
  moreover have cs: "circulating (bk_sdk k) s' d = circulating (bk_sdk k) s d - AmountOf (bk_sdk k) amt d" for d
    using c bank_frame(4)[OF fr] by simp
  moreover have "supply_matches (bk_sdk k) s'"
    unfolding supply_matches_def using t0 t' cs by (simp add: s' SetSupply_def)
  ultimately show ?thesis by blast
qed

lemma SendCoins_supply:
  assumes s: "bank_inv (bk_sdk k) s" "supply_matches (bk_sdk k) s"
    and ok: "SendCoins k f t amt s = (Ok (), s')"
  shows "bank_inv (bk_sdk k) s' \<and> supply_matches (bk_sdk k) s'"
  using SendCoins_Ok(3)[OF s(1) ok] SendCoins_circulating[OF s(1) ok] s(2)
  by (simp add: shifted_def supply_matches_def)

end

section \<open>Transactions\<close>

context bank_laws
begin

lemma tx_fee_valid:
  assumes "list_all (\<lambda>c. IsSendable (fst c)) amt" "IsValid (bk_sdk k) fee"
    "tx_fee k p amt fee = Ok fee'"
  shows "IsValid (bk_sdk k) fee' \<and>
    (\<forall>d. d \<noteq> ConfigMainDenom \<longrightarrow> AmountOf (bk_sdk k) fee' d = AmountOf (bk_sdk k) fee d)"
  using assms
proof (induction amt arbitrary: fee)
  case (Cons c amt)
  have d: "fst c = ConfigMainDenom" using Cons.prems(1) by (simp add: IsSendable_def)
  obtain f coin where f: "NewCoin (bk_sdk k) ConfigMainDenom f = Ok coin"
    "tx_fee k p amt (AddC (bk_sdk k) fee [coin]) = Ok fee'"
    using Cons.prems(3) by (auto simp: bind_res_Ok_iff d split: if_splits)
  have f0: "0 \<le> f"
  proof (rule ccontr)
    assume "\<not> 0 \<le> f"
    then show False using coins.new_coin_neg[of f ConfigMainDenom] f(1) by auto
  qed
  have coin: "coin = (ConfigMainDenom, f)" using coins.new_coin_ok[OF _ f0, of ConfigMainDenom] f(1) by simp
  have v: "IsValid (bk_sdk k) (AddC (bk_sdk k) fee [coin]) \<and>
    (\<forall>d. d \<noteq> ConfigMainDenom \<longrightarrow> AmountOf (bk_sdk k) (AddC (bk_sdk k) fee [coin]) d = AmountOf (bk_sdk k) fee d)"
  proof (cases "f = 0")
    case True
    then show ?thesis using Cons.prems(2) coins.add_zero_coin[of ConfigMainDenom fee] by (simp add: coin)
  next
    case False
    then have "0 < f" using f0 by simp
    note w = coins.valid_single[OF known_denoms(1) this]
    show ?thesis
      using coins.add_valid[OF Cons.prems(2) w] coins.add_amount[OF Cons.prems(2) w]
        coins.amount_single[OF known_denoms(1) \<open>0 < f\<close>] by (simp add: coin)
  qed
  then show ?case using Cons.IH[OF _ _ f(2)] Cons.prems(1) by simp
qed simp

lemma PayTxFee_Ok:
  assumes s: "bank_inv (bk_sdk k) s"
    and ok: "PayTxFee k a amt s = (Ok fee, s')"
  obtains coll where "IsValid (bk_sdk k) fee"
    "\<And>d. d \<noteq> ConfigMainDenom \<Longrightarrow> AmountOf (bk_sdk k) fee d = 0"
    "shifted (bk_sdk k) s s' (\<lambda>x d. at_addr coll (AmountOf (bk_sdk k) fee) x d
       - at_addr a (AmountOf (bk_sdk k) fee) x d)"
    "fee \<noteq> [] \<Longrightarrow> bk_module_addr k SplittableFeeCollectorName = Some coll"
proof -
  have tx: "tx_fee k (bank_GetParams s) amt [] = Ok fee"
    using ok by (auto simp: PayTxFee_def and_then_Ok_iff lift_res_def split: if_splits)
  have snd: "list_all (\<lambda>c. IsSendable (fst c)) amt"
  proof -
    have "tx_fee k p amt acc = Ok f \<Longrightarrow> list_all (\<lambda>c. IsSendable (fst c)) amt" for p acc f
      by (induction amt arbitrary: acc) (auto simp: bind_res_Ok_iff split: if_splits)
    from this[OF tx] show ?thesis .
  qed
  note v = tx_fee_valid[OF snd coins.valid_nil tx]
  show ?thesis
  proof (cases "IsZeroCoins (bk_sdk k) fee")
    case True
    then have "fee = []" using coins.zero_coins_iff_nil v by blast
    moreover have "s' = s" using ok tx True by (simp add: PayTxFee_def lift_res_def)
    ultimately show ?thesis
      using that[of a] v s by (simp add: shifted_def coins.amount_nil)
  next
    case False
    then obtain coll s0 where m: "module_account k SplittableFeeCollectorName s = (Ok coll, s0)"
      and snd: "SendCoins k a coll fee s0 = (Ok (), s')"
      using ok tx by (auto simp: PayTxFee_def SendCoinsFromAccountToModule_def and_then_Ok_iff lift_res_def)
    have f: "balances s0 = balances s" "total_supply s0 = total_supply s"
      using module_account_frame[of k SplittableFeeCollectorName s] m by simp_all
    have s0: "bank_inv (bk_sdk k) s0" using s bank_frame(3)[OF f(1)] by simp
    have "bk_module_addr k SplittableFeeCollectorName = Some coll"
      using m by (simp add: module_account_def split: option.splits)
    moreover have "shifted (bk_sdk k) s s' (\<lambda>x d. at_addr coll (AmountOf (bk_sdk k) fee) x d
       - at_addr a (AmountOf (bk_sdk k) fee) x d)"
      using SendCoins_Ok(3)[OF s0 snd] shifted_frame[of s0 s s' s'] f by simp
    ultimately show ?thesis using that v by (simp add: coins.amount_nil)
  qed
qed

text \<open>
  A valid coin list all of whose coins are sendable is one positive amount of the main
  denomination.
\<close>

lemma sendable_single:
  assumes "IsValid (bk_sdk k) c" "c \<noteq> []" "list_all (\<lambda>p. IsSendable (fst p)) c"
  shows "\<exists>x. 0 < x \<and> (\<forall>d. AmountOf (bk_sdk k) c d = (if d = ConfigMainDenom then x else 0))"
proof -
  have other: "AmountOf (bk_sdk k) c d = 0" if "d \<noteq> ConfigMainDenom" for d
  proof (rule ccontr)
    assume "AmountOf (bk_sdk k) c d \<noteq> 0"
    then have "(d, AmountOf (bk_sdk k) c d) \<in> set c"
      using coins.valid_mem[OF assms(1)] coins.amount_nonneg[OF assms(1), of d] by simp
    with assms(3) that show False by (auto simp: list_all_iff IsSendable_def)
  qed
  obtain d x where "(d, x) \<in> set c" using assms(2) by (cases c) auto
  moreover from this have "d = ConfigMainDenom" using assms(3) by (auto simp: list_all_iff IsSendable_def)
  ultimately have "0 < AmountOf (bk_sdk k) c ConfigMainDenom"
    using coins.valid_mem[OF assms(1)] by simp
  with other show ?thesis by (intro exI[of _ "AmountOf (bk_sdk k) c ConfigMainDenom"]) simp
qed

lemma Send_Ok:
  assumes s: "bank_inv (bk_sdk k) s" and vb: "MsgSend_ValidateBasic (bk_sdk k) msg = Ok ()"
    and ok: "Send k msg s = (Ok (), s')"
  shows "\<exists>f t x fee coll. AccAddressFromBech32 (bk_sdk k) (send_FromAddress msg) = Some f
    \<and> AccAddressFromBech32 (bk_sdk k) (send_ToAddress msg) = Some t
    \<and> t \<in> accounts s \<and> \<not> BlockedAddr k t \<and> \<not> BlockedSenderAddr k f s
    \<and> 0 < x \<and> GetMinSend s \<le> x \<and> 0 \<le> fee
    \<and> x + fee \<le> bal (bk_sdk k) s f ConfigMainDenom + (if f = coll then fee else 0)
    \<and> (0 < fee \<longrightarrow> bk_module_addr k SplittableFeeCollectorName = Some coll)
    \<and> shifted (bk_sdk k) s s' (\<lambda>a d. if d \<noteq> ConfigMainDenom then 0 else
        (if a = t then x else 0) + (if a = coll then fee else 0) - (if a = f then x + fee else 0))"
proof -
  let ?L = "bk_sdk k" and ?amt = "send_Amount msg"
  have amt: "IsValid ?L ?amt" "?amt \<noteq> []"
    using vb coins.all_positive[of ?amt] by (auto simp: MsgSend_ValidateBasic_def split: if_splits)
  obtain t where t: "AccAddressFromBech32 ?L (send_ToAddress msg) = Some t" "t \<in> accounts s"
    "\<not> BlockedAddr k t" "list_all (\<lambda>c. IsSendable (fst c)) ?amt"
    using ok by (auto simp: Send_def list_ex_iff list_all_iff split: option.splits if_splits)
  obtain m f fee s1 s2 where m: "one_coin ?L ConfigMainDenom (GetMinSend s) = Ok m"
    "\<not> IsAnyGT ?L m ?amt"
    and f: "AccAddressFromBech32 ?L (send_FromAddress msg) = Some f" "\<not> BlockedSenderAddr k f s"
    and fee: "PayTxFee k f ?amt s = (Ok fee, s1)" and snd: "SendCoins k f t ?amt s1 = (Ok (), s2)"
    and s': "s' = TagTx ''artrbank'' ''artery.bank.v1beta1.MsgSend'' s2"
    using ok t by (auto simp: Send_def and_then_Ok_iff lift_res_def list_ex_iff list_all_iff
        split: option.splits if_splits)
  obtain x where x: "0 < x" "\<And>d. AmountOf ?L ?amt d = (if d = ConfigMainDenom then x else 0)"
    using sendable_single[OF amt t(4)] by blast
  have min: "GetMinSend s \<le> x"
  proof (cases "GetMinSend s < 0")
    case False
    then have m': "IsValid ?L m" "\<forall>d. AmountOf ?L m d = (if d = ConfigMainDenom then GetMinSend s else 0)"
      using coins.one_coin_ok[OF known_denoms(1), of "GetMinSend s"] m(1) by (auto simp: not_less)
    then have "\<not> (AmountOf ?L ?amt ConfigMainDenom \<noteq> 0
        \<and> AmountOf ?L ?amt ConfigMainDenom < AmountOf ?L m ConfigMainDenom)"
      using m(2) coins.any_gt[OF m'(1) amt(1)] by blast
    with x(1) m'(2) show ?thesis by (simp add: x(2))
  qed (use x in simp)
  obtain coll where coll: "IsValid ?L fee"
    "\<And>d. d \<noteq> ConfigMainDenom \<Longrightarrow> AmountOf ?L fee d = 0"
    "shifted ?L s s1 (\<lambda>a d. at_addr coll (AmountOf ?L fee) a d - at_addr f (AmountOf ?L fee) a d)"
    "fee \<noteq> [] \<Longrightarrow> bk_module_addr k SplittableFeeCollectorName = Some coll"
    using PayTxFee_Ok[OF s fee] by metis
  have s1: "bank_inv ?L s1" using coll(3) by (simp add: shifted_def)
  note send = SendCoins_Ok[OF s1 snd]
  let ?fee = "AmountOf ?L fee ConfigMainDenom"
  have fee0: "0 \<le> ?fee" by (rule coins.amount_nonneg[OF coll(1)])
  have "x \<le> bal ?L s1 f ConfigMainDenom" using send(2)[of ConfigMainDenom] x by simp
  then have le: "x + ?fee \<le> bal ?L s f ConfigMainDenom + (if f = coll then ?fee else 0)"
    using coll(3) by (simp add: shifted_def at_addr_def split: if_splits)
  have "0 < ?fee \<longrightarrow> bk_module_addr k SplittableFeeCollectorName = Some coll"
    using coll(4) by (cases "fee = []") (simp_all add: coins.amount_nil)
  moreover have "shifted ?L s s2 (\<lambda>a d. if d \<noteq> ConfigMainDenom then 0 else
        (if a = t then x else 0) + (if a = coll then ?fee else 0) - (if a = f then x + ?fee else 0))"
    by (rule shifted_cong[OF shifted_trans[OF coll(3) send(3)]]) (simp add: at_addr_def x(2) coll(2))
  then have "shifted ?L s s' (\<lambda>a d. if d \<noteq> ConfigMainDenom then 0 else
        (if a = t then x else 0) + (if a = coll then ?fee else 0) - (if a = f then x + ?fee else 0))"
    using shifted_frame[of s s s' s2 ?L] by (simp add: s' TagTx_def)
  ultimately show ?thesis using t f x(1) min fee0 le by blast
qed

end

section \<open>An example\<close>

text \<open>A keeper whose hook writes an event, and a context with one funded account.\<close>

definition ex_bank :: "unit bank_keeper" where
  "ex_bank = \<lparr>bk_sdk = ref_sdk,
     bk_module_addr = [SplittableFeeCollectorName \<mapsto> ''coll'', ''mint'' \<mapsto> ''mint''],
     bk_perm = (\<lambda>m p. True), bk_blockedAddrs = (\<lambda>a. False),
     bk_setCoinHooks = [(''log'', \<lambda>a s. (Ok (), emit (''hook'', [AStr a]) s))]\<rparr>"

definition ex_bank_params :: bank_params where
  "ex_bank_params = (bank_DefaultParams ref_sdk)\<lparr>CompanyAccount := ''artr1company''\<rparr>"

definition ex_bank_ctx :: bank_ctx where
  "ex_bank_ctx = sched_ctx.extend ex_sched
     \<lparr>accounts = {''alice'', ''bob''}, balances = [''alice'' \<mapsto> [(ConfigMainDenom, 1000000)]],
      total_supply = Some [(ConfigMainDenom, 1000000)], bank_params_store = Some ex_bank_params,
      denom_metadata = Map.empty\<rparr>"

interpretation ex_bank: bank_laws ex_bank
proof (rule bank_laws.intro)
  show "sdk_laws (bk_sdk ex_bank)" by (simp add: ex_bank_def ref_coins.sdk_laws_axioms)
qed (auto simp: ex_bank_def)

lemma ex_bank_laws: "bank_laws ex_bank"
  by (rule ex_bank.bank_laws_axioms)

lemma ex_bank_inv: "bank_inv (bk_sdk ex_bank) ex_bank_ctx"
  by (simp add: bank_inv_def ex_bank_ctx_def ex_bank_def ref_sdk_def ref_valid_def sched_ctx.defs)

lemma ex_supply: "supply_matches (bk_sdk ex_bank) ex_bank_ctx"
  unfolding supply_matches_def circulating_def
  by (intro exI[of _ "[(ConfigMainDenom, 1000000)]"])
    (simp add: ex_bank_ctx_def ex_bank_def ref_sdk_def ref_valid_def sched_ctx.defs bal_def coins_of_def)

lemma ex_send: "fst (SendCoins ex_bank ''alice'' ''bob'' [(ConfigMainDenom, 400)] ex_bank_ctx) = Ok ()"
  by code_simp

lemma ex_send_msg: "fst (Send ex_bank \<lparr>send_FromAddress = ''artr1alice'', send_ToAddress = ''artr1bob'',
    send_Amount = [(ConfigMainDenom, 5000)]\<rparr> ex_bank_ctx) = Ok ()"
  by code_simp

section \<open>Properties\<close>

text \<open>C6. SendCoins moves exactly the amount. When it returns without error, from a state
  with valid balances, the sender had at least the amount in every denomination, the sender's
  balance falls and the recipient's rises by exactly the amount (nothing changes when they are
  the same account), no other balance changes, balances stay valid, and both the recorded
  supply and the total in circulation are unchanged.\<close>

theorem send_coins_moves:
  assumes "bank_laws k" "bank_inv (bk_sdk k) s" "SendCoins k f t amt s = (Ok (), s')"
  shows "bank_inv (bk_sdk k) s' \<and> total_supply s' = total_supply s
    \<and> (\<forall>d. AmountOf (bk_sdk k) amt d \<le> bal (bk_sdk k) s f d
        \<and> circulating (bk_sdk k) s' d = circulating (bk_sdk k) s d
        \<and> (\<forall>a. bal (bk_sdk k) s' a d = bal (bk_sdk k) s a d
             + (if a = t then AmountOf (bk_sdk k) amt d else 0)
             - (if a = f then AmountOf (bk_sdk k) amt d else 0)))"
  using bank_laws.SendCoins_Ok[OF assms] bank_laws.SendCoins_circulating[OF assms]
  by (simp add: shifted_def at_addr_def)

theorem send_coins_moves_witness:
  "\<exists>s'. SendCoins ex_bank ''alice'' ''bob'' [(ConfigMainDenom, 400)] ex_bank_ctx = (Ok (), s')
    \<and> (\<forall>d. circulating (bk_sdk ex_bank) s' d = circulating (bk_sdk ex_bank) ex_bank_ctx d)
    \<and> bal (bk_sdk ex_bank) s' ''bob'' ConfigMainDenom = 400"
proof -
  have b: "bal (bk_sdk ex_bank) ex_bank_ctx ''bob'' ConfigMainDenom = 0"
    "AmountOf (bk_sdk ex_bank) [(ConfigMainDenom, 400)] ConfigMainDenom = 400" by code_simp+
  note e = pair_of_fst[OF ex_send]
  show ?thesis
    using send_coins_moves[OF ex_bank_laws ex_bank_inv e] b
    by (intro exI[of _ "snd (SendCoins ex_bank ''alice'' ''bob'' [(ConfigMainDenom, 400)] ex_bank_ctx)"]
        conjI e) simp_all
qed

text \<open>SendCoins refuses what it must: an invalid amount with ErrInvalidCoins, an amount
  above the sender's balance in some denomination with ErrInsufficientFunds, in both cases
  with balances and supply as they were; and it never panics on valid amounts unless a hook
  does.\<close>

theorem send_coins_refuses:
  assumes "bank_laws k" "bank_inv (bk_sdk k) s"
  shows "if \<not> IsValid (bk_sdk k) amt
      then \<exists>s'. SendCoins k f t amt s = (Err ErrInvalidCoins, s')
        \<and> balances s' = balances s \<and> total_supply s' = total_supply s
      else if \<exists>d. bal (bk_sdk k) s f d < AmountOf (bk_sdk k) amt d
      then \<exists>s'. SendCoins k f t amt s = (Err ErrInsufficientFunds, s')
        \<and> balances s' = balances s \<and> total_supply s' = total_supply s
      else bk_setCoinHooks k \<noteq> [] \<or> fst (SendCoins k f t amt s) = Ok ()"
proof -
  let ?e = "emit (EventTransfer k f t amt) s"
  have e: "bank_inv (bk_sdk k) ?e" "bal (bk_sdk k) ?e = bal (bk_sdk k) s"
    using assms(2) bank_frame(2,3)[of ?e s] by simp_all
  consider (inv) "\<not> IsValid (bk_sdk k) amt"
    | (poor) "IsValid (bk_sdk k) amt" "\<exists>d. bal (bk_sdk k) s f d < AmountOf (bk_sdk k) amt d"
    | (ok) "IsValid (bk_sdk k) amt" "\<not> (\<exists>d. bal (bk_sdk k) s f d < AmountOf (bk_sdk k) amt d)"
    by blast
  then show ?thesis
  proof cases
    case inv
    then show ?thesis by (simp add: SendCoins_def SubtractCoins_def)
  next
    case poor
    then show ?thesis
      using bank_laws.SubtractCoins_spec(1)[OF assms(1) e(1) poor(1), of f]
      by (simp add: SendCoins_def e(2))
  next
    case ok
    then have le: "\<And>d. AmountOf (bk_sdk k) amt d \<le> bal (bk_sdk k) ?e f d"
      unfolding e(2) by (simp add: not_less)
    obtain c where c: "SubtractCoins k f amt ?e = SetBalance k f c ?e" "IsValid (bk_sdk k) c"
      using bank_laws.SubtractCoins_spec(2)[OF assms(1) e(1) ok(1) le] by blast
    have "fst (SendCoins k f t amt s) = Ok ()" if h: "bk_setCoinHooks k = []"
    proof -
      obtain s1 where s1: "SubtractCoins k f amt ?e = (Ok (), s1)"
        using c h by (simp add: SetBalance_def fireSetCoins_def)
      have "bank_inv (bk_sdk k) s1"
        using bank_laws.SubtractCoins_Ok(3)[OF assms(1) e(1) s1] by (simp add: shifted_def)
      then obtain c' where "AddCoins k t amt s1 = SetBalance k t c' s1" "IsValid (bk_sdk k) c'"
        using bank_laws.AddCoins_spec[OF assms(1) _ ok(1)] by blast
      then show ?thesis using s1 h by (simp add: SendCoins_def SetBalance_def fireSetCoins_def)
    qed
    with ok show ?thesis by auto
  qed
qed

theorem send_coins_refuses_witness:
  "\<exists>s'. SendCoins ex_bank ''bob'' ''alice'' [(ConfigMainDenom, 400)] ex_bank_ctx
    = (Err ErrInsufficientFunds, s') \<and> balances s' = balances ex_bank_ctx"
proof -
  have "IsValid (bk_sdk ex_bank) [(ConfigMainDenom, 400)]"
    "bal (bk_sdk ex_bank) ex_bank_ctx ''bob'' ConfigMainDenom
      < AmountOf (bk_sdk ex_bank) [(ConfigMainDenom, 400)] ConfigMainDenom" by code_simp+
  then show ?thesis
    using send_coins_refuses[OF ex_bank_laws ex_bank_inv, of "[(ConfigMainDenom, 400)]" "''bob''" "''alice''"]
    by (auto split: if_splits)
qed

text \<open>InputOutputCoins neither creates nor destroys coins: whenever it returns without
  error, the total in circulation of every denomination and the recorded supply are what they
  were, however many inputs and outputs name however many accounts.\<close>

theorem input_output_conserves:
  assumes "bank_laws k" "bank_inv (bk_sdk k) s" "InputOutputCoins k ins outs s = (Ok (), s')"
  shows "bank_inv (bk_sdk k) s' \<and> total_supply s' = total_supply s
    \<and> (\<forall>d. circulating (bk_sdk k) s' d = circulating (bk_sdk k) s d)"
  using bank_laws.InputOutputCoins_conserves[OF assms] by blast

theorem input_output_conserves_witness:
  "\<exists>s'. InputOutputCoins ex_bank [\<lparr>Address = ''alice'', Coins = [(ConfigMainDenom, 7)]\<rparr>]
      [\<lparr>Address = ''bob'', Coins = [(ConfigMainDenom, 3)]\<rparr>, \<lparr>Address = ''coll'', Coins = [(ConfigMainDenom, 4)]\<rparr>]
      ex_bank_ctx = (Ok (), s')
    \<and> (\<forall>d. circulating (bk_sdk ex_bank) s' d = circulating (bk_sdk ex_bank) ex_bank_ctx d)"
proof -
  have "fst (InputOutputCoins ex_bank [\<lparr>Address = ''alice'', Coins = [(ConfigMainDenom, 7)]\<rparr>]
      [\<lparr>Address = ''bob'', Coins = [(ConfigMainDenom, 3)]\<rparr>, \<lparr>Address = ''coll'', Coins = [(ConfigMainDenom, 4)]\<rparr>]
      ex_bank_ctx) = Ok ()" by code_simp
  from pair_of_fst[OF this] input_output_conserves[OF ex_bank_laws ex_bank_inv pair_of_fst[OF this]]
  show ?thesis by blast
qed

text \<open>C7. The recorded supply stays equal to the coins in circulation: if it is so before
  MintCoins, BurnAccCoins or SendCoins and the call returns without error, it is so after;
  minting adds exactly the amount and burning takes exactly the amount out of circulation.\<close>

theorem supply_invariant:
  assumes "bank_laws k" "bank_inv (bk_sdk k) s" "supply_matches (bk_sdk k) s"
  shows "(MintCoins k m amt s = (Ok (), s1) \<longrightarrow> bank_inv (bk_sdk k) s1 \<and> supply_matches (bk_sdk k) s1
      \<and> (\<forall>d. circulating (bk_sdk k) s1 d = circulating (bk_sdk k) s d + AmountOf (bk_sdk k) amt d))
    \<and> (BurnAccCoins k a amt s = (Ok (), s2) \<longrightarrow> bank_inv (bk_sdk k) s2 \<and> supply_matches (bk_sdk k) s2
      \<and> (\<forall>d. circulating (bk_sdk k) s2 d = circulating (bk_sdk k) s d - AmountOf (bk_sdk k) amt d))
    \<and> (SendCoins k f t amt s = (Ok (), s3) \<longrightarrow> bank_inv (bk_sdk k) s3 \<and> supply_matches (bk_sdk k) s3)"
  using bank_laws.MintCoins_supply[OF assms] bank_laws.BurnAccCoins_supply[OF assms]
    bank_laws.SendCoins_supply[OF assms] by blast

theorem supply_invariant_witness:
  "\<exists>s'. MintCoins ex_bank ''mint'' [(ConfigMainDenom, 5)] ex_bank_ctx = (Ok (), s')
    \<and> supply_matches (bk_sdk ex_bank) s'"
proof -
  have "fst (MintCoins ex_bank ''mint'' [(ConfigMainDenom, 5)] ex_bank_ctx) = Ok ()" by code_simp
  from pair_of_fst[OF this] supply_invariant[OF ex_bank_laws ex_bank_inv ex_supply]
  show ?thesis by blast
qed

text \<open>C13. A Send message that passed ValidateBasic and succeeds moves one positive amount x of
  uartr, not below the minimum, from an unblocked sender to an existing recipient that may
  receive, and a fee from the sender to the fee collector; sender, recipient and collector
  change by exactly these and nothing else changes, in any denomination.\<close>

theorem send_message_effect:
  assumes "bank_laws k" "bank_inv (bk_sdk k) s"
    and "MsgSend_ValidateBasic (bk_sdk k) msg = Ok ()" "Send k msg s = (Ok (), s')"
  shows "\<exists>f t x fee coll. AccAddressFromBech32 (bk_sdk k) (send_FromAddress msg) = Some f
    \<and> AccAddressFromBech32 (bk_sdk k) (send_ToAddress msg) = Some t
    \<and> t \<in> accounts s \<and> \<not> BlockedAddr k t \<and> \<not> BlockedSenderAddr k f s
    \<and> 0 < x \<and> GetMinSend s \<le> x \<and> 0 \<le> fee
    \<and> x + fee \<le> bal (bk_sdk k) s f ConfigMainDenom + (if f = coll then fee else 0)
    \<and> (0 < fee \<longrightarrow> bk_module_addr k SplittableFeeCollectorName = Some coll)
    \<and> shifted (bk_sdk k) s s' (\<lambda>a d. if d \<noteq> ConfigMainDenom then 0 else
        (if a = t then x else 0) + (if a = coll then fee else 0) - (if a = f then x + fee else 0))"
  by (rule bank_laws.Send_Ok[OF assms])

theorem send_message_effect_witness:
  "\<exists>s' f t. Send ex_bank \<lparr>send_FromAddress = ''artr1alice'', send_ToAddress = ''artr1bob'',
      send_Amount = [(ConfigMainDenom, 5000)]\<rparr> ex_bank_ctx = (Ok (), s')
    \<and> AccAddressFromBech32 (bk_sdk ex_bank) ''artr1alice'' = Some f
    \<and> AccAddressFromBech32 (bk_sdk ex_bank) ''artr1bob'' = Some t \<and> t \<in> accounts ex_bank_ctx"
proof -
  have "MsgSend_ValidateBasic (bk_sdk ex_bank) \<lparr>send_FromAddress = ''artr1alice'',
    send_ToAddress = ''artr1bob'', send_Amount = [(ConfigMainDenom, 5000)]\<rparr> = Ok ()" by code_simp
  from send_message_effect[OF ex_bank_laws ex_bank_inv this pair_of_fst[OF ex_send_msg]]
    pair_of_fst[OF ex_send_msg]
  show ?thesis by auto
qed

text \<open>C40. BurnCoins reports success when it burned nothing: for an existing module account with
  the burner permission and an amount above its balance (or an invalid amount) the call returns
  without error and leaves balances and supply exactly as they were.\<close>

theorem burn_coins_hides_failure:
  assumes "bank_laws k" "bank_inv (bk_sdk k) s" "bk_module_addr k m = Some a" "bk_perm k m ''burner''"
    and "\<not> IsValid (bk_sdk k) amt \<or> (\<exists>d. bal (bk_sdk k) s a d < AmountOf (bk_sdk k) amt d)"
  shows "\<exists>s'. BurnCoins k m amt s = (Ok (), s') \<and> balances s' = balances s
    \<and> total_supply s' = total_supply s"
proof -
  let ?s = "s\<lparr>accounts := insert a (accounts s)\<rparr>"
  have f: "balances ?s = balances s" by simp
  have i: "bank_inv (bk_sdk k) ?s" "bal (bk_sdk k) ?s = bal (bk_sdk k) s"
    using assms(2) bank_frame(2,3)[OF f] by simp_all
  have "\<exists>e. SubtractCoins k a amt ?s = (Err e, ?s)"
  proof (cases "IsValid (bk_sdk k) amt")
    case True
    with assms(5) show ?thesis
      using bank_laws.SubtractCoins_spec(1)[OF assms(1) i(1) True, of a] unfolding i(2) by blast
  qed (simp add: SubtractCoins_def)
  then show ?thesis
    using assms(3,4) by (auto simp: BurnCoins_def module_account_def BurnAccCoins_def)
qed

theorem burn_coins_hides_failure_witness:
  "\<exists>s'. BurnCoins ex_bank ''mint'' [(ConfigMainDenom, 5)] ex_bank_ctx = (Ok (), s')
    \<and> balances s' = balances ex_bank_ctx \<and> total_supply s' = total_supply ex_bank_ctx"
proof (rule burn_coins_hides_failure[OF ex_bank_laws ex_bank_inv, of _ "''mint''"])
  have "bal (bk_sdk ex_bank) ex_bank_ctx ''mint'' ConfigMainDenom
      < AmountOf (bk_sdk ex_bank) [(ConfigMainDenom, 5)] ConfigMainDenom" by code_simp
  then show "\<not> IsValid (bk_sdk ex_bank) [(ConfigMainDenom, 5)] \<or>
      (\<exists>d. bal (bk_sdk ex_bank) ex_bank_ctx ''mint'' d < AmountOf (bk_sdk ex_bank) [(ConfigMainDenom, 5)] d)"
    by blast
qed (simp_all add: ex_bank_def)

section \<open>Parameters that pass validation\<close>

lemma Add_Ok_wf: "Add (mk_frac n d) (mk_frac n' d') = Ok z \<Longrightarrow> d \<noteq> 0 \<and> d' \<noteq> 0"
  by (auto simp: Add_def big_quo_def bind_res_Ok_iff split: if_splits)

lemma with_parts_Ok: "with_parts x f = Ok y \<Longrightarrow> \<exists>n d. x = mk_frac n d"
  by (auto simp: with_parts_def split: option.splits) (metis frac_parts)

lemma ratios_validated:
  assumes "validateTransactionFeeSplitRatios r = Ok ()"
  shows "valid_ratios (ForProposer r) (ForCompany r)"
    and "\<exists>l. CalculateTransactionFeeSplitRatiosLCM (ForProposer r) (ForCompany r) = Ok l \<and> l \<le> 100"
proof -
  obtain z l where v: "IsNegative (ForProposer r) = Ok False" "IsNegative (ForCompany r) = Ok False"
    "Add (ForProposer r) (ForCompany r) = Ok z" "GT z (FractionInt 1) = Ok False"
    and l: "CalculateTransactionFeeSplitRatiosLCM (ForProposer r) (ForCompany r) = Ok l" "l \<le> 100"
    using assms by (auto simp: validateTransactionFeeSplitRatios_def bind_res_Ok_iff
        TransactionFeeSplitRatiosMaxLcm_def not_less split: if_splits)
  obtain n d n' d' where p: "ForProposer r = mk_frac n d" and c: "ForCompany r = mk_frac n' d'"
    using with_parts_Ok v(1,2) unfolding IsNegative_def by metis
  have d: "d \<noteq> 0 \<and> d' \<noteq> 0" using v(3) unfolding p c by (rule Add_Ok_wf)
  then have wf: "wf_frac (ForProposer r)" "wf_frac (ForCompany r)" by (simp_all add: p c)
  have z: "wf_frac z" "frac_val z = frac_val (ForProposer r) + frac_val (ForCompany r)"
    using Add_val[OF wf] v(3) by auto
  have "GT z (FractionInt 1) = Ok (frac_val (FractionInt 1) < frac_val z)"
    by (rule GT_val[OF z(1)]) simp
  then have "frac_val (ForProposer r) + frac_val (ForCompany r) \<le> 1"
    using v(4) z(2) by simp
  then show "valid_ratios (ForProposer r) (ForCompany r)"
    using wf IsNegative_val[OF wf(1)] IsNegative_val[OF wf(2)] v(1,2)
    by (simp add: valid_ratios_def not_less)
  show "\<exists>l. CalculateTransactionFeeSplitRatiosLCM (ForProposer r) (ForCompany r) = Ok l \<and> l \<le> 100"
    using l by blast
qed


lemma ex_params_valid: "bank_params_Validate ref_sdk ex_bank_params = Ok ()"
  by code_simp


text \<open>Validate does not exclude a fee fraction with denominator zero: parameters that
  differ from valid ones only in a TransactionFee of 1/0, which ParseFraction accepts, still
  pass, and with them CalculateFee panics for every int64 amount, so no transfer can be made.\<close>

theorem zero_denominator_fee_accepted:
  assumes "bank_params_Validate L p = Ok ()" "in_int64 amount"
  shows "ParseFraction ''1/0'' = Ok (mk_frac 1 0)
    \<and> bank_params_Validate L (p\<lparr>TransactionFee := mk_frac 1 0\<rparr>) = Ok ()
    \<and> (\<exists>e. CalculateFee amount (mk_frac 1 0) (MaxTransactionFee p)
          (ForProposer (TransactionFeeSplitRatios p)) (ForCompany (TransactionFeeSplitRatios p)) = Panic e)"
proof -
  have "ParseFraction ''1/0'' = Ok (mk_frac 1 0)"
    by (simp add: ParseFraction_def parse_suffix_def is_digit_def read_nat_def Let_def)
  moreover have "bank_params_Validate L (p\<lparr>TransactionFee := mk_frac 1 0\<rparr>) = Ok ()"
    using assms(1) by (auto simp: bank_params_Validate_def bind_res_Ok_iff validateTransactionFee_def
        IsNegative_def)
  moreover have "\<exists>e. bind_res (MulInt64 (mk_frac 1 0) amount) Frac_Int64 = Panic e"
  proof (cases "amount = 0")
    case True
    then show ?thesis
      by (simp add: MulInt64_def Mul_def FractionInt_def NewFraction_def Reduce_def big_quo_def Let_def)
  next
    case False
    then show ?thesis
      by (simp add: MulInt64_def Mul_def FractionInt_def NewFraction_def Reduce_def big_quo_def Let_def
          Frac_Int64_def BigInt_def quo_def)
  qed
  then have "\<exists>e. CalculateFee amount (mk_frac 1 0) (MaxTransactionFee p)
          (ForProposer (TransactionFeeSplitRatios p)) (ForCompany (TransactionFeeSplitRatios p)) = Panic e"
    using assms(2) by (cases "MulInt64 (mk_frac 1 0) amount") (auto simp: CalculateFee_def Int64_def)
  ultimately show ?thesis by blast
qed

theorem zero_denominator_fee_accepted_witness:
  "bank_params_Validate ref_sdk (ex_bank_params\<lparr>TransactionFee := mk_frac 1 0\<rparr>) = Ok ()
   \<and> (\<exists>e. CalculateFee 5000 (mk_frac 1 0) (MaxTransactionFee ex_bank_params)
        (ForProposer (TransactionFeeSplitRatios ex_bank_params))
        (ForCompany (TransactionFeeSplitRatios ex_bank_params)) = Panic e)"
  using zero_denominator_fee_accepted[OF ex_params_valid, of 5000] by (simp add: in_int64_def)

section \<open>Genesis round trip\<close>

definition hooks_succeed :: "'s bank_keeper \<Rightarrow> bool" where
  "hooks_succeed k \<longleftrightarrow> (\<forall>(n, h) \<in> set (bk_setCoinHooks k). \<forall>a s. fst (h a s) = Ok ())"

lemma fire_ok: "hooks_succeed k \<Longrightarrow> fst (fireSetCoins k a s) = Ok ()"
proof -
  have "\<forall>(n, h) \<in> set hs. \<forall>a s. fst (h a s) = Ok () \<Longrightarrow> fst (for_each hs (\<lambda>p. snd p a) s) = Ok ()" for hs
  proof (induction hs arbitrary: s)
    case (Cons h hs)
    then have "fst (snd h a s) = Ok ()" by (cases h) simp
    then show ?case using Cons by (cases "snd h a s") simp
  qed simp
  then show "hooks_succeed k \<Longrightarrow> ?thesis" by (simp add: hooks_succeed_def fireSetCoins_def)
qed

lemma iterate_all: "list_all (\<lambda>p. length (fst p) = AddrLen) xs \<Longrightarrow>
    iterate_balances (\<lambda>a b acc. (False, acc @ [f a b])) xs acc = Ok (acc @ map (\<lambda>(a, b). f a b) xs)"
  by (induction xs arbitrary: acc) (auto simp: AddressFromBalancesStore_def)

context bank_laws
begin

lemma init_balances_ok:
  assumes "hooks_succeed k" "list_all (\<lambda>(a, c). a \<noteq> [] \<and> IsValid (bk_sdk k) c \<and> c \<noteq> []) xs"
    "distinct (map fst xs)"
  shows "\<exists>t s'. init_balances k (map (\<lambda>(a, c). (AccString (bk_sdk k) a, c)) xs) tot s = (Ok t, s')
    \<and> balances s' = balances s ++ map_of xs"
  using assms(2,3)
proof (induction xs arbitrary: tot s)
  case (Cons x xs)
  obtain a c where x: "x = (a, c)" by (cases x)
  have v: "a \<noteq> []" "IsValid (bk_sdk k) c" "c \<noteq> []" using Cons.prems(1) by (simp_all add: x)
  let ?s = "s\<lparr>balances := (balances s)(a \<mapsto> c)\<rparr>"
  have sb: "SetBalance k a c s = (Ok (), snd (fireSetCoins k a ?s))"
    using v fire_ok[OF assms(1), of a ?s] by (simp add: SetBalance_def prod_eq_iff)
  obtain t s' where s': "init_balances k (map (\<lambda>(a, c). (AccString (bk_sdk k) a, c)) xs)
      (AddC (bk_sdk k) tot c) (snd (fireSetCoins k a ?s)) = (Ok t, s')"
    "balances s' = balances (snd (fireSetCoins k a ?s)) ++ map_of xs"
    using Cons.IH[of "AddC (bk_sdk k) tot c" "snd (fireSetCoins k a ?s)"] Cons.prems by auto
  have "balances s' = balances s ++ map_of (x # xs)"
    using s'(2) Cons.prems(2) fire_frame(1)[of a ?s]
    by (simp add: x map_add_upd_left map_of_eq_None_iff dom_map_of_conv_image_fst image_iff)
  then show ?case
    using s'(1) sb coins.bech32_roundtrip[OF v(1)] by (simp add: x del: map_of.simps)
qed simp

end

text \<open>C35. Exporting the bank and importing it into a context without balances gives the same
  balances and supply, when addresses have the twenty bytes the store key expects, the supply
  is not empty, and the hooks return no error: nothing is lost in printing the addresses,
  sorting the accounts or validating the coins again.\<close>

theorem bank_genesis_roundtrip:
  assumes "bank_laws k" "hooks_succeed k" "bank_inv (bk_sdk k) s"
    and "total_supply s = Some t" "t \<noteq> []" "\<forall>a \<in> dom (balances s). length a = AddrLen"
    and "balances s0 = Map.empty"
  shows "\<exists>g s'. bank_ExportGenesis k s = Ok g \<and> bank_InitGenesis k g s0 = (Ok (), s')
    \<and> balances s' = balances s \<and> total_supply s' = Some t"
proof -
  let ?L = "bk_sdk k" and ?xs = "store_items (balances s)"
  have coins: "sdk_laws ?L" using bank_laws.sdk[OF assms(1)] .
  have fin: "finite (dom (balances s))" using assms(3) by (simp add: bank_inv_def)
  have xs: "length a = AddrLen \<and> IsValid ?L c \<and> c \<noteq> []" if "(a, c) \<in> set ?xs" for a c
    using that assms(3,6) fin by (auto simp: store_items_mem bank_inv_def)
  let ?bs = "map (\<lambda>(a, c). (AccString ?L a, c)) ?xs"
  have "list_all (\<lambda>p. length (fst p) = AddrLen) ?xs" using xs by (auto simp: list_all_iff)
  from iterate_all[OF this, of "\<lambda>a b. (AccString ?L a, b)" "[]"]
  have "GetAccountsBalances k s = Ok ?bs"
    by (simp add: GetAccountsBalances_def IterateAllBalances_def)
  then have g: "bank_ExportGenesis k s =
      Ok \<lparr>gen_bank_params = bank_GetParams s, gen_balances = ?bs, gen_supply = t\<rparr>"
    using assms(4) by (simp add: bank_ExportGenesis_def GetSupply_def)
  have dec: "AccAddressFromBech32 ?L (AccString ?L a) = Some a" if "(a, c) \<in> set ?xs" for a c
    by (rule sdk_laws.bech32_roundtrip[OF coins]) (use xs[OF that] in \<open>auto simp: AddrLen_def\<close>)
  let ?key = "\<lambda>p. case AccAddressFromBech32 ?L (fst p) of None \<Rightarrow> [] | Some a \<Rightarrow> a"
  have "map ?key ?bs = store_keys (balances s)"
    unfolding store_items_fst[symmetric] map_map o_def
    by (rule map_cong) (use dec in auto)
  then have "sorted (map ?key ?bs)" using strict_sorted_imp_sorted[OF sorted_store_keys] by metis
  then have "sort_key ?key ?bs = ?bs" by (rule sort_key_id_if_sorted)
  moreover have "map (\<lambda>(a, c). (a, sort_key fst c)) ?bs = ?bs"
  proof (rule map_idI)
    fix p assume "p \<in> set ?bs"
    then obtain a c where p: "p = (AccString ?L a, c)" "(a, c) \<in> set ?xs" by auto
    have "sort_key fst c = c"
      using sdk_laws.valid_sorted[OF coins] xs[OF p(2)]
      by (intro sort_key_id_if_sorted strict_sorted_imp_sorted) blast
    then show "(case p of (a, c) \<Rightarrow> (a, sort_key fst c)) = p" by (simp add: p)
  qed
  ultimately have san: "SanitizeGenesisBalances ?L ?bs = ?bs" by (simp add: SanitizeGenesisBalances_def)
  let ?s0 = "bank_SetParams (bank_GetParams s) s0"
  have "list_all (\<lambda>(a, c). a \<noteq> [] \<and> IsValid ?L c \<and> c \<noteq> []) ?xs"
    using xs by (fastforce simp: list_all_iff AddrLen_def)
  then obtain tot s' where s': "init_balances k ?bs [] ?s0 = (Ok tot, s')"
    "balances s' = balances ?s0 ++ map_of ?xs"
    using bank_laws.init_balances_ok[OF assms(1,2), of ?xs "[]" ?s0] by auto
  have "balances s' = balances s"
    using s'(2) assms(7) map_of_store_items[OF fin] by (simp add: bank_SetParams_def)
  with s'(1) assms(5) g san show ?thesis
    by (simp add: bank_InitGenesis_def SetSupply_def)
qed

theorem bank_genesis_roundtrip_witness:
  "\<exists>g s'. bank_ExportGenesis ex_bank (ex_bank_ctx\<lparr>balances :=
        [''abcdefghijklmnopqrst'' \<mapsto> [(ConfigMainDenom, 1000000)]]\<rparr>) = Ok g
    \<and> bank_InitGenesis ex_bank g (ex_bank_ctx\<lparr>balances := Map.empty\<rparr>) = (Ok (), s')
    \<and> balances s' = [''abcdefghijklmnopqrst'' \<mapsto> [(ConfigMainDenom, 1000000)]]"
proof -
  let ?s = "ex_bank_ctx\<lparr>balances := [''abcdefghijklmnopqrst'' \<mapsto> [(ConfigMainDenom, 1000000)]]\<rparr>"
  have "hooks_succeed ex_bank" by (simp add: hooks_succeed_def ex_bank_def)
  moreover have "bank_inv (bk_sdk ex_bank) ?s"
    by (simp add: bank_inv_def ex_bank_def ref_sdk_def ref_valid_def)
  moreover have "total_supply ?s = Some [(ConfigMainDenom, 1000000)]"
    by (simp add: ex_bank_ctx_def sched_ctx.defs)
  ultimately show ?thesis
    using bank_genesis_roundtrip[OF ex_bank_laws, of ?s "[(ConfigMainDenom, 1000000)]"
        "ex_bank_ctx\<lparr>balances := Map.empty\<rparr>"]
    by (simp add: AddrLen_def) blast
qed

end
