(* ===== verification/Referral_Types.thy ===== *)
theory Referral_Types
  imports Bank
begin

text \<open>
  The data of \<open>x/referral\<close> and its pure code: \<open>types/types.go\<close>, \<open>types/params.go\<close>, the status
  requirements of \<open>keeper/status_requirements.go\<close>. A status is Go's enumeration number. The
  amounts per level are lists (level 0 the account's own), the counts of active referrals per
  level are \<open>uint64\<close> values and wrap.
\<close>

section \<open>Statuses\<close>

type_synonym status = int

definition STATUS_UNSPECIFIED :: status where "STATUS_UNSPECIFIED = 0"
definition STATUS_LUCKY :: status where "STATUS_LUCKY = 1"
definition STATUS_LEADER :: status where "STATUS_LEADER = 2"
definition STATUS_MASTER :: status where "STATUS_MASTER = 3"
definition STATUS_CHAMPION :: status where "STATUS_CHAMPION = 4"
definition STATUS_BUSINESSMAN :: status where "STATUS_BUSINESSMAN = 5"
definition STATUS_PROFESSIONAL :: status where "STATUS_PROFESSIONAL = 6"
definition STATUS_TOP_LEADER :: status where "STATUS_TOP_LEADER = 7"
definition HeroDeprecatedStatus :: status where "HeroDeprecatedStatus = 8"
definition STATUS_ABSOLUTE_CHAMPION :: status where "STATUS_ABSOLUTE_CHAMPION = 9"

lemmas status_defs = STATUS_UNSPECIFIED_def STATUS_LUCKY_def STATUS_LEADER_def STATUS_MASTER_def
  STATUS_CHAMPION_def STATUS_BUSINESSMAN_def STATUS_PROFESSIONAL_def STATUS_TOP_LEADER_def
  HeroDeprecatedStatus_def STATUS_ABSOLUTE_CHAMPION_def

definition MinimumStatus :: status where "MinimumStatus = STATUS_LUCKY"
definition MaximumStatus :: status where "MaximumStatus = STATUS_ABSOLUTE_CHAMPION"
definition minIndexedStatus :: status where "minIndexedStatus = STATUS_BUSINESSMAN"

definition status_Validate :: "status \<Rightarrow> unit res" where
  "status_Validate s =
     (if s < MinimumStatus \<or> s > MaximumStatus \<or> s = HeroDeprecatedStatus
      then Err (Text ''there is no such status'') else Ok ())"

definition LinesOpened :: "status \<Rightarrow> int" where
  "LinesOpened s =
     (if s = STATUS_LUCKY then 4 else if s = STATUS_LEADER then 6
      else if s = STATUS_MASTER then 8 else 10)"

definition ParseStatus :: "string \<Rightarrow> status res" where
  "ParseStatus name =
     (case map_of [(''STATUS_UNSPECIFIED'', 0), (''STATUS_LUCKY'', 1), (''STATUS_LEADER'', 2),
        (''STATUS_MASTER'', 3), (''STATUS_CHAMPION'', 4), (''STATUS_BUSINESSMAN'', 5),
        (''STATUS_PROFESSIONAL'', 6), (''STATUS_TOP_LEADER'', 7),
        (''STATUS_ABSOLUTE_CHAMPION'', 9)] name of
        None \<Rightarrow> Err (Text ''cannot parse status from string'') | Some s \<Rightarrow> Ok s)"

section \<open>The record of an account\<close>

record info =
  r_Status :: status
  r_Referrer :: string
  r_Referrals :: "string list"
  r_Active :: bool
  r_Coins :: "int list"
  r_Delegated :: "int list"
  r_ActiveReferrals :: "string list"
  r_ActiveRefCounts :: "64 word list"
  r_StatusDowngradeAt :: "time option"
  r_CompressionAt :: "time option"
  r_BanishmentAt :: "time option"
  r_Transition :: string
  r_Banished :: bool

text \<open>What an absent record decodes to.\<close>

definition zero_info :: info where
  "zero_info = \<lparr>r_Status = 0, r_Referrer = [], r_Referrals = [], r_Active = False, r_Coins = [],
     r_Delegated = [], r_ActiveReferrals = [], r_ActiveRefCounts = [], r_StatusDowngradeAt = None,
     r_CompressionAt = None, r_BanishmentAt = None, r_Transition = [], r_Banished = False\<rparr>"

definition NewInfo :: "string \<Rightarrow> int \<Rightarrow> int \<Rightarrow> info" where
  "NewInfo referrer coins delegated = zero_info\<lparr>r_Status := STATUS_LUCKY, r_Referrer := referrer,
     r_Coins := coins # replicate 10 0, r_Delegated := delegated # replicate 10 0,
     r_Active := False, r_ActiveRefCounts := replicate 11 0\<rparr>"

text \<open>Indexing a slice panics out of range.\<close>

definition nth_res :: "'a list \<Rightarrow> int \<Rightarrow> 'a res" where
  "nth_res xs i =
     (if 0 \<le> i \<and> i < int (length xs) then Ok (xs ! nat i) else Panic index_out_of_range)"

definition sum_upto :: "int list \<Rightarrow> int \<Rightarrow> int res" where
  "sum_upto xs n =
     (if n < int (length xs) then Ok (sum_list (take (nat (n + 1)) xs)) else Panic index_out_of_range)"

definition CoinsAtLevelsUpTo :: "info \<Rightarrow> int \<Rightarrow> int res" where
  "CoinsAtLevelsUpTo r n = sum_upto (r_Coins r) n"

definition DelegatedAtLevelsUpTo :: "info \<Rightarrow> int \<Rightarrow> int res" where
  "DelegatedAtLevelsUpTo r n = sum_upto (r_Delegated r) n"

definition RegistrationClosed :: "info \<Rightarrow> 's sched_ctx_scheme \<Rightarrow> bool" where
  "RegistrationClosed r s \<longleftrightarrow> r_Referrer r \<noteq> [] \<and>
     (r_Banished r \<or> \<not> r_Active r \<and>
       (case r_CompressionAt r of None \<Rightarrow> True
        | Some c \<Rightarrow> block_time s > c + wrap64 (- OneMonth s)))"

definition IsEmpty :: "info \<Rightarrow> bool" where
  "IsEmpty r \<longleftrightarrow> r_Status r = STATUS_UNSPECIFIED \<and> \<not> r_Banished r"

definition pad :: "nat \<Rightarrow> 'a \<Rightarrow> 'a list \<Rightarrow> 'a list" where
  "pad n z xs = xs @ replicate (n - length xs) z"

definition Normalize :: "info \<Rightarrow> info" where
  "Normalize r = r\<lparr>r_Coins := pad 11 0 (r_Coins r), r_Delegated := pad 11 0 (r_Delegated r),
     r_ActiveRefCounts := pad 11 0 (r_ActiveRefCounts r)\<rparr>"

lemma length_pad [simp]: "length (pad n z xs) = max n (length xs)"
  by (simp add: pad_def)

lemma pad_id [simp]: "n \<le> length xs \<Longrightarrow> pad n z xs = xs"
  by (simp add: pad_def)

definition opt_addr :: "sdk \<Rightarrow> string \<Rightarrow> addr option res" where
  "opt_addr L a = (if a = [] then Ok None else
     (case AccAddressFromBech32 L a of None \<Rightarrow> Panic (Text ''invalid address'') | Some w \<Rightarrow> Ok (Some w)))"

definition GetReferrer :: "sdk \<Rightarrow> info \<Rightarrow> addr option res" where
  "GetReferrer L r = opt_addr L (r_Referrer r)"

definition GetTransition :: "sdk \<Rightarrow> info \<Rightarrow> addr option res" where
  "GetTransition L r = opt_addr L (r_Transition r)"

section \<open>Parameters\<close>

record ref_params =
  ForSubscription :: string
  TransitionPrice :: int

definition DefaultTransitionPrice :: int where "DefaultTransitionPrice = 1000000"

definition ref_NewParams :: "string \<Rightarrow> int \<Rightarrow> ref_params" where
  "ref_NewParams ca tp = \<lparr>ForSubscription = ca, TransitionPrice = tp\<rparr>"

definition ref_DefaultParams :: ref_params where
  "ref_DefaultParams = \<lparr>ForSubscription = [], TransitionPrice = DefaultTransitionPrice\<rparr>"

definition CompanyAccounts_Validate :: "sdk \<Rightarrow> string \<Rightarrow> unit res" where
  "CompanyAccounts_Validate L forSubscription =
     (if AccAddressFromBech32 L forSubscription = None
      then Err (Text ''cannot parse for_subscription account address'') else Ok ())"

definition GetForSubscription :: "sdk \<Rightarrow> string \<Rightarrow> addr res" where
  "GetForSubscription L forSubscription =
     (case AccAddressFromBech32 L forSubscription of
        None \<Rightarrow> Panic (Text ''invalid address'') | Some a \<Rightarrow> Ok a)"

definition ref_params_Validate :: "sdk \<Rightarrow> ref_params \<Rightarrow> unit res" where
  "ref_params_Validate L p = CompanyAccounts_Validate L (ForSubscription p)"

record network_award =
  Network :: "fraction list"
  Company :: fraction

fun award_total :: "fraction list \<Rightarrow> int list \<Rightarrow> fraction \<Rightarrow> fraction res" where
  "award_total net [] tot = Ok tot"
| "award_total net (i # is) tot =
     bind_res (nth_res net i) (\<lambda>f. bind_res (IsNegative f) (\<lambda>neg.
       if neg then Err (Text ''level award must be non-negative'')
       else bind_res (Add tot f) (\<lambda>t. award_total net is t)))"

definition NetworkAward_Validate :: "network_award \<Rightarrow> unit res" where
  "NetworkAward_Validate na =
     bind_res (IsNegative (Company na)) (\<lambda>neg.
     if neg then Err (Text ''company award must be non-negative'') else
     bind_res (award_total (Network na) [0..9] (Company na)) (\<lambda>tot.
     bind_res (GTE tot (Percent 100)) (\<lambda>ge.
     if ge then Err (Text ''total network award must be less than 100%'') else Ok ())))"

section \<open>Status requirements\<close>

datatype rule = RULE_UNSPECIFIED | RULE_N_REFERRALS_WITH_X_REFERRALS_EACH
  | RULE_N_COINS_IN_STRUCTURE | RULE_N_TEAMS_OF_X_PEOPLE_EACH | RULE_PARTICIPATE_IN_REFERRAL_PROGRAM

record criterion =
  Met :: bool
  Rule :: rule
  TargetValue :: int
  ActualValue :: int
  ParameterX :: int

record check_result =
  Overall :: bool
  Criteria :: "criterion list"

text \<open>The coins criterion both kinds of requirement begin with.\<close>

definition coins_criterion :: "info \<Rightarrow> int \<Rightarrow> int \<Rightarrow> criterion res" where
  "coins_criterion value linesOpen coins =
     bind_res (bind_res (DelegatedAtLevelsUpTo value linesOpen) Uint64) (\<lambda>d.
       let actual = d div 1000000
       in Ok \<lparr>Met = actual \<ge> coins, Rule = RULE_N_COINS_IN_STRUCTURE, TargetValue = coins,
              ActualValue = (if actual \<ge> coins then coins else actual), ParameterX = 0\<rparr>)"

text \<open>The loop that counts referrals with enough active referrals of their own.\<close>

fun count_wide :: "(string \<Rightarrow> info) \<Rightarrow> int \<Rightarrow> int \<Rightarrow> string list \<Rightarrow> int \<Rightarrow> (int \<times> bool) res" where
  "count_wide get cnt sz [] found = Ok (found, False)"
| "count_wide get cnt sz (c # cs) found =
     bind_res (nth_res (r_ActiveRefCounts (get c)) 1) (\<lambda>n.
       if uint n \<ge> sz then
         (if found + 1 \<ge> cnt then Ok (found + 1, True) else count_wide get cnt sz cs (found + 1))
       else count_wide get cnt sz cs found)"

definition statusRequirementsXByX ::
    "info \<Rightarrow> (string \<Rightarrow> info) \<Rightarrow> int \<Rightarrow> int \<Rightarrow> int \<Rightarrow> int \<Rightarrow> check_result res" where
  "statusRequirementsXByX value get linesOpen coins cnt sz =
     bind_res (if coins > 0 then bind_res (coins_criterion value linesOpen coins) (\<lambda>c. Ok [c]) else Ok []) (\<lambda>cs.
     bind_res (count_wide get cnt sz (r_ActiveReferrals value) 0) (\<lambda>fm.
       let c = \<lparr>Met = snd fm, Rule = RULE_N_REFERRALS_WITH_X_REFERRALS_EACH, TargetValue = cnt,
                ActualValue = fst fm, ParameterX = sz\<rparr>
       in Ok \<lparr>Overall = list_all Met cs \<and> snd fm, Criteria = cs @ [c]\<rparr>))"

text \<open>Whether the running sum of the counts reaches \<open>leg\<close>.\<close>

fun reaches_leg :: "64 word \<Rightarrow> 64 word list \<Rightarrow> 64 word \<Rightarrow> bool" where
  "reaches_leg leg [] s = False"
| "reaches_leg leg (x # xs) s = (if s + x \<ge> leg then True else reaches_leg leg xs (s + x))"

text \<open>
  The loop of \<open>statusRequirementsCore\<close>: \<open>a\<close> teams found so far, \<open>m\<close> whether that is enough,
  \<open>x\<close> wide referrals found, \<open>xm\<close> whether that is enough.
\<close>

fun count_teams :: "(string \<Rightarrow> info) \<Rightarrow> 64 word \<Rightarrow> string list \<Rightarrow>
    int \<Rightarrow> bool \<Rightarrow> int \<Rightarrow> bool \<Rightarrow> (int \<times> bool \<times> int \<times> bool) res" where
  "count_teams get leg [] a m x xm = Ok (a, m, x, xm)"
| "count_teams get leg (c # cs) a m x xm =
     (let child = get c;
          hit = (\<not> m \<and> reaches_leg leg (r_ActiveRefCounts child) 0);
          a' = (if hit then a + 1 else a);
          m' = (m \<or> hit \<and> a + 1 \<ge> 3)
      in bind_res (if xm then Ok 0 else nth_res (r_ActiveRefCounts child) 1) (\<lambda>n.
           let wide = (\<not> xm \<and> uint n \<ge> 3);
               x' = (if wide then x + 1 else x);
               xm' = (xm \<or> wide \<and> x + 1 \<ge> 3)
           in if m' \<and> xm' then Ok (a', m', x', xm') else count_teams get leg cs a' m' x' xm'))"

definition statusRequirementsCore ::
    "info \<Rightarrow> (string \<Rightarrow> info) \<Rightarrow> int \<Rightarrow> int \<Rightarrow> 64 word \<Rightarrow> check_result res" where
  "statusRequirementsCore value get linesOpen coins leg =
     bind_res (if coins > 0 then bind_res (coins_criterion value linesOpen coins) (\<lambda>c. Ok [c]) else Ok []) (\<lambda>cs.
     bind_res (count_teams get leg (r_ActiveReferrals value) 0 False 0 False) (\<lambda>(a, m, x, xm).
       let c = \<lparr>Met = m, Rule = RULE_N_TEAMS_OF_X_PEOPLE_EACH, TargetValue = 3,
                ActualValue = a, ParameterX = uint leg\<rparr>;
           xByX = \<lparr>Met = xm, Rule = RULE_N_REFERRALS_WITH_X_REFERRALS_EACH, TargetValue = 3,
                ActualValue = x, ParameterX = 3\<rparr>
       in Ok \<lparr>Overall = list_all Met cs \<and> m \<and> xm, Criteria = cs @ [c, xByX]\<rparr>))"

text \<open>The table \<open>statusRequirements\<close>; a status it does not hold is a nil function.\<close>

definition statusRequirements :: "status \<Rightarrow> info \<Rightarrow> (string \<Rightarrow> info) \<Rightarrow> check_result res" where
  "statusRequirements s value get =
     (if s = STATUS_LUCKY then Ok \<lparr>Overall = True, Criteria = []\<rparr>
      else if s = STATUS_LEADER then statusRequirementsXByX value get (LinesOpened STATUS_LUCKY) 20000 2 2
      else if s = STATUS_MASTER then statusRequirementsXByX value get (LinesOpened STATUS_LEADER) 50000 3 3
      else if s = STATUS_CHAMPION then statusRequirementsCore value get (LinesOpened STATUS_MASTER) 150000 10
      else if s = STATUS_BUSINESSMAN then statusRequirementsCore value get (LinesOpened STATUS_CHAMPION) 300000 50
      else if s = STATUS_PROFESSIONAL then statusRequirementsCore value get (LinesOpened STATUS_BUSINESSMAN) 700000 100
      else if s = STATUS_TOP_LEADER then statusRequirementsCore value get (LinesOpened STATUS_PROFESSIONAL) 1500000 300
      else if s = STATUS_ABSOLUTE_CHAMPION then statusRequirementsCore value get (LinesOpened STATUS_TOP_LEADER) 3000000 600
      else Panic nil_deref)"

definition checkStatusRequirements :: "status \<Rightarrow> info \<Rightarrow> (string \<Rightarrow> info) \<Rightarrow> check_result res" where
  "checkStatusRequirements s value get =
     (if s = STATUS_UNSPECIFIED then Ok \<lparr>Overall = True, Criteria = []\<rparr>
      else if r_Banished value then
        Ok \<lparr>Overall = False, Criteria = [\<lparr>Met = False, Rule = RULE_PARTICIPATE_IN_REFERRAL_PROGRAM,
              TargetValue = 1, ActualValue = 0, ParameterX = 0\<rparr>]\<rparr>
      else statusRequirements s value get)"

end
