(* ===== verification/Referral.thy ===== *)
theory Referral
  imports Referral_Types
begin

text \<open>
  The keeper of \<open>x/referral\<close>: the tree of accounts, the amounts and active counts every
  account keeps of its ten levels of descendants, statuses, compression, banishment and
  transitions. Changes go through \<open>bunchUpdater\<close>, which buffers records until \<open>commit\<close>;
  a state of the updater is the context together with the buffer. Writes to the status index
  and to the scheduler are immediate, as in the code.

  Loops that climb the chain of referrers take the bound \<open>rk_fuel\<close> of the keeper; running out
  of it is the panic \<open>out_of_fuel\<close>, which stands for a loop that never ends. It is shown below
  that on a chain that reaches the top in fewer steps the bound plays no role.
\<close>

section \<open>State\<close>

record ref_ctx = bank_ctx +
  ref_store :: "string \<rightharpoonup> info"
  ref_index :: "(int \<times> string) set"
  ref_params_store :: "ref_params option"

record 's ref_keeper =
  rk_bank :: "'s ref_ctx_ext bank_keeper"
  rk_hooks :: "(string \<times> (addr \<Rightarrow> 's ref_ctx_scheme \<Rightarrow> unit res \<times> 's ref_ctx_scheme)) list"
  rk_IsActiveValidator :: "addr \<Rightarrow> 's ref_ctx_scheme \<Rightarrow> bool res"
  rk_fuel :: nat

abbreviation rk_sdk :: "'s ref_keeper \<Rightarrow> sdk" where "rk_sdk k \<equiv> bk_sdk (rk_bank k)"

record bunch_updater =
  bu_data :: "(string \<times> info) list"
  bu_callbacks :: "(string \<times> string) list"

type_synonym 's bu_st = "'s ref_ctx_scheme \<times> bunch_updater"

definition StatusUpdatedCallback :: string where "StatusUpdatedCallback = ''status-updated''"
definition StakeChangedCallback :: string where "StakeChangedCallback = ''stake-changed''"
definition BanishedCallback :: string where "BanishedCallback = ''banished''"
definition StatusDowngradeHookName :: string where "StatusDowngradeHookName = ''referral/downgrade''"
definition CompressionHookName :: string where "CompressionHookName = ''referral/compression''"
definition TransitionTimeoutHookName :: string where
  "TransitionTimeoutHookName = ''referral/transition-timeout''"
definition BanishHookName :: string where "BanishHookName = ''referral/banish''"

definition ErrParentNil :: error where "ErrParentNil = Registered ''referral'' 1"
definition ErrRegistrationClosed :: error where "ErrRegistrationClosed = Registered ''referral'' 2"
definition ref_ErrNotFound :: error where "ref_ErrNotFound = Registered ''referral'' 3"
definition out_of_fuel :: error where "out_of_fuel = Text ''the loop does not end''"

section \<open>Records, parameters, balances\<close>

definition ref_Get :: "string \<Rightarrow> 's ref_ctx_scheme \<Rightarrow> info" where
  "ref_Get acc s = (case ref_store s acc of None \<Rightarrow> zero_info | Some r \<Rightarrow> r)"

definition ref_set :: "string \<Rightarrow> info \<Rightarrow> 's ref_ctx_scheme \<Rightarrow> 's ref_ctx_scheme" where
  "ref_set acc v s = s\<lparr>ref_store := (ref_store s)(acc \<mapsto> v)\<rparr>"

definition ref_exists :: "string \<Rightarrow> 's ref_ctx_scheme \<Rightarrow> bool" where
  "ref_exists acc s \<longleftrightarrow> ref_store s acc \<noteq> None"

definition zero_ref_params :: ref_params where
  "zero_ref_params = \<lparr>ForSubscription = [], TransitionPrice = 0\<rparr>"

definition ref_GetParams :: "'s ref_ctx_scheme \<Rightarrow> ref_params" where
  "ref_GetParams s = (case ref_params_store s of None \<Rightarrow> zero_ref_params | Some p \<Rightarrow> p)"

definition ref_SetParams :: "ref_params \<Rightarrow> 's ref_ctx_scheme \<Rightarrow> 's ref_ctx_scheme" where
  "ref_SetParams p s = s\<lparr>ref_params_store := Some p\<rparr>"

definition MarkIndexStore :: "'s ref_ctx_scheme \<Rightarrow> 's ref_ctx_scheme" where
  "MarkIndexStore s = s\<lparr>ref_index := insert (0, []) (ref_index s)\<rparr>"

definition GetStatus :: "string \<Rightarrow> 's ref_ctx_scheme \<Rightarrow> status" where
  "GetStatus acc s = r_Status (ref_Get acc s)"

definition GetParent :: "string \<Rightarrow> 's ref_ctx_scheme \<Rightarrow> string" where
  "GetParent acc s = r_Referrer (ref_Get acc s)"

definition GetChildren :: "string \<Rightarrow> 's ref_ctx_scheme \<Rightarrow> string list" where
  "GetChildren acc s = r_Referrals (ref_Get acc s)"

definition account_coins :: "'s ref_keeper \<Rightarrow> string \<Rightarrow> 's ref_ctx_scheme \<Rightarrow> coins res" where
  "account_coins k acc s =
     (case AccAddressFromBech32 (rk_sdk k) acc of
        None \<Rightarrow> Panic (Text ''invalid address'') | Some a \<Rightarrow> GetBalance (rk_bank k) a s)"

definition getBalance :: "'s ref_keeper \<Rightarrow> string \<Rightarrow> 's ref_ctx_scheme \<Rightarrow> int res" where
  "getBalance k acc s = bind_res (account_coins k acc s) (\<lambda>c.
     Ok (AmountOf (rk_sdk k) c ConfigMainDenom + AmountOf (rk_sdk k) c ConfigDelegatedDenom
         + AmountOf (rk_sdk k) c ConfigRevokingDenom))"

definition getDelegated :: "'s ref_keeper \<Rightarrow> string \<Rightarrow> 's ref_ctx_scheme \<Rightarrow> int res" where
  "getDelegated k acc s = bind_res (account_coins k acc s) (\<lambda>c.
     Ok (AmountOf (rk_sdk k) c ConfigDelegatedDenom))"

definition CompressionPeriod :: "'s ref_ctx_scheme \<Rightarrow> duration" where
  "CompressionPeriod s = wrap64 (2 * OneMonth s)"

definition StatusDowngradeAfter :: "'s ref_ctx_scheme \<Rightarrow> duration" where
  "StatusDowngradeAfter s = wrap64 (2 * OneDay s)"

definition ScheduleCompression ::
    "string \<Rightarrow> time \<Rightarrow> 's ref_ctx_scheme \<Rightarrow> unit res \<times> 's ref_ctx_scheme" where
  "ScheduleCompression acc compressionAt s = ScheduleTask compressionAt CompressionHookName acc s"

definition scheduleBanishment ::
    "string \<Rightarrow> info \<Rightarrow> 's ref_ctx_scheme \<Rightarrow> info res \<times> 's ref_ctx_scheme" where
  "scheduleBanishment acc value s =
     (let t = block_time s + OneMonth s
      in and_then (ScheduleTask t BanishHookName acc s)
           (\<lambda>_ s. (Ok (value\<lparr>r_BanishmentAt := Some t\<rparr>), s)))"

text \<open>\<open>setStatus\<close> keeps the index of accounts by status, from Businessman up.\<close>

definition setStatus ::
    "info \<Rightarrow> status \<Rightarrow> string \<Rightarrow> 's ref_ctx_scheme \<Rightarrow> info \<times> 's ref_ctx_scheme" where
  "setStatus target value acc s =
     (if r_Status target = value then (target, s)
      else
        let idx = (if r_Status target \<ge> minIndexedStatus
                   then ref_index s - {(r_Status target mod 256, acc)} else ref_index s);
            idx' = (if value \<ge> minIndexedStatus then insert (value mod 256, acc) idx else idx)
        in (target\<lparr>r_Status := value\<rparr>, s\<lparr>ref_index := idx'\<rparr>))"

section \<open>Callbacks\<close>

definition callback ::
    "'s ref_keeper \<Rightarrow> string \<Rightarrow> string \<Rightarrow> 's ref_ctx_scheme \<Rightarrow> unit res \<times> 's ref_ctx_scheme" where
  "callback k eventName acc s =
     for_each (map snd (filter (\<lambda>h. fst h = eventName) (rk_hooks k)))
       (\<lambda>hook s. case AccAddressFromBech32 (rk_sdk k) acc of
          None \<Rightarrow> (Err (Text ''invalid account address''), s) | Some a \<Rightarrow> hook a s) s"

section \<open>The bunch updater\<close>

definition newBunchUpdater :: bunch_updater where
  "newBunchUpdater = \<lparr>bu_data = [], bu_callbacks = []\<rparr>"

text \<open>A record already buffered is overwritten in place, a new one goes to the end.\<close>

definition put_data :: "string \<Rightarrow> info \<Rightarrow> (string \<times> info) list \<Rightarrow> (string \<times> info) list" where
  "put_data acc v ds =
     (if acc \<in> set (map fst ds) then map (\<lambda>d. if fst d = acc then (acc, v) else d) ds
      else ds @ [(acc, v)])"

definition bu_set :: "string \<Rightarrow> info \<Rightarrow> 's bu_st \<Rightarrow> 's bu_st" where
  "bu_set acc v st = (fst st, (snd st)\<lparr>bu_data := put_data acc v (bu_data (snd st))\<rparr>)"

definition bu_get :: "'s bu_st \<Rightarrow> string \<Rightarrow> info" where
  "bu_get st acc = (case map_of (bu_data (snd st)) acc of Some v \<Rightarrow> v | None \<Rightarrow> ref_Get acc (fst st))"

definition addCallback :: "string \<Rightarrow> string \<Rightarrow> 's bu_st \<Rightarrow> 's bu_st" where
  "addCallback eventName acc st =
     (fst st, (snd st)\<lparr>bu_callbacks := bu_callbacks (snd st) @ [(eventName, acc)]\<rparr>)"

text \<open>An operation on the context alone, inside the updater.\<close>

definition on_ctx :: "('c \<Rightarrow> 'a res \<times> 'c) \<Rightarrow> 'c \<times> bunch_updater \<Rightarrow> 'a res \<times> ('c \<times> bunch_updater)" where
  "on_ctx f st = (fst (f (fst st)), (snd (f (fst st)), snd st))"

definition EventStatusUpdated :: "string \<Rightarrow> status \<Rightarrow> status \<Rightarrow> event" where
  "EventStatusUpdated acc before after = (''status_updated'', [AStr acc, AInt before, AInt after])"

text \<open>Emitting the event, changing the status and registering the callback.\<close>

definition change_status :: "string \<Rightarrow> info \<Rightarrow> status \<Rightarrow> 's bu_st \<Rightarrow> info \<times> 's bu_st" where
  "change_status acc value next st =
     (let s1 = emit (EventStatusUpdated acc (r_Status value) next) (fst st);
          vs = setStatus value next acc s1
      in (fst vs, addCallback StatusUpdatedCallback acc (snd vs, snd st)))"

text \<open>The loop that looks for the highest status whose requirements are met.\<close>

fun climb_status :: "nat \<Rightarrow> status \<Rightarrow> info \<Rightarrow> (string \<Rightarrow> info) \<Rightarrow> status res" where
  "climb_status 0 nextStatus value get = Ok nextStatus"
| "climb_status (Suc n) nextStatus value get =
     (if nextStatus = MaximumStatus then Ok nextStatus
      else
        let up = (if nextStatus + 1 = HeroDeprecatedStatus then nextStatus + 2 else nextStatus + 1)
        in bind_res (checkStatusRequirements up value get) (\<lambda>checkResult.
             if \<not> Overall checkResult
             then Ok (if up - 1 = HeroDeprecatedStatus then up - 2 else up - 1)
             else climb_status n up value get))"

definition downgrade_later :: "string \<Rightarrow> info \<Rightarrow> 's bu_st \<Rightarrow> info res \<times> 's bu_st" where
  "downgrade_later acc value st =
     (if r_StatusDowngradeAt value = None then
        let downgradeAt = block_time (fst st) + StatusDowngradeAfter (fst st)
        in and_then (on_ctx (ScheduleTask downgradeAt StatusDowngradeHookName acc) st) (\<lambda>_ st.
             (Ok (value\<lparr>r_StatusDowngradeAt := Some downgradeAt\<rparr>),
              (emit (''status_will_be_downgraded'', [AStr acc, AInt downgradeAt]) (fst st), snd st)))
      else (Ok value, st))"

definition cancel_downgrade :: "string \<Rightarrow> info \<Rightarrow> 's bu_st \<Rightarrow> info \<times> 's bu_st" where
  "cancel_downgrade acc value st =
     (if r_StatusDowngradeAt value \<noteq> None
      then (value\<lparr>r_StatusDowngradeAt := None\<rparr>,
            (emit (''status_downgrade_canceled'', [AStr acc]) (fst st), snd st))
      else (value, st))"

definition promote :: "string \<Rightarrow> info \<Rightarrow> 's bu_st \<Rightarrow> info res \<times> 's bu_st" where
  "promote acc value st =
     and_then (lift_res (climb_status 10 (r_Status value) value (bu_get st)) st) (\<lambda>nextStatus st.
       if nextStatus > r_Status value
       then (Ok (fst (change_status acc value nextStatus st)), snd (change_status acc value nextStatus st))
       else (Ok value, st))"

definition upgrade_now :: "string \<Rightarrow> info \<Rightarrow> 's bu_st \<Rightarrow> info res \<times> 's bu_st" where
  "upgrade_now acc value st =
     promote acc (fst (cancel_downgrade acc value st)) (snd (cancel_downgrade acc value st))"

definition status_update :: "string \<Rightarrow> info \<Rightarrow> 's bu_st \<Rightarrow> info res \<times> 's bu_st" where
  "status_update acc value st =
     (let vs = (if r_Status value = HeroDeprecatedStatus
                then change_status acc value (r_Status value + 1) st else (value, st));
          v = fst vs; st1 = snd vs
      in and_then (lift_res (checkStatusRequirements (r_Status v) v (bu_get st1)) st1)
           (\<lambda>checkResult st. if \<not> Overall checkResult then downgrade_later acc v st
                               else upgrade_now acc v st))"

text \<open>
  \<open>bunchUpdater.update\<close>: the callback gets the normalised record and returns it changed,
  together with what the Go closure leaves in the variables around it; a panic anywhere inside
  becomes an error, and then the record is not buffered.
\<close>

definition bu_update ::
    "string \<Rightarrow> bool \<Rightarrow> (info \<Rightarrow> 's bu_st \<Rightarrow> ('x \<times> info) res \<times> 's bu_st) \<Rightarrow> 's bu_st \<Rightarrow> 'x res \<times> 's bu_st" where
  "bu_update acc checkForStatusUpdate cb st = recover_err (
     and_then (cb (Normalize (bu_get st acc)) st) (\<lambda>xv st.
     and_then (if checkForStatusUpdate then status_update acc (snd xv) st else (Ok (snd xv), st))
       (\<lambda>value st. (Ok (fst xv), bu_set acc value st))))"

definition write_data :: "(string \<times> info) list \<Rightarrow> 's ref_ctx_scheme \<Rightarrow> 's ref_ctx_scheme" where
  "write_data ds s = fold (\<lambda>d. ref_set (fst d) (snd d)) ds s"

text \<open>Callbacks are sorted by account, then event; repeated ones are called once.\<close>

definition bu_commit :: "'s ref_keeper \<Rightarrow> 's bu_st \<Rightarrow> unit res \<times> 's ref_ctx_scheme" where
  "bu_commit k st =
     for_each (remdups_adj (sort_key snd (sort_key fst (bu_callbacks (snd st)))))
       (\<lambda>cb s. callback k (fst cb) (snd cb) s) (write_data (bu_data (snd st)) (fst st))"

text \<open>Committing what an updater has gathered, when it came through without error.\<close>

definition commit_after ::
    "'s ref_keeper \<Rightarrow> 'a res \<times> 's bu_st \<Rightarrow> 'a res \<times> 's ref_ctx_scheme" where
  "commit_after k r = (case r of
      (Ok v, st) \<Rightarrow> and_then (bu_commit k st) (\<lambda>_ s. (Ok v, s))
    | (Err e, st) \<Rightarrow> (Err e, fst st)
    | (Panic e, st) \<Rightarrow> (Panic e, fst st))"

definition with_bu ::
    "'s ref_keeper \<Rightarrow> ('s bu_st \<Rightarrow> 'a res \<times> 's bu_st) \<Rightarrow> 's ref_ctx_scheme \<Rightarrow> 'a res \<times> 's ref_ctx_scheme" where
  "with_bu k f s = commit_after k (f (s, newBunchUpdater))"

section \<open>Amounts of the levels\<close>

definition add_at :: "nat \<Rightarrow> 'a::plus \<Rightarrow> 'a list \<Rightarrow> 'a list" where
  "add_at i x xs = xs[i := xs ! i + x]"

definition credit :: "nat \<Rightarrow> int \<Rightarrow> int \<Rightarrow> info \<Rightarrow> info" where
  "credit lvl c d v = v\<lparr>r_Coins := add_at lvl c (r_Coins v), r_Delegated := add_at lvl d (r_Delegated v)\<rparr>"

text \<open>
  The loops over the ancestors of an account, one level up at a time: at level \<open>lvl\<close> the
  ancestor's record is changed by \<open>f lvl\<close>, with the callbacks \<open>note\<close> registers. Every such
  loop of the code takes the next ancestor from the record it has just changed.
\<close>

fun walk_up :: "(nat \<Rightarrow> info \<Rightarrow> info) \<Rightarrow> bool \<Rightarrow> (string \<Rightarrow> 's bu_st \<Rightarrow> 's bu_st) \<Rightarrow>
    nat list \<Rightarrow> string \<Rightarrow> 's bu_st \<Rightarrow> unit res \<times> 's bu_st" where
  "walk_up f check note [] anc st = (Ok (), st)"
| "walk_up f check note (lvl # lvls) anc st =
     (if anc = [] then (Ok (), st)
      else
        and_then (bu_update anc check (\<lambda>value st.
            (Ok (r_Referrer value, f lvl value), note anc st)) st)
          (\<lambda>next st. walk_up f check note lvls next st))"

definition note_stake :: "bool \<Rightarrow> string \<Rightarrow> 's bu_st \<Rightarrow> 's bu_st" where
  "note_stake cb anc st = (if cb then addCallback StakeChangedCallback anc st else st)"

text \<open>Each ancestor gets the two amounts at its level.\<close>

definition credit_levels :: "bool \<Rightarrow> int \<Rightarrow> int \<Rightarrow> nat list \<Rightarrow> string \<Rightarrow> 's bu_st \<Rightarrow> unit res \<times> 's bu_st" where
  "credit_levels cb c d lvls anc st = walk_up (\<lambda>lvl. credit lvl c d) True (note_stake cb) lvls anc st"

section \<open>Joining the tree\<close>

definition AddTopLevelAccount ::
    "'s ref_keeper \<Rightarrow> string \<Rightarrow> 's ref_ctx_scheme \<Rightarrow> unit res \<times> 's ref_ctx_scheme" where
  "AddTopLevelAccount k acc s = recover_err (
     if ref_exists acc s then (Err ErrInvalidRequest, s)
     else
       and_then (lift_res (getBalance k acc s) s) (\<lambda>coins s.
       and_then (lift_res (getDelegated k acc s) s) (\<lambda>delegated s.
       with_bu k (\<lambda>st. (Ok (), bu_set acc (NewInfo [] coins delegated) st)) s)))"

definition appendChild_core ::
    "string \<Rightarrow> string \<Rightarrow> bool \<Rightarrow> int \<Rightarrow> int \<Rightarrow> info \<Rightarrow> 's bu_st \<Rightarrow> unit res \<times> 's bu_st" where
  "appendChild_core parentAcc childAcc skipActivityCheck coins delegated newItem st =
     and_then (bu_update parentAcc True (\<lambda>value st.
         (let v = credit 1 coins delegated value;
              v' = v\<lparr>r_Referrals := r_Referrals v @ [childAcc]\<rparr>
          in (Ok ((r_Referrer v', \<not> skipActivityCheck \<and> RegistrationClosed v' (fst st)), v'),
              addCallback StakeChangedCallback parentAcc st)))
         (bu_set childAcc newItem st)) (\<lambda>(anc, registrationClosed) st.
     if registrationClosed then (Err ErrRegistrationClosed, st)
     else credit_levels True coins delegated [2..<11] anc st)"

definition appendChild ::
    "'s ref_keeper \<Rightarrow> string \<Rightarrow> string \<Rightarrow> bool \<Rightarrow> bool \<Rightarrow> 's ref_ctx_scheme \<Rightarrow> unit res \<times> 's ref_ctx_scheme" where
  "appendChild k parentAcc childAcc skipActivityCheck setCompressionTime s =
     (if parentAcc = [] then (Err ErrParentNil, s)
      else if ref_exists childAcc s then (Err ErrInvalidRequest, s)
      else
        and_then (lift_res (getBalance k childAcc s) s) (\<lambda>coins s.
        and_then (lift_res (getDelegated k childAcc s) s) (\<lambda>delegated s.
        let newItem = (NewInfo parentAcc coins delegated)\<lparr>r_CompressionAt :=
              (if setCompressionTime then Some (block_time s + CompressionPeriod s) else None)\<rparr>
        in with_bu k (appendChild_core parentAcc childAcc skipActivityCheck coins delegated newItem) s)))"

definition AppendChild ::
    "'s ref_keeper \<Rightarrow> string \<Rightarrow> string \<Rightarrow> 's ref_ctx_scheme \<Rightarrow> unit res \<times> 's ref_ctx_scheme" where
  "AppendChild k parentAcc childAcc s = appendChild k parentAcc childAcc False True s"

section \<open>Compression\<close>

definition zero_levels :: "int list \<Rightarrow> int list" where
  "zero_levels xs = hd xs # replicate 10 0"

definition compress_self ::
    "'s ref_keeper \<Rightarrow> string \<Rightarrow> info \<Rightarrow> 's bu_st \<Rightarrow> (info \<times> info) res \<times> 's bu_st" where
  "compress_self k acc value st =
     (if r_Referrer value = [] then (Err (Text ''must not compress: top level account''), st)
      else
        let v = value\<lparr>r_Referrals := [], r_ActiveReferrals := [], r_ActiveRefCounts := replicate 11 0,
                  r_Coins := zero_levels (r_Coins value), r_Delegated := zero_levels (r_Delegated value),
                  r_CompressionAt := None\<rparr>;
            st1 = addCallback StakeChangedCallback acc st;
            vs = setStatus v STATUS_LUCKY acc (fst st1);
            st2 = addCallback StatusUpdatedCallback acc (snd vs, snd st1)
        in and_then (lift_res (Int64 (hd (r_Delegated value))) st2) (\<lambda>d0 st.
             if d0 \<le> DustDelegation (bank_GetParams (fst st))
             then and_then (on_ctx (scheduleBanishment acc (fst vs)) st) (\<lambda>v st. (Ok (value, v), st))
             else (Ok (value, fst vs), st)))"

text \<open>
  What the ancestor \<open>k\<close> levels above gets: the children's level-1 amounts at level \<open>k\<close>, and
  the difference of adjacent levels at the levels \<open>k + i\<close> with \<open>i < 10 - k\<close>.
\<close>

definition compress_levels :: "nat \<Rightarrow> ('a::{plus,minus}) list \<Rightarrow> 'a list \<Rightarrow> 'a list" where
  "compress_levels lvl old xs =
     fold (\<lambda>i ys. ys[lvl + i := ys ! (lvl + i) + old ! (i + 1) - old ! i]) [1..<10 - lvl]
       (add_at lvl (old ! 1) xs)"

definition compress_ancestor :: "nat \<Rightarrow> info \<Rightarrow> info \<Rightarrow> info" where
  "compress_ancestor lvl old value =
     (let v = value\<lparr>r_Coins := compress_levels lvl (r_Coins old) (r_Coins value),
                r_Delegated := compress_levels lvl (r_Delegated old) (r_Delegated value),
                r_ActiveRefCounts := compress_levels lvl (r_ActiveRefCounts old) (r_ActiveRefCounts value)\<rparr>
      in if lvl = 1 then v\<lparr>r_Referrals := r_Referrals v @ r_Referrals old,
             r_ActiveReferrals := MergeStringsSorted (r_ActiveReferrals v) (r_ActiveReferrals old)\<rparr>
         else v)"

definition compress_ancestors :: "info \<Rightarrow> nat list \<Rightarrow> string \<Rightarrow> 's bu_st \<Rightarrow> unit res \<times> 's bu_st" where
  "compress_ancestors old lvls anc st =
     walk_up (\<lambda>lvl. compress_ancestor lvl old) True (note_stake True) lvls anc st"

definition compress_core :: "'s ref_keeper \<Rightarrow> string \<Rightarrow> 's bu_st \<Rightarrow> unit res \<times> 's bu_st" where
  "compress_core k acc st =
     and_then (bu_update acc False (compress_self k acc) st) (\<lambda>old st.
     and_then (for_each (r_Referrals old) (\<lambda>child st.
         bu_update child False (\<lambda>value st. (Ok ((), value\<lparr>r_Referrer := r_Referrer old\<rparr>), st)) st) st) (\<lambda>_ st.
     and_then (compress_ancestors old [1..<11] (r_Referrer old) st) (\<lambda>_ st.
     (Ok (), (emit (''compression'', [AStr acc, AStr (r_Referrer old), AStrs (r_Referrals old)]) (fst st),
              snd st)))))"

definition Compress :: "'s ref_keeper \<Rightarrow> string \<Rightarrow> 's ref_ctx_scheme \<Rightarrow> unit res \<times> 's ref_ctx_scheme" where
  "Compress k acc s = with_bu k (compress_core k acc) s"

section \<open>Amounts in a network\<close>

definition GetCoinsInNetwork :: "string \<Rightarrow> int \<Rightarrow> 's ref_ctx_scheme \<Rightarrow> int res" where
  "GetCoinsInNetwork acc maxDepth s =
     (let m = (if maxDepth \<le> 0 then 10 else maxDepth);
          r = ref_Get acc s; d = LinesOpened (r_Status r)
      in CoinsAtLevelsUpTo r (if d > m then m else d))"

definition GetDelegatedInNetwork :: "string \<Rightarrow> int \<Rightarrow> 's ref_ctx_scheme \<Rightarrow> int res" where
  "GetDelegatedInNetwork acc maxDepth s =
     (let r = ref_Get acc s; d = LinesOpened (r_Status r)
      in DelegatedAtLevelsUpTo r (if d > maxDepth then maxDepth else d))"

definition AreStatusRequirementsFulfilled :: "string \<Rightarrow> status \<Rightarrow> 's ref_ctx_scheme \<Rightarrow> check_result res" where
  "AreStatusRequirementsFulfilled acc x s =
     bind_res (status_Validate x) (\<lambda>_.
       checkStatusRequirements x (ref_Get acc s) (bu_get (s, newBunchUpdater)))"

section \<open>Leaving and returning\<close>

fun open_ancestor :: "nat \<Rightarrow> (string \<Rightarrow> info) \<Rightarrow> (info \<Rightarrow> bool) \<Rightarrow> string \<Rightarrow> string res" where
  "open_ancestor n get shut [] = Ok []"
| "open_ancestor 0 get shut (c # cs) = Panic out_of_fuel"
| "open_ancestor (Suc n) get shut (c # cs) =
     (let p = get (c # cs)
      in if \<not> shut p then Ok (c # cs) else open_ancestor n get shut (r_Referrer p))"

text \<open>Under the parent again: a referral, and the amounts at its ten levels of ancestors.\<close>

definition attach :: "string \<Rightarrow> string \<Rightarrow> int \<Rightarrow> int \<Rightarrow> 's bu_st \<Rightarrow> unit res \<times> 's bu_st" where
  "attach acc parent c d st =
     and_then (if parent = [] then (Ok [], st)
       else bu_update parent True (\<lambda>value st.
         (let v = value\<lparr>r_Referrals := r_Referrals value @ [acc]\<rparr>
          in (Ok (r_Referrer value, credit 1 c d v), st))) st) (\<lambda>p2 st.
     if p2 = [] \<or> c = 0 \<and> d = 0 then (Ok (), st) else credit_levels False c d [2..<11] p2 st)"

definition detach :: "string \<Rightarrow> string \<Rightarrow> int \<Rightarrow> int \<Rightarrow> 's bu_st \<Rightarrow> unit res \<times> 's bu_st" where
  "detach acc parent c d st =
     and_then (if parent = [] then (Ok [], st)
       else bu_update parent True (\<lambda>value st.
         (let v = value\<lparr>r_Referrals := fst (RemoveStringFast (r_Referrals value) acc)\<rparr>
          in (Ok (r_Referrer value, credit 1 (- c) (- d) v), st))) st) (\<lambda>p2 st.
     if p2 = [] \<or> c = 0 \<and> d = 0 then (Ok (), st) else credit_levels False (- c) (- d) [2..<11] p2 st)"

definition obc_come_back ::
    "'s ref_keeper \<Rightarrow> string \<Rightarrow> info \<Rightarrow> 's bu_st \<Rightarrow> info res \<times> 's bu_st" where
  "obc_come_back k acc value st =
     and_then (lift_res (open_ancestor (rk_fuel k) (bu_get st)
         (\<lambda>p. RegistrationClosed p (fst st)) (r_Referrer value)) st) (\<lambda>parent st.
     let v = value\<lparr>r_Referrer := parent, r_Banished := False, r_Status := STATUS_LUCKY\<rparr>
     in and_then (attach acc parent (r_Coins value ! 0) (r_Delegated value ! 0) st) (\<lambda>_ st. (Ok v, st)))"

definition obc_stake ::
    "'s ref_keeper \<Rightarrow> string \<Rightarrow> int \<Rightarrow> info \<Rightarrow> 's bu_st \<Rightarrow> info res \<times> 's bu_st" where
  "obc_stake k acc newDelegated value st =
     (if r_Active value then (Ok value, st)
      else and_then (lift_res (Int64 newDelegated) st) (\<lambda>nd st.
        if nd \<le> DustDelegation (bank_GetParams (fst st)) then
          (if r_Referrer value \<noteq> [] \<and> \<not> r_Banished value \<and> r_BanishmentAt value = None
              \<and> (case r_CompressionAt value of None \<Rightarrow> True | Some c \<Rightarrow> block_time (fst st) > c)
           then on_ctx (scheduleBanishment acc value) st
           else (Ok value, st))
        else
          and_then (case r_BanishmentAt value of
              None \<Rightarrow> (Ok value, st)
            | Some t \<Rightarrow> and_then (on_ctx (Delete t BanishHookName acc) st)
                (\<lambda>_ st. (Ok (value\<lparr>r_BanishmentAt := None\<rparr>), st))) (\<lambda>value st.
          if r_Banished value then obc_come_back k acc value st else (Ok value, st))))"

definition obc_self ::
    "'s ref_keeper \<Rightarrow> string \<Rightarrow> info \<Rightarrow> 's bu_st \<Rightarrow> ((string \<times> bool \<times> int \<times> int) \<times> info) res \<times> 's bu_st" where
  "obc_self k acc value st =
     (if IsEmpty value then (Err ref_ErrNotFound, st)
      else
        and_then (lift_res (getBalance k acc (fst st)) st) (\<lambda>newBalance st.
        and_then (lift_res (getDelegated k acc (fst st)) st) (\<lambda>newDelegated st.
        let dc = newBalance - r_Coins value ! 0; dd = newDelegated - r_Delegated value ! 0
        in and_then (if dd = 0 then (Ok value, st)
             else obc_stake k acc newDelegated value (addCallback StakeChangedCallback acc st)) (\<lambda>v st.
           (Ok ((r_Referrer v, r_Banished v, dc, dd),
                v\<lparr>r_Coins := (r_Coins v)[0 := newBalance], r_Delegated := (r_Delegated v)[0 := newDelegated]\<rparr>),
            st)))))"

text \<open>An account out of the referral is not an error for the caller.\<close>

definition OnBalanceChanged ::
    "'s ref_keeper \<Rightarrow> string \<Rightarrow> 's ref_ctx_scheme \<Rightarrow> unit res \<times> 's ref_ctx_scheme" where
  "OnBalanceChanged k acc s =
     (case bu_update acc True (obc_self k acc) (s, newBunchUpdater) of
        (Err e, st) \<Rightarrow> (if e = ref_ErrNotFound then Ok () else Err e, fst st)
      | (Panic e, st) \<Rightarrow> (Panic e, fst st)
      | (Ok (node, banished, dc, dd), st) \<Rightarrow>
          commit_after k
            (if banished then (Ok (), st) else credit_levels (dd \<noteq> 0) dc dd [1..<11] node st))"

definition Banish_self ::
    "'s ref_keeper \<Rightarrow> info \<Rightarrow> 's bu_st \<Rightarrow> (info \<times> info) res \<times> 's bu_st" where
  "Banish_self k value st =
     (if r_Referrer value = [] then (Err (Text ''must not banish: top level account''), st)
      else if r_Active value then (Err (Text ''must not banish: account is active''), st)
      else and_then (lift_res (Int64 (r_Delegated value ! 0)) st) (\<lambda>d st.
        if d > DustDelegation (bank_GetParams (fst st))
        then (Err (Text ''must not banish: delegation''), st)
        else (Ok (value, value\<lparr>r_Banished := True, r_Status := STATUS_UNSPECIFIED,
               r_CompressionAt := None, r_StatusDowngradeAt := None, r_BanishmentAt := None\<rparr>), st)))"

definition banish_core :: "'s ref_keeper \<Rightarrow> string \<Rightarrow> 's bu_st \<Rightarrow> unit res \<times> 's bu_st" where
  "banish_core k acc st =
     and_then (bu_update acc False (Banish_self k) st) (\<lambda>old st.
     if r_Banished old then (Err (Text ''already banished''), st)
     else detach acc (r_Referrer old) (r_Coins old ! 0) (r_Delegated old ! 0) st)"

definition Banish :: "'s ref_keeper \<Rightarrow> string \<Rightarrow> 's ref_ctx_scheme \<Rightarrow> unit res \<times> 's ref_ctx_scheme" where
  "Banish k acc s =
     and_then (with_bu k (banish_core k acc) s) (\<lambda>_ s.
     and_then (callback k BanishedCallback acc s) (\<lambda>_ s.
     (Ok (), emit (''acc_banished'', [AStr acc]) s)))"

definition come_back_self ::
    "'s ref_keeper \<Rightarrow> info \<Rightarrow> 's bu_st \<Rightarrow> (info \<times> info) res \<times> 's bu_st" where
  "come_back_self k value st =
     and_then (lift_res (open_ancestor (rk_fuel k) (bu_get st)
         (\<lambda>p. RegistrationClosed p (fst st)) (r_Referrer value)) st) (\<lambda>parent st.
     let v = value\<lparr>r_Referrer := parent, r_Banished := False, r_BanishmentAt := None,
               r_CompressionAt := None, r_Status := STATUS_LUCKY\<rparr>
     in (Ok (v, v), st))"

definition come_back_core :: "'s ref_keeper \<Rightarrow> string \<Rightarrow> 's bu_st \<Rightarrow> unit res \<times> 's bu_st" where
  "come_back_core k acc st =
     and_then (bu_update acc False (come_back_self k) st) (\<lambda>v st.
     attach acc (r_Referrer v) (r_Coins v ! 0) (r_Delegated v ! 0) st)"

definition ComeBack :: "'s ref_keeper \<Rightarrow> string \<Rightarrow> 's ref_ctx_scheme \<Rightarrow> unit res \<times> 's ref_ctx_scheme" where
  "ComeBack k acc s = with_bu k (come_back_core k acc) s"

section \<open>Activity\<close>

definition set_active_self ::
    "string \<Rightarrow> bool \<Rightarrow> info \<Rightarrow> 's bu_st \<Rightarrow> ((bool \<times> string) \<times> info) res \<times> 's bu_st" where
  "set_active_self acc value x st =
     (if r_Active x = value then (Ok ((True, []), x), st)
      else
        let x1 = x\<lparr>r_Active := value,
               r_ActiveRefCounts := add_at 0 (if value then 1 else - 1) (r_ActiveRefCounts x),
               r_CompressionAt := (if value then None
                 else Some (block_time (fst st) + CompressionPeriod (fst st)))\<rparr>
        in (case (value, r_BanishmentAt x1) of
              (True, Some t) \<Rightarrow> and_then (on_ctx (Delete t BanishHookName acc) st)
                (\<lambda>_ st. (Ok ((False, r_Referrer x1), x1\<lparr>r_BanishmentAt := None\<rparr>), st))
            | _ \<Rightarrow> (Ok ((False, r_Referrer x1), x1), st)))"

text \<open>
  The counters of the level, and for the parent the list of active referrals. Level \<open>i + 1\<close>
  of the code is \<open>lvl\<close>.
\<close>

definition active_level :: "string \<Rightarrow> bool \<Rightarrow> nat \<Rightarrow> info \<Rightarrow> info" where
  "active_level acc value lvl x =
     (let refs = (if lvl \<noteq> 1 then r_ActiveReferrals x
            else if value then fst (AddStringSorted (r_ActiveReferrals x) acc)
            else fst (RemoveStringPreserveOrder (r_ActiveReferrals x) acc))
      in x\<lparr>r_ActiveReferrals := refs,
           r_ActiveRefCounts := add_at lvl (if value then 1 else - 1) (r_ActiveRefCounts x)\<rparr>)"

definition set_active_levels ::
    "string \<Rightarrow> bool \<Rightarrow> bool \<Rightarrow> nat list \<Rightarrow> string \<Rightarrow> 's bu_st \<Rightarrow> unit res \<times> 's bu_st" where
  "set_active_levels acc value check lvls anc st =
     walk_up (active_level acc value) check (\<lambda>anc st. st) lvls anc st"

definition SetActive ::
    "'s ref_keeper \<Rightarrow> string \<Rightarrow> bool \<Rightarrow> bool \<Rightarrow> 's ref_ctx_scheme \<Rightarrow> unit res \<times> 's ref_ctx_scheme" where
  "SetActive k acc value check s =
     (case bu_update acc False (set_active_self acc value) (s, newBunchUpdater) of
        (Err e, st) \<Rightarrow> (Err e, fst st)
      | (Panic e, st) \<Rightarrow> (Panic e, fst st)
      | (Ok (valueIsAlreadySet, parent), st) \<Rightarrow>
          if valueIsAlreadySet then (Ok (), fst st)
          else commit_after k (
            and_then (set_active_levels acc value check [1..<11] parent st) (\<lambda>_ st.
            if parent \<noteq> [] \<and> \<not> value
            then on_ctx (\<lambda>s. ScheduleCompression acc (block_time s + CompressionPeriod s) s) st
            else (Ok (), st))))"

definition MustSetActive ::
    "'s ref_keeper \<Rightarrow> string \<Rightarrow> bool \<Rightarrow> 's ref_ctx_scheme \<Rightarrow> unit res \<times> 's ref_ctx_scheme" where
  "MustSetActive k acc value s = must (SetActive k acc value True s)"

definition MustSetActiveWithoutStatusUpdate ::
    "'s ref_keeper \<Rightarrow> string \<Rightarrow> bool \<Rightarrow> 's ref_ctx_scheme \<Rightarrow> unit res \<times> 's ref_ctx_scheme" where
  "MustSetActiveWithoutStatusUpdate k acc value s = must (SetActive k acc value False s)"

definition Iterate ::
    "'s ref_keeper \<Rightarrow> (string \<Rightarrow> info \<Rightarrow> info \<times> bool \<times> bool) \<Rightarrow> 's ref_ctx_scheme \<Rightarrow> unit res \<times> 's ref_ctx_scheme" where
  "Iterate k cb s = must (with_bu k (\<lambda>st.
     for_each (store_items (ref_store s)) (\<lambda>(acc, item) st.
       (case cb acc item of (item', changed, check) \<Rightarrow>
          if changed \<or> check
          then bu_update acc check (\<lambda>r st. (Ok ((), if changed then item' else r), st)) st
          else (Ok (), st))) st) s)"

section \<open>Transitions\<close>

fun walk_to_root :: "nat \<Rightarrow> (string \<Rightarrow> info) \<Rightarrow> string \<Rightarrow> string \<Rightarrow> unit res" where
  "walk_to_root n get subject [] = Ok ()"
| "walk_to_root 0 get subject (c # cs) = Panic out_of_fuel"
| "walk_to_root (Suc n) get subject (c # cs) =
     (if c # cs = subject then Err (Text ''cycles are not allowed'')
      else walk_to_root n get subject (r_Referrer (get (c # cs))))"

definition validateTransition ::
    "'s ref_keeper \<Rightarrow> string \<Rightarrow> string \<Rightarrow> bool \<Rightarrow> 's ref_ctx_scheme \<Rightarrow> unit res" where
  "validateTransition k subject newParent fresh s =
     (let r = ref_Get subject s; p = ref_Get newParent s
      in if AccAddressFromBech32 (rk_sdk k) subject = None then Err (Text ''invalid subject address'')
         else if AccAddressFromBech32 (rk_sdk k) newParent = None then Err (Text ''invalid destination address'')
         else if subject = newParent then Err (Text ''subject cannot be their own referral'')
         else if fresh \<and> r_Transition r \<noteq> [] then Err (Text ''transition is already requested'')
         else if \<not> fresh \<and> r_Transition r \<noteq> newParent then Err (Text ''new parent address mismatch'')
         else if r_Referrer r = newParent then Err (Text ''destination address is already the referrer'')
         else if RegistrationClosed p s then Err ErrRegistrationClosed
         else walk_to_root (rk_fuel k) (\<lambda>a. ref_Get a s) subject (r_Referrer p))"

definition FeeCollectorName :: string where "FeeCollectorName = ''fee_collector''"

definition RequestTransition ::
    "'s ref_keeper \<Rightarrow> string \<Rightarrow> string \<Rightarrow> 's ref_ctx_scheme \<Rightarrow> unit res \<times> 's ref_ctx_scheme" where
  "RequestTransition k subject newParent s =
     and_then (lift_res (validateTransition k subject newParent True s) s) (\<lambda>_ s.
     and_then (if TransitionPrice (ref_GetParams s) > 0 then
         (case AccAddressFromBech32 (rk_sdk k) subject of
            None \<Rightarrow> (Err (Text ''invalid subject address''), s)
          | Some a \<Rightarrow>
              and_then (lift_res (UartrsUint64 (rk_sdk k) (TransitionPrice (ref_GetParams s))) s) (\<lambda>price s.
              SendCoinsFromAccountToModule (rk_bank k) a FeeCollectorName price s))
       else (Ok (), s)) (\<lambda>_ s.
     let r = ref_Get subject s
     in and_then (ScheduleTask (block_time s + OneDay s) TransitionTimeoutHookName subject
            (ref_set subject (r\<lparr>r_Transition := newParent\<rparr>) s)) (\<lambda>_ s.
        (Ok (), emit (''transition_requested'', [AStr subject, AStr (r_Referrer r), AStr newParent]) s))))"

definition CancelTransition ::
    "string \<Rightarrow> bool \<Rightarrow> 's ref_ctx_scheme \<Rightarrow> unit res \<times> 's ref_ctx_scheme" where
  "CancelTransition subject timeout s =
     (let r = ref_Get subject s
      in (Ok (), emit (''transition_declined'', [AStr subject, AStr (r_Referrer r), AStr (r_Transition r),
            AInt (if timeout then 2 else 1)]) (ref_set subject (r\<lparr>r_Transition := []\<rparr>) s)))"

text \<open>
  \<open>xs[i] = f(xs[i], ys[i-level])\<close> for \<open>i\<close> from \<open>level\<close> to 10; the record \<open>ys\<close> comes from is
  read as stored, so a shorter list is an index out of range.
\<close>

definition from_level :: "nat \<Rightarrow> ('a \<Rightarrow> 'a \<Rightarrow> 'a) \<Rightarrow> 'a list \<Rightarrow> 'a list \<Rightarrow> 'a list" where
  "from_level level f xs ys =
     map (\<lambda>i. if level \<le> i \<and> i \<le> 10 then f (xs ! i) (ys ! (i - level)) else xs ! i) [0..<length xs]"

definition graft :: "nat \<Rightarrow> bool \<Rightarrow> info \<Rightarrow> info \<Rightarrow> info res" where
  "graft level gain r v =
     (if length (r_Coins r) < 11 - level \<or> length (r_Delegated r) < 11 - level
         \<or> length (r_ActiveRefCounts r) < 11 - level
      then Panic index_out_of_range
      else Ok (v\<lparr>
        r_Coins := from_level level (if gain then (+) else (-)) (r_Coins v) (r_Coins r),
        r_Delegated := from_level level (if gain then (+) else (-)) (r_Delegated v) (r_Delegated r),
        r_ActiveRefCounts := from_level level (if gain then (+) else (-)) (r_ActiveRefCounts v)
          (r_ActiveRefCounts r)\<rparr>))"

definition cut_referral :: "string \<Rightarrow> info \<Rightarrow> info \<Rightarrow> info res" where
  "cut_referral subject r v =
     (case index_of subject (r_Referrals v) of
        None \<Rightarrow> Panic index_out_of_range
      | Some idx \<Rightarrow>
          let refs = butlast ((r_Referrals v)[idx := last (r_Referrals v)])
          in Ok (v\<lparr>r_Referrals := fst (RemoveStringFast refs subject),
               r_ActiveReferrals := (if r_Active r then fst (RemoveStringFast (r_ActiveReferrals v) subject)
                 else r_ActiveReferrals v)\<rparr>))"

text \<open>One of the two updates of a level, skipped at the top.\<close>

definition graft_at :: "string \<Rightarrow> nat \<Rightarrow> bool \<Rightarrow> info \<Rightarrow> 's bu_st \<Rightarrow> string res \<times> 's bu_st" where
  "graft_at anc level gain r st =
     (if anc = [] then (Ok [], st)
      else bu_update anc True (\<lambda>value st.
        and_then (lift_res (graft level gain r value) st) (\<lambda>v st. (Ok (r_Referrer value, v), st))) st)"

fun graft_levels :: "info \<Rightarrow> nat list \<Rightarrow> string \<Rightarrow> string \<Rightarrow> 's bu_st \<Rightarrow> unit res \<times> 's bu_st" where
  "graft_levels r [] oldAnc newAnc st = (Ok (), st)"
| "graft_levels r (level # levels) oldAnc newAnc st =
     (if oldAnc = newAnc then (Ok (), st)
      else and_then (graft_at oldAnc level False r st) (\<lambda>oldAnc' st.
           and_then (graft_at newAnc level True r st) (\<lambda>newAnc' st.
           graft_levels r levels oldAnc' newAnc' st)))"

definition affirm_core :: "string \<Rightarrow> info \<Rightarrow> string \<Rightarrow> string \<Rightarrow> 's bu_st \<Rightarrow> unit res \<times> 's bu_st" where
  "affirm_core subject r oldParent newParent st =
     and_then (bu_update oldParent True (\<lambda>value st.
         and_then (lift_res (bind_res (cut_referral subject r value) (graft 1 False r)) st)
           (\<lambda>v st. (Ok (r_Referrer value, v), st))) st) (\<lambda>oldAnc st.
     and_then (bu_update newParent True (\<lambda>value st.
         (let v = value\<lparr>r_Referrals := r_Referrals value @ [subject],
                r_ActiveReferrals := (if r_Active r then r_ActiveReferrals value @ [subject]
                  else r_ActiveReferrals value)\<rparr>
          in and_then (lift_res (graft 1 True r v) st) (\<lambda>v st. (Ok (r_Referrer value, v), st)))) st) (\<lambda>newAnc st.
     graft_levels r [2..<11] oldAnc newAnc st))"

definition AffirmTransition ::
    "'s ref_keeper \<Rightarrow> string \<Rightarrow> 's ref_ctx_scheme \<Rightarrow> unit res \<times> 's ref_ctx_scheme" where
  "AffirmTransition k subject s =
     (let r0 = ref_Get subject s; oldParent = r_Referrer r0; newParent = r_Transition r0
      in and_then (lift_res (validateTransition k subject newParent False s) s) (\<lambda>_ s.
         let r = r0\<lparr>r_Referrer := newParent, r_Transition := []\<rparr>
         in and_then (must (with_bu k (affirm_core subject r oldParent newParent) (ref_set subject r s)))
              (\<lambda>_ s. (Ok (), emit (''transition_performed'', [AStr subject, AStr oldParent, AStr newParent]) s))))"

definition GetPendingTransition :: "string \<Rightarrow> 's ref_ctx_scheme \<Rightarrow> string res" where
  "GetPendingTransition acc s =
     (if acc = [] then Err ErrInvalidAddress else Ok (r_Transition (ref_Get acc s)))"

section \<open>Fees of ancestor validators\<close>

record validator_share =
  sh_Ratio :: fraction
  sh_Status :: status
  sh_MaxLevel :: int

definition toValidators :: "validator_share list" where
  "toValidators = [
     \<lparr>sh_Ratio = Permille 1, sh_Status = STATUS_MASTER, sh_MaxLevel = 4\<rparr>,
     \<lparr>sh_Ratio = Permille 2, sh_Status = STATUS_CHAMPION, sh_MaxLevel = 6\<rparr>,
     \<lparr>sh_Ratio = Permille 3, sh_Status = STATUS_BUSINESSMAN, sh_MaxLevel = 10\<rparr>,
     \<lparr>sh_Ratio = Permille 4, sh_Status = STATUS_PROFESSIONAL, sh_MaxLevel = 12\<rparr>,
     \<lparr>sh_Ratio = Permille 5, sh_Status = STATUS_TOP_LEADER, sh_MaxLevel = 14\<rparr>,
     \<lparr>sh_Ratio = Permille 6, sh_Status = STATUS_ABSOLUTE_CHAMPION, sh_MaxLevel = 20\<rparr>]"

text \<open>The inner loop: the highest row whose status and level an ancestor meets.\<close>

definition share_row :: "validator_share list \<Rightarrow> status \<Rightarrow> int \<Rightarrow> int" where
  "share_row shares st lvl =
     (case filter (\<lambda>j. st \<ge> sh_Status (shares ! j) \<and> lvl < sh_MaxLevel (shares ! j)) (rev [0..<length shares]) of
        [] \<Rightarrow> - 1 | j # _ \<Rightarrow> int j)"

fun validator_fees ::
    "'s ref_keeper \<Rightarrow> validator_share list \<Rightarrow> 's ref_ctx_scheme \<Rightarrow> int list \<Rightarrow> string \<Rightarrow> int \<Rightarrow>
     (string \<times> fraction) list \<Rightarrow> (string \<times> fraction) list res" where
  "validator_fees k shares s [] ancestor best result = Ok result"
| "validator_fees k shares s (i # is) ancestor best result =
     (if ancestor = [] then Ok result
      else case AccAddressFromBech32 (rk_sdk k) ancestor of
        None \<Rightarrow> Err (Text ''invalid address'')
      | Some a \<Rightarrow>
        let r = ref_Get ancestor s
        in bind_res (rk_IsActiveValidator k a s) (\<lambda>active.
           let j = (if active then share_row shares (r_Status r) i else - 1)
           in if best < j then
                bind_res (Sub (sh_Ratio (shares ! nat j))
                    (if best = - 1 then FractionZero else sh_Ratio (shares ! nat best))) (\<lambda>q.
                  validator_fees k shares s is (r_Referrer r) j (result @ [(ancestor, q)]))
              else validator_fees k shares s is (r_Referrer r) best result))"

definition getReferralValidatorFeesCore ::
    "'s ref_keeper \<Rightarrow> string \<Rightarrow> validator_share list \<Rightarrow> 's ref_ctx_scheme \<Rightarrow> (string \<times> fraction) list res" where
  "getReferralValidatorFeesCore k acc shares s =
     (if length shares \<noteq> 6 then Err (Text ''toValidators param must have exactly 6 items'')
      else validator_fees k shares s [0..19] (r_Referrer (ref_Get acc s)) (- 1) [])"

definition GetReferralValidatorFeesForDelegating ::
    "'s ref_keeper \<Rightarrow> string \<Rightarrow> 's ref_ctx_scheme \<Rightarrow> (string \<times> fraction) list res" where
  "GetReferralValidatorFeesForDelegating k acc s = getReferralValidatorFeesCore k acc toValidators s"

section \<open>Scheduled operations\<close>

definition downgrade_self :: "string \<Rightarrow> info \<Rightarrow> 's bu_st \<Rightarrow> (unit \<times> info) res \<times> 's bu_st" where
  "downgrade_self acc value st =
     (case r_StatusDowngradeAt value of
        None \<Rightarrow> (Ok ((), value), st)
      | Some t \<Rightarrow>
          if t > block_time (fst st) then (Ok ((), value), st)
          else
            let next = (if r_Status value - 1 = HeroDeprecatedStatus then r_Status value - 2
                        else r_Status value - 1);
                s1 = emit (EventStatusUpdated acc (r_Status value) next) (fst st);
                vs = setStatus value next acc s1
            in (Ok ((), (fst vs)\<lparr>r_StatusDowngradeAt := None\<rparr>), (snd vs, snd st)))"

definition performDowngrade ::
    "'s ref_keeper \<Rightarrow> string \<Rightarrow> 's ref_ctx_scheme \<Rightarrow> unit res \<times> 's ref_ctx_scheme" where
  "performDowngrade k acc s = with_bu k (\<lambda>st.
     and_then (bu_update acc True (downgrade_self acc) st)
       (\<lambda>_ st. (Ok (), addCallback StatusUpdatedCallback acc st))) s"

definition performCompression ::
    "'s ref_keeper \<Rightarrow> string \<Rightarrow> 's ref_ctx_scheme \<Rightarrow> unit res \<times> 's ref_ctx_scheme" where
  "performCompression k acc s =
     (case r_CompressionAt (ref_Get acc s) of
        None \<Rightarrow> (Ok (), s)
      | Some t \<Rightarrow> if t > block_time s then (Ok (), s) else Compress k acc s)"

definition PerformDowngrade :: "'s ref_keeper \<Rightarrow> 's ref_ctx_scheme hook" where
  "PerformDowngrade k d t s = must (performDowngrade k d s)"

definition PerformCompression :: "'s ref_keeper \<Rightarrow> 's ref_ctx_scheme hook" where
  "PerformCompression k d t s = must (performCompression k d s)"

definition PerformTransitionTimeout :: "'s ref_ctx_scheme hook" where
  "PerformTransitionTimeout d t s = must (CancelTransition d True s)"

definition PerformBanish :: "'s ref_keeper \<Rightarrow> 's ref_ctx_scheme hook" where
  "PerformBanish k d t s = must (Banish k d s)"

end
