(* ===== verification/Noding_Types.thy ===== *)
theory Noding_Types
  imports Referral
begin

text \<open>
  The data of \<open>x/noding\<close>: validator records with their score, the parameters with their
  validation, and the generator of voting powers.

  Consensus keys are a library's: a key is the string of its bytes, and \<open>key_lib\<close> holds the
  bech32 form with its parser, the consensus address, the conversion to the ABCI key (which
  fails for a kind of key CometBFT does not know) and \<open>int64(math.Log(float64(stake)))\<close>, whose
  last digit depends on the platform's logarithm.
\<close>

section \<open>Keys and records\<close>

type_synonym pubkey = string
type_synonym cons_addr = string

record key_lib =
  ParseConsPubKey :: "string \<Rightarrow> pubkey option"
  MustFormatConsPubKey :: "pubkey \<Rightarrow> string"
  ConsAddress :: "pubkey \<Rightarrow> cons_addr"
  ToTmProtoPublicKey :: "pubkey \<Rightarrow> string option"
  LogInt :: "int \<Rightarrow> int"

record misbehavior =
  mb_Type :: int
  mb_Height :: int
  mb_Time :: time
  mb_TotalVotingPower :: int
  mb_Address :: cons_addr
  mb_Power :: int

text \<open>All counters are \<open>int64\<close>; the number in the lottery is a \<open>uint64\<close>.\<close>

record nod_info =
  n_Status :: bool
  n_LastPower :: int
  n_PubKey :: string
  n_LastPubKey :: string
  n_Strokes :: int
  n_OkBlocksInRow :: int
  n_MissedBlocksInRow :: int
  n_Jailed :: bool
  n_UnjailAt :: int
  n_ProposedCount :: int
  n_JailCount :: int
  n_LotteryNo :: "64 word"
  n_Score :: int
  n_Infractions :: "misbehavior list"
  n_BannedForLife :: bool
  n_Staff :: bool

definition zero_nod_info :: nod_info where
  "zero_nod_info = \<lparr>n_Status = False, n_LastPower = 0, n_PubKey = [], n_LastPubKey = [], n_Strokes = 0,
     n_OkBlocksInRow = 0, n_MissedBlocksInRow = 0, n_Jailed = False, n_UnjailAt = 0, n_ProposedCount = 0,
     n_JailCount = 0, n_LotteryNo = 0, n_Score = 0, n_Infractions = [], n_BannedForLife = False,
     n_Staff = False\<rparr>"

definition IsActive :: "nod_info \<Rightarrow> bool" where
  "IsActive x \<longleftrightarrow> n_Status x \<and> \<not> n_Jailed x \<and> \<not> n_BannedForLife x"

definition UpdateScore :: "key_lib \<Rightarrow> int \<Rightarrow> nod_info \<Rightarrow> nod_info \<times> bool" where
  "UpdateScore K stake x =
     (let st = (if stake < 1 then 1 else stake);
          score = wrap64 (wrap64 (LogInt K st - n_Strokes x) + quo (n_OkBlocksInRow x) 100)
      in if score = n_Score x then (x, False) else (x\<lparr>n_Score := score\<rparr>, True))"

definition nod_NewInfo :: "key_lib \<Rightarrow> string \<Rightarrow> int \<Rightarrow> nod_info" where
  "nod_NewInfo K pubKey delegation =
     fst (UpdateScore K delegation (zero_nod_info\<lparr>n_Status := True, n_PubKey := pubKey\<rparr>))"

text \<open>Why an account does not qualify.\<close>

type_synonym reason = int

definition REASON_UNSPECIFIED :: reason where "REASON_UNSPECIFIED = 0"
definition REASON_NOT_ENOUGH_STATUS :: reason where "REASON_NOT_ENOUGH_STATUS = 1"
definition REASON_NOT_ENOUGH_TOTAL_STAKE :: reason where "REASON_NOT_ENOUGH_TOTAL_STAKE = 2"
definition REASON_NOT_ENOUGH_SELF_STAKE :: reason where "REASON_NOT_ENOUGH_SELF_STAKE = 3"

datatype validator_state = STATE_OFF | STATE_BAN | STATE_JAIL | STATE_SPARE | STATE_LUCKY | STATE_TOP

definition nod_ErrNotQualified :: error where "nod_ErrNotQualified = Registered ''noding'' 1"
definition ErrPubkeyBusy :: error where "ErrPubkeyBusy = Registered ''noding'' 2"
definition nod_ErrNotFound :: error where "nod_ErrNotFound = Registered ''noding'' 3"
definition ErrNotJailed :: error where "ErrNotJailed = Registered ''noding'' 4"
definition ErrJailPeriodNotOver :: error where "ErrJailPeriodNotOver = Registered ''noding'' 5"
definition ErrBannedForLifetime :: error where "ErrBannedForLifetime = Registered ''noding'' 6"
definition ErrAlreadyOn :: error where "ErrAlreadyOn = Registered ''noding'' 7"

section \<open>Parameters\<close>

record power_slice =
  sl_Part :: fraction
  sl_VotingPower :: int

record distribution =
  Slices :: "power_slice list"
  LuckiesVotingPower :: int

record min_criteria =
  mc_Status :: status
  mc_SelfStake :: int
  mc_TotalStake :: int

record nod_params =
  MaxValidators :: int
  JailAfter :: int
  UnjailAfter :: int
  LotteryValidators :: int
  MinCriteria :: min_criteria
  MisbehaviourPenalty :: fraction
  VotingPower :: distribution

definition zero_distribution :: distribution where
  "zero_distribution = \<lparr>Slices = [], LuckiesVotingPower = 0\<rparr>"

definition zero_nod_params :: nod_params where
  "zero_nod_params = \<lparr>MaxValidators = 0, JailAfter = 0, UnjailAfter = 0, LotteryValidators = 0,
     MinCriteria = \<lparr>mc_Status = 0, mc_SelfStake = 0, mc_TotalStake = 0\<rparr>, MisbehaviourPenalty = null_frac,
     VotingPower = zero_distribution\<rparr>"

definition BlocksOneHour :: int where "BlocksOneHour = 120"

definition DefaultMinCriteria :: min_criteria where
  "DefaultMinCriteria = \<lparr>mc_Status = STATUS_LEADER, mc_SelfStake = 10000000000, mc_TotalStake = 50000000000\<rparr>"

definition DefaultVotingPower :: distribution where
  "DefaultVotingPower = \<lparr>Slices = [\<lparr>sl_Part = Percent 15, sl_VotingPower = 15\<rparr>,
     \<lparr>sl_Part = Percent 85, sl_VotingPower = 10\<rparr>], LuckiesVotingPower = 10\<rparr>"

text \<open>\<open>NewParams\<close> leaves the distribution of voting powers out.\<close>

definition nod_NewParams :: "int \<Rightarrow> int \<Rightarrow> int \<Rightarrow> int \<Rightarrow> min_criteria \<Rightarrow> fraction \<Rightarrow> nod_params" where
  "nod_NewParams maxValidators jailAfter unjailAfter lotteryValidators minCriteria misbehaviourPenalty =
     \<lparr>MaxValidators = maxValidators, JailAfter = jailAfter, UnjailAfter = unjailAfter,
      LotteryValidators = lotteryValidators, MinCriteria = minCriteria,
      MisbehaviourPenalty = misbehaviourPenalty, VotingPower = zero_distribution\<rparr>"

definition nod_DefaultParams :: nod_params where
  "nod_DefaultParams = nod_NewParams 100 2 BlocksOneHour 0 DefaultMinCriteria (Percent 0)"

definition ErrVotingPowerNonPositive :: error where "ErrVotingPowerNonPositive = Text ''voting power must be positive''"
definition ErrNoSlices :: error where "ErrNoSlices = Text ''at least one slice is required''"
definition ErrFractionNonPositive :: error where "ErrFractionNonPositive = Text ''part must be positive''"
definition ErrWrongPartsTotal :: error where "ErrWrongPartsTotal = Text ''parts total must be equal 100%''"

fun slices_total :: "power_slice list \<Rightarrow> fraction \<Rightarrow> fraction res" where
  "slices_total [] sumP = Ok sumP"
| "slices_total (sl # sls) sumP =
     (if sl_VotingPower sl \<le> 0 then Err ErrVotingPowerNonPositive
      else bind_res (IsPositive (sl_Part sl)) (\<lambda>pos.
        if \<not> pos then Err ErrFractionNonPositive
        else bind_res (Add sumP (sl_Part sl)) (slices_total sls)))"

definition Distribution_Validate :: "distribution \<Rightarrow> unit res" where
  "Distribution_Validate x =
     (if LuckiesVotingPower x \<le> 0 then Err ErrVotingPowerNonPositive
      else if Slices x = [] then Err ErrNoSlices
      else bind_res (slices_total (Slices x) FractionZero) (\<lambda>sumP.
           bind_res (Frac_Equal sumP (FractionInt 1)) (\<lambda>eq.
           if \<not> eq then Err ErrWrongPartsTotal else Ok ())))"

definition MinCriteria_Validate :: "min_criteria \<Rightarrow> unit res" where
  "MinCriteria_Validate c = bind_res (status_Validate (mc_Status c)) (\<lambda>_.
     if mc_TotalStake c < mc_SelfStake c
     then Err (Text ''TotalStake must be greate or equal than SelfStake'') else Ok ())"

definition validate_positive :: "int \<Rightarrow> unit res" where
  "validate_positive x = (if x = 0 then Err (Text ''must be positive'') else Ok ())"

definition validateMisbehaviourPenalty :: "fraction \<Rightarrow> unit res" where
  "validateMisbehaviourPenalty x =
     (if IsNullValue x then Err (Text ''misbehaviour_penalty is not set'')
      else bind_res (IsNegative x) (\<lambda>neg. bind_res (if neg then Ok True else GT x (FractionInt 1)) (\<lambda>out.
        if out then Err (Text ''misbehaviour_penalty must be in [0; 1]'') else Ok ())))"

definition nod_params_Validate :: "nod_params \<Rightarrow> unit res" where
  "nod_params_Validate p =
     bind_res (validate_positive (MaxValidators p)) (\<lambda>_.
     bind_res (validate_positive (JailAfter p)) (\<lambda>_.
     bind_res (validate_positive (UnjailAfter p)) (\<lambda>_.
     bind_res (MinCriteria_Validate (MinCriteria p)) (\<lambda>_.
     bind_res (Distribution_Validate (VotingPower p)) (\<lambda>_.
     validateMisbehaviourPenalty (MisbehaviourPenalty p))))))"

section \<open>Voting powers\<close>

text \<open>
  The generator hands out the powers of the slices in the order of the validators' ranks: it
  moves on to the next slice when the share of validators served exceeds the parts so far,
  but not between two validators of equal score. \<open>count\<close> is a \<open>uint32\<close>.
\<close>

record vp_generator =
  vp_count :: int
  vp_maxValidators :: int
  vp_lastScore :: int
  vp_ptr :: nat
  vp_partAccum :: fraction
  vp_distr :: distribution

definition NewVotingPowerGenerator :: "nod_params \<Rightarrow> vp_generator" where
  "NewVotingPowerGenerator p =
     \<lparr>vp_count = 0, vp_maxValidators = MaxValidators p, vp_lastScore = 0, vp_ptr = 0,
      vp_partAccum = FractionZero, vp_distr = VotingPower p\<rparr>"

definition slice_at :: "vp_generator \<Rightarrow> nat \<Rightarrow> power_slice res" where
  "slice_at g i = nth_res (Slices (vp_distr g)) (int i)"

definition GetVotingPower :: "vp_generator \<Rightarrow> int \<Rightarrow> (int \<times> vp_generator) res" where
  "GetVotingPower g score =
     (let g1 = g\<lparr>vp_count := (vp_count g + 1) mod 2 ^ 32, vp_lastScore := score\<rparr>
      in if vp_count g1 > vp_maxValidators g1 then Ok (LuckiesVotingPower (vp_distr g1), g1)
         else if vp_count g1 = 1 then
           bind_res (slice_at g1 0) (\<lambda>sl. Ok (sl_VotingPower sl, g1\<lparr>vp_partAccum := sl_Part sl\<rparr>))
         else
           bind_res (LTE (NewFraction (vp_count g1) (vp_maxValidators g1)) (vp_partAccum g1)) (\<lambda>inside.
             if inside \<or> score = vp_lastScore g
             then bind_res (slice_at g1 (vp_ptr g1)) (\<lambda>sl. Ok (sl_VotingPower sl, g1))
             else
               bind_res (slice_at g1 (Suc (vp_ptr g1))) (\<lambda>sl.
               bind_res (Add (vp_partAccum g1) (sl_Part sl)) (\<lambda>acc.
               Ok (sl_VotingPower sl, g1\<lparr>vp_ptr := Suc (vp_ptr g1), vp_partAccum := acc\<rparr>)))))"

text \<open>The powers of a ranking.\<close>

fun voting_powers :: "vp_generator \<Rightarrow> int list \<Rightarrow> int list res" where
  "voting_powers g [] = Ok []"
| "voting_powers g (x # xs) =
     bind_res (GetVotingPower g x) (\<lambda>(p, g'). bind_res (voting_powers g' xs) (\<lambda>ps. Ok (p # ps)))"

end
