(* ===== verification/Profile_Types.thy ===== *)
theory Profile_Types
  imports Noding_Types
begin

text \<open>
  The data of \<open>x/profile\<close> and its pure code: \<open>types/types.go\<close>, \<open>types/params.go\<close>,
  \<open>types/msgs.go\<close> and the genesis validation. The \<open>uint64\<close> limits are 64-bit words and wrap;
  the \<open>uint32\<close> prices and volumes are integers, their products fit in 64 bits.

  The letter tables of Go's \<open>unicode\<close> package are data: lower case, title case and white space
  of nicknames are the functions of \<open>text_lib\<close>, as is the text of an error.
\<close>

record text_lib =
  ToLower :: "string \<Rightarrow> string"
  ToTitle :: "string \<Rightarrow> string"
  TrimSpace :: "string \<Rightarrow> string"
  ErrorText :: "error \<Rightarrow> string"

definition HasPrefix :: "string \<Rightarrow> string \<Rightarrow> bool" where
  "HasPrefix s p = (take (length p) s = p)"

definition ContainsAny :: "string \<Rightarrow> string \<Rightarrow> bool" where
  "ContainsAny s chars = list_ex (\<lambda>c. c \<in> set chars) s"

definition GBSize :: int where "GBSize = 1024 * 1024 * 1024"

section \<open>Profiles\<close>

record profile =
  AutoPay :: bool
  ActiveUntil :: "time option"
  p_Noding :: bool
  p_Storage :: bool
  p_Validator :: bool
  p_Vpn :: bool
  Nickname :: string
  CardNumber :: "64 word"
  StorageLimit :: "64 word"
  StorageCurrent :: "64 word"
  VpnLimit :: "64 word"
  VpnCurrent :: "64 word"
  ImLimitExtra :: "64 word"
  ExtraImUntil :: "time option"
  AutoPayImExtra :: bool

definition zero_profile :: profile where
  "zero_profile = \<lparr>AutoPay = False, ActiveUntil = None, p_Noding = False, p_Storage = False,
     p_Validator = False, p_Vpn = False, Nickname = [], CardNumber = 0, StorageLimit = 0, StorageCurrent = 0,
     VpnLimit = 0, VpnCurrent = 0, ImLimitExtra = 0, ExtraImUntil = None, AutoPayImExtra = False\<rparr>"

definition prof_IsActive :: "profile \<Rightarrow> 's ctx_scheme \<Rightarrow> bool" where
  "prof_IsActive p s = (case ActiveUntil p of None \<Rightarrow> False | Some t \<Rightarrow> t > block_time s)"

definition IsExtraImStorageActive :: "profile \<Rightarrow> 's ctx_scheme \<Rightarrow> bool" where
  "IsExtraImStorageActive p s =
     (ImLimitExtra p \<noteq> 0 \<and> (case ExtraImUntil p of None \<Rightarrow> False | Some t \<Rightarrow> t > block_time s))"

definition freeImStorageGb :: "64 word" where "freeImStorageGb = 5"

definition ImLimitTotal :: "profile \<Rightarrow> 's ctx_scheme \<Rightarrow> 64 word" where
  "ImLimitTotal p s =
     (freeImStorageGb + (if IsExtraImStorageActive p s then ImLimitExtra p else 0)) * word_of_int GBSize"

definition NewProfile :: "time \<Rightarrow> bool \<Rightarrow> bool \<Rightarrow> bool \<Rightarrow> bool \<Rightarrow> bool \<Rightarrow> string \<Rightarrow> 64 word \<Rightarrow> profile" where
  "NewProfile activeUntil autoPay noding storage validator vpn nickname cardNo =
     zero_profile\<lparr>AutoPay := autoPay, ActiveUntil := Some activeUntil, p_Noding := noding, p_Storage := storage,
       p_Validator := validator, p_Vpn := vpn, Nickname := nickname, CardNumber := cardNo\<rparr>"

definition ErrNicknamePrefix :: error where "ErrNicknamePrefix = Registered ''profile'' 1"
definition ErrNicknameAlreadyInUse :: error where "ErrNicknameAlreadyInUse = Registered ''profile'' 2"
definition prof_ErrNotFound :: error where "prof_ErrNotFound = Registered ''profile'' 3"
definition ErrAccountAlreadyExists :: error where "ErrAccountAlreadyExists = Registered ''profile'' 4"
definition ErrNicknameTooShort :: error where "ErrNicknameTooShort = Registered ''profile'' 5"
definition ErrNicknameInvalidChars :: error where "ErrNicknameInvalidChars = Registered ''profile'' 6"
definition prof_ErrUnauthorized :: error where "prof_ErrUnauthorized = Registered ''profile'' 7"

section \<open>Parameters\<close>

record prof_params =
  Creators :: "string list"
  RenamePrice :: int
  CardMagic :: "64 word"
  StorageSigners :: "string list"
  VpnSigners :: "string list"
  TokenRate :: fraction
  SubscriptionPrice :: int
  VpnGbPrice :: int
  StorageGbPrice :: int
  BaseVpnGb :: int
  BaseStorageGb :: int
  TokenRateSigners :: "string list"

definition zero_prof_params :: prof_params where
  "zero_prof_params = \<lparr>Creators = [], RenamePrice = 0, CardMagic = 0, StorageSigners = [], VpnSigners = [],
     TokenRate = null_frac, SubscriptionPrice = 0, VpnGbPrice = 0, StorageGbPrice = 0, BaseVpnGb = 0,
     BaseStorageGb = 0, TokenRateSigners = []\<rparr>"

text \<open>
  The getters of the account lists fill a slice of a given length with the parsed addresses of
  a list. \<open>GetVpnSigners\<close> and \<open>GetTokenRateSigners\<close> take the length from their own list and the
  addresses from the list of the storage signers.
\<close>

fun fill_slots :: "sdk \<Rightarrow> nat \<Rightarrow> string list \<Rightarrow> addr list \<Rightarrow> addr list res" where
  "fill_slots L i [] slots = Ok slots"
| "fill_slots L i (x # xs) slots =
     (case AccAddressFromBech32 L x of
        None \<Rightarrow> Panic ErrInvalidAddress
      | Some a \<Rightarrow>
          if i < length slots then fill_slots L (Suc i) xs (slots[i := a]) else Panic index_out_of_range)"

definition GetCreators :: "sdk \<Rightarrow> prof_params \<Rightarrow> addr list res" where
  "GetCreators L p = fill_slots L 0 (Creators p) (replicate (length (Creators p)) [])"

definition GetStorageSigners :: "sdk \<Rightarrow> prof_params \<Rightarrow> addr list res" where
  "GetStorageSigners L p = fill_slots L 0 (StorageSigners p) (replicate (length (StorageSigners p)) [])"

definition GetVpnSigners :: "sdk \<Rightarrow> prof_params \<Rightarrow> addr list res" where
  "GetVpnSigners L p = fill_slots L 0 (StorageSigners p) (replicate (length (VpnSigners p)) [])"

definition GetTokenRateSigners :: "sdk \<Rightarrow> prof_params \<Rightarrow> addr list res" where
  "GetTokenRateSigners L p = fill_slots L 0 (StorageSigners p) (replicate (length (TokenRateSigners p)) [])"

definition SetCreators :: "sdk \<Rightarrow> addr list \<Rightarrow> prof_params \<Rightarrow> prof_params" where
  "SetCreators L as p = p\<lparr>Creators := map (AccString L) as\<rparr>"

definition SetStorageSigners :: "sdk \<Rightarrow> addr list \<Rightarrow> prof_params \<Rightarrow> prof_params" where
  "SetStorageSigners L as p = p\<lparr>StorageSigners := map (AccString L) as\<rparr>"

definition SetVpnSigners :: "sdk \<Rightarrow> addr list \<Rightarrow> prof_params \<Rightarrow> prof_params" where
  "SetVpnSigners L as p = p\<lparr>VpnSigners := map (AccString L) as\<rparr>"

definition SetTokenRateSigners :: "sdk \<Rightarrow> addr list \<Rightarrow> prof_params \<Rightarrow> prof_params" where
  "SetTokenRateSigners L as p = p\<lparr>TokenRateSigners := map (AccString L) as\<rparr>"

definition prof_NewParams :: "sdk \<Rightarrow> addr list \<Rightarrow> int \<Rightarrow> 64 word \<Rightarrow> addr list \<Rightarrow> addr list \<Rightarrow> fraction \<Rightarrow>
    int \<Rightarrow> int \<Rightarrow> int \<Rightarrow> int \<Rightarrow> int \<Rightarrow> addr list \<Rightarrow> prof_params" where
  "prof_NewParams L creators renamePrice cardMagic storageSigners vpnSigners tokenRate subscriptionPrice
      vpnGbPrice storageGbPrice baseVpnGb baseStorageGb tokenRateSigners =
     SetTokenRateSigners L tokenRateSigners (SetVpnSigners L vpnSigners (SetStorageSigners L storageSigners
       (SetCreators L creators (zero_prof_params\<lparr>RenamePrice := renamePrice, CardMagic := cardMagic,
          TokenRate := tokenRate, SubscriptionPrice := subscriptionPrice, VpnGbPrice := vpnGbPrice,
          StorageGbPrice := storageGbPrice, BaseVpnGb := baseVpnGb, BaseStorageGb := baseStorageGb\<rparr>))))"

definition DefaultCardMagic :: "64 word" where "DefaultCardMagic = 0x1A21A4B61B"

definition prof_DefaultParams :: "sdk \<Rightarrow> prof_params" where
  "prof_DefaultParams L =
     prof_NewParams L [] 1000000 DefaultCardMagic [] [] (FractionInt 100000) 1990 10 10 7 5 []"

fun prof_addresses_ok :: "sdk \<Rightarrow> string list \<Rightarrow> unit res" where
  "prof_addresses_ok L [] = Ok ()"
| "prof_addresses_ok L (x # xs) =
     (if AccAddressFromBech32 L x = None then Err ErrInvalidAddress else prof_addresses_ok L xs)"

definition prof_validateAccounts :: "sdk \<Rightarrow> string list \<Rightarrow> unit res" where
  "prof_validateAccounts L v = (if v = [] then Err (Text ''account list empty'') else prof_addresses_ok L v)"

definition validateTokenRate :: "fraction \<Rightarrow> unit res" where
  "validateTokenRate x = bind_res (IsPositive x) (\<lambda>pos.
     if \<not> pos then Err (Text ''TokenRate must be positive'') else Ok ())"

definition validatePositive :: "int \<Rightarrow> unit res" where
  "validatePositive x = (if x \<le> 0 then Err (Text ''parameter value must be positive'') else Ok ())"

text \<open>\<open>validateFee\<close> and \<open>validateCardMagic\<close> accept every value of the type.\<close>

definition prof_params_Validate :: "sdk \<Rightarrow> prof_params \<Rightarrow> unit res" where
  "prof_params_Validate L p =
     bind_res (prof_validateAccounts L (Creators p)) (\<lambda>_.
     bind_res (prof_validateAccounts L (StorageSigners p)) (\<lambda>_.
     bind_res (prof_validateAccounts L (VpnSigners p)) (\<lambda>_.
     bind_res (validateTokenRate (TokenRate p)) (\<lambda>_.
     bind_res (validatePositive (SubscriptionPrice p)) (\<lambda>_.
     bind_res (validatePositive (VpnGbPrice p)) (\<lambda>_.
     bind_res (validatePositive (StorageGbPrice p)) (\<lambda>_.
     bind_res (validatePositive (BaseVpnGb p)) (\<lambda>_.
     bind_res (validatePositive (BaseStorageGb p)) (\<lambda>_.
     prof_validateAccounts L (TokenRateSigners p))))))))))"

section \<open>Genesis\<close>

record prof_genesis_item =
  gp_Address :: string
  gp_Profile :: profile

record prof_genesis =
  pg_Params :: prof_params
  pg_Profiles :: "prof_genesis_item list"

definition prof_DefaultGenesisState :: "sdk \<Rightarrow> prof_genesis" where
  "prof_DefaultGenesisState L = \<lparr>pg_Params = prof_DefaultParams L, pg_Profiles = []\<rparr>"

definition prof_ValidateGenesis :: "sdk \<Rightarrow> prof_genesis \<Rightarrow> unit res" where
  "prof_ValidateGenesis L data = prof_params_Validate L (pg_Params data)"

section \<open>Messages\<close>

definition parses :: "sdk \<Rightarrow> string \<Rightarrow> unit res" where
  "parses L x = (if AccAddressFromBech32 L x = None then Err ErrInvalidAddress else Ok ())"

text \<open>\<open>GetAddress\<close>, \<open>GetCreator\<close>, \<open>GetSender\<close> and their like panic on a text that is no address.\<close>

definition msg_address :: "sdk \<Rightarrow> string \<Rightarrow> addr res" where
  "msg_address L x = (case AccAddressFromBech32 L x of None \<Rightarrow> Panic ErrInvalidAddress | Some a \<Rightarrow> Ok a)"

record MsgCreateAccount =
  ca_Creator :: string
  ca_Address :: string
  ca_Referrer :: string
  ca_Profile :: "profile option"

definition MsgCreateAccount_ValidateBasic :: "sdk \<Rightarrow> MsgCreateAccount \<Rightarrow> unit res" where
  "MsgCreateAccount_ValidateBasic L msg =
     bind_res (parses L (ca_Creator msg)) (\<lambda>_. bind_res (parses L (ca_Address msg)) (\<lambda>_. parses L (ca_Referrer msg)))"

datatype update_field = FIELD_UNSPECIFIED | FIELD_AUTO_PAY | FIELD_NODING | FIELD_STORAGE | FIELD_VALIDATOR
  | FIELD_VPN | FIELD_NICKNAME | FIELD_IM_AUTO_PAY

text \<open>The value of an update is one of a union, or absent.\<close>

datatype update_value = String_Value string | Bool_Value bool | No_Value

fun GetBool :: "update_value \<Rightarrow> bool" where
  "GetBool (Bool_Value b) = b"
| "GetBool _ = False"

fun GetString :: "update_value \<Rightarrow> string" where
  "GetString (String_Value s) = s"
| "GetString _ = []"

record MsgUpdateProfile =
  up_Address :: string
  Updates :: "(update_field \<times> update_value) list"

definition ForbiddenNicknameCharacters :: string where
  "ForbiddenNicknameCharacters = '' */:'' @ [CHR 0x27, CHR 0x22] @ ''=[],.''"

definition new_nickname_ok :: "string \<Rightarrow> unit res" where
  "new_nickname_ok s =
     (if s = [] then Ok ()
      else if ContainsAny s ForbiddenNicknameCharacters then Err ErrNicknameInvalidChars
      else if length s < 3 then Err ErrNicknameTooShort
      else if HasPrefix s ''ARTR-'' then Err ErrNicknamePrefix
      else Ok ())"

definition update_ok :: "update_field \<times> update_value \<Rightarrow> unit res" where
  "update_ok u =
     (case fst u of
        FIELD_NICKNAME \<Rightarrow> (case snd u of String_Value s \<Rightarrow> new_nickname_ok s | _ \<Rightarrow> Err (Text ''wrong update value type''))
      | FIELD_UNSPECIFIED \<Rightarrow> Ok ()
      | FIELD_IM_AUTO_PAY \<Rightarrow> Ok ()
      | _ \<Rightarrow> (case snd u of Bool_Value b \<Rightarrow> Ok () | _ \<Rightarrow> Err (Text ''wrong update value type'')))"

fun updates_ok :: "(update_field \<times> update_value) list \<Rightarrow> unit res" where
  "updates_ok [] = Ok ()"
| "updates_ok (u # us) = bind_res (update_ok u) (\<lambda>_. updates_ok us)"

definition MsgUpdateProfile_ValidateBasic :: "sdk \<Rightarrow> MsgUpdateProfile \<Rightarrow> unit res" where
  "MsgUpdateProfile_ValidateBasic L msg =
     bind_res (parses L (up_Address msg)) (\<lambda>_.
     if Updates msg = [] then Err (Text ''no updates'') else updates_ok (Updates msg))"

text \<open>\<open>MsgSetStorageCurrent\<close> and \<open>MsgSetVpnCurrent\<close>: a \<open>uint64\<close> value is never negative.\<close>

definition set_current_ValidateBasic :: "sdk \<Rightarrow> string \<Rightarrow> string \<Rightarrow> unit res" where
  "set_current_ValidateBasic L sender address = bind_res (parses L sender) (\<lambda>_. parses L address)"

text \<open>\<open>MsgBuyStorage\<close>, \<open>MsgBuyVpn\<close>, \<open>MsgBuyImExtraStorage\<close> and \<open>MsgGiveStorageUp\<close>.\<close>

definition amount_ValidateBasic :: "sdk \<Rightarrow> string \<Rightarrow> int \<Rightarrow> unit res" where
  "amount_ValidateBasic L address amount =
     bind_res (parses L address) (\<lambda>_. if amount \<le> 0 then Err (Text ''amount must be positive'') else Ok ())"

definition MsgSetRate_ValidateBasic :: "sdk \<Rightarrow> string \<Rightarrow> fraction \<Rightarrow> unit res" where
  "MsgSetRate_ValidateBasic L sender v =
     bind_res (parses L sender) (\<lambda>_. bind_res (IsPositive v) (\<lambda>pos.
       if \<not> pos then Err (Text ''value must be positive'') else Ok ()))"

text \<open>What \<open>UpdateProfile\<close> makes of the fields.\<close>

fun apply_update :: "update_field \<times> update_value \<Rightarrow> profile \<Rightarrow> profile" where
  "apply_update (FIELD_AUTO_PAY, v) p = p\<lparr>AutoPay := GetBool v\<rparr>"
| "apply_update (FIELD_NODING, v) p = p\<lparr>p_Noding := GetBool v\<rparr>"
| "apply_update (FIELD_STORAGE, v) p = p\<lparr>p_Storage := GetBool v\<rparr>"
| "apply_update (FIELD_VALIDATOR, v) p = p\<lparr>p_Validator := GetBool v\<rparr>"
| "apply_update (FIELD_VPN, v) p = p\<lparr>p_Vpn := GetBool v\<rparr>"
| "apply_update (FIELD_NICKNAME, v) p = p\<lparr>Nickname := GetString v\<rparr>"
| "apply_update (FIELD_IM_AUTO_PAY, v) p = p\<lparr>AutoPayImExtra := GetBool v\<rparr>"
| "apply_update (FIELD_UNSPECIFIED, v) p = p"

end
