(* ===== verification/Noding.thy ===== *)
theory Noding
  imports Noding_Types
begin

text \<open>
  The keeper of \<open>x/noding\<close>: qualification, switching validators on and off, the lottery
  queue of the lucky ones, strokes and ticks, misbehaviour, proposer rewards, and the set of
  validator updates handed to CometBFT at the end of a block. The state extends that of
  \<open>x/referral\<close>, which it reads statuses and stakes from; money goes through the bank keeper.

  \<open>sort.Slice\<close> is documented to sort but not to keep the order of equal elements: the keeper's
  \<open>nk_sort\<close> is the sorting that runs.
\<close>

section \<open>State\<close>

record nod_ctx = ref_ctx +
  nod_store :: "addr \<rightharpoonup> nod_info"
  nod_operators :: "cons_addr \<rightharpoonup> addr"
  nod_proposers :: "64 word \<rightharpoonup> addr"
  nod_lottery :: "64 word \<rightharpoonup> addr"
  nod_params_store :: "nod_params option"
  nod_index_marked :: bool

record 's nod_keeper =
  nk_bank :: "'s nod_ctx_ext ref_ctx_ext bank_keeper"
  nk_keys :: key_lib
  nk_sort :: "(addr \<times> nod_info \<Rightarrow> addr \<times> nod_info \<Rightarrow> bool) \<Rightarrow> (addr \<times> nod_info) list \<Rightarrow> (addr \<times> nod_info) list"
  nk_feeCollectorName :: string
  nk_splittableFeeCollectorName :: string

abbreviation nk_sdk :: "'s nod_keeper \<Rightarrow> sdk" where "nk_sdk k \<equiv> bk_sdk (nk_bank k)"

type_synonym 's nod_op = "'s nod_ctx_scheme \<Rightarrow> unit res \<times> 's nod_ctx_scheme"

definition NodingModuleName :: string where "NodingModuleName = ''noding''"

section \<open>Records and parameters\<close>

definition nod_GetParams :: "'s nod_ctx_scheme \<Rightarrow> nod_params" where
  "nod_GetParams s = (case nod_params_store s of None \<Rightarrow> zero_nod_params | Some p \<Rightarrow> p)"

definition nod_SetParams :: "nod_params \<Rightarrow> 's nod_ctx_scheme \<Rightarrow> 's nod_ctx_scheme" where
  "nod_SetParams p s = s\<lparr>nod_params_store := Some p\<rparr>"

definition nod_MarkIndexStore :: "'s nod_ctx_scheme \<Rightarrow> 's nod_ctx_scheme" where
  "nod_MarkIndexStore s = s\<lparr>nod_index_marked := True\<rparr>"

definition nod_has :: "addr \<Rightarrow> 's nod_ctx_scheme \<Rightarrow> bool" where
  "nod_has acc s \<longleftrightarrow> nod_store s acc \<noteq> None"

definition nod_Get :: "addr \<Rightarrow> 's nod_ctx_scheme \<Rightarrow> nod_info res" where
  "nod_Get acc s = (case nod_store s acc of None \<Rightarrow> Err nod_ErrNotFound | Some d \<Rightarrow> Ok d)"

definition nod_set :: "addr \<Rightarrow> nod_info \<Rightarrow> 's nod_ctx_scheme \<Rightarrow> 's nod_ctx_scheme" where
  "nod_set acc value s = s\<lparr>nod_store := (nod_store s)(acc \<mapsto> value)\<rparr>"

text \<open>\<open>update\<close> saves the record the callback leaves when the callback says so.\<close>

definition nod_update :: "addr \<Rightarrow> (nod_info \<Rightarrow> 's nod_ctx_scheme \<Rightarrow> (bool \<times> nod_info) res \<times> 's nod_ctx_scheme) \<Rightarrow> 's nod_op" where
  "nod_update acc cb s =
     (case nod_store s acc of
        None \<Rightarrow> (Err nod_ErrNotFound, s)
      | Some v \<Rightarrow> and_then (cb v s) (\<lambda>(save, d) s. (Ok (), if save then nod_set acc d s else s)))"

text \<open>The two indices, by consensus address and by height.\<close>

definition addNodeOperatorToIndex :: "cons_addr \<Rightarrow> addr \<Rightarrow> 's nod_ctx_scheme \<Rightarrow> 's nod_ctx_scheme" where
  "addNodeOperatorToIndex consAddr acc s = s\<lparr>nod_operators := (nod_operators s)(consAddr \<mapsto> acc)\<rparr>"

definition addProposerToIndex :: "int \<Rightarrow> addr \<Rightarrow> 's nod_ctx_scheme \<Rightarrow> 's nod_ctx_scheme" where
  "addProposerToIndex height proposer s =
     s\<lparr>nod_proposers := (nod_proposers s)(word_of_int height \<mapsto> proposer)\<rparr>"

definition parse_key :: "'s nod_keeper \<Rightarrow> string \<Rightarrow> pubkey res" where
  "parse_key k bech32 = (case ParseConsPubKey (nk_keys k) bech32 of
     None \<Rightarrow> Panic (Text ''invalid consensus key'') | Some key \<Rightarrow> Ok key)"

section \<open>The lottery queue\<close>

definition lotteryAddNew :: "addr \<Rightarrow> nod_info \<Rightarrow> 's nod_ctx_scheme \<Rightarrow> nod_info res \<times> 's nod_ctx_scheme" where
  "lotteryAddNew acc data s =
     (if n_LotteryNo data \<noteq> 0 then (Err (Text ''already in''), s)
      else
        let n = (if nod_lottery s = Map.empty then 1 else last (store_keys (nod_lottery s)) + 1)
        in (Ok (data\<lparr>n_LotteryNo := n\<rparr>), s\<lparr>nod_lottery := (nod_lottery s)(n \<mapsto> acc)\<rparr>))"

definition lotteryExclude :: "nod_info \<Rightarrow> 's nod_ctx_scheme \<Rightarrow> nod_info res \<times> 's nod_ctx_scheme" where
  "lotteryExclude data s =
     (if n_LotteryNo data = 0 then (Err (Text ''already out''), s)
      else (Ok (data\<lparr>n_LotteryNo := 0\<rparr>), s\<lparr>nod_lottery := (nod_lottery s)(n_LotteryNo data := None)\<rparr>))"

definition lotteryDownshift :: "addr \<Rightarrow> nod_info \<Rightarrow> 's nod_ctx_scheme \<Rightarrow> nod_info res \<times> 's nod_ctx_scheme" where
  "lotteryDownshift acc data s = and_then (lotteryExclude data s) (lotteryAddNew acc)"

text \<open>The number of the last of the first \<open>cnt\<close> in the queue, 0 when there is none.\<close>

definition lotteryLastNo :: "nat \<Rightarrow> 's nod_ctx_scheme \<Rightarrow> 64 word" where
  "lotteryLastNo cnt s =
     (let ks = take cnt (store_keys (nod_lottery s)) in if ks = [] then 0 else last ks)"

text \<open>\<open>if d.LotteryNo != 0 { if err := ...; err != nil { panic(err) } }\<close>\<close>

definition when_queued ::
    "(nod_info \<Rightarrow> 's nod_ctx_scheme \<Rightarrow> nod_info res \<times> 's nod_ctx_scheme) \<Rightarrow> nod_info \<Rightarrow> 's nod_ctx_scheme \<Rightarrow>
     nod_info res \<times> 's nod_ctx_scheme" where
  "when_queued f d s = (if n_LotteryNo d \<noteq> 0 then must (f d s) else (Ok d, s))"

section \<open>Qualification\<close>

definition IsQualified :: "'s nod_keeper \<Rightarrow> addr \<Rightarrow> 's nod_ctx_scheme \<Rightarrow> (bool \<times> int \<times> reason) res" where
  "IsQualified k acc s =
     bind_res (GetDelegatedInNetwork (AccString (nk_sdk k) acc) 10 s) (\<lambda>delegation.
     let staff = (case nod_store s acc of None \<Rightarrow> False | Some d \<Rightarrow> n_Staff d);
         minCriteria = MinCriteria (nod_GetParams s)
     in if \<not> staff \<and> GetStatus (AccString (nk_sdk k) acc) s < mc_Status minCriteria
        then Ok (False, delegation, REASON_NOT_ENOUGH_STATUS)
        else
          bind_res (GetBalance (nk_bank k) acc s) (\<lambda>balance.
          bind_res (if staff then Ok False
            else bind_res (Uint64 (AmountOf (nk_sdk k) balance ConfigDelegatedDenom)) (\<lambda>x.
              Ok (x < mc_SelfStake minCriteria))) (\<lambda>low.
          if low then Ok (False, delegation, REASON_NOT_ENOUGH_SELF_STAKE)
          else
            bind_res (if staff then Ok False
              else bind_res (Uint64 delegation) (\<lambda>x. Ok (x < mc_TotalStake minCriteria))) (\<lambda>low.
            if low then Ok (False, delegation, REASON_NOT_ENOUGH_TOTAL_STAKE)
            else Ok (True, delegation, REASON_UNSPECIFIED)))))"

definition IsValidator :: "addr \<Rightarrow> 's nod_ctx_scheme \<Rightarrow> bool" where
  "IsValidator acc s = (case nod_store s acc of None \<Rightarrow> False | Some d \<Rightarrow> IsActive d)"

definition IsActiveValidator :: "addr \<Rightarrow> 's nod_ctx_scheme \<Rightarrow> bool" where
  "IsActiveValidator acc s =
     (case nod_store s acc of
        None \<Rightarrow> False
      | Some d \<Rightarrow> IsActive d \<and>
          \<not> wrap64 (block_height s - n_UnjailAt d) < 6 * UnjailAfter (nod_GetParams s))"

definition IsBanned :: "addr \<Rightarrow> 's nod_ctx_scheme \<Rightarrow> bool" where
  "IsBanned acc s = (case nod_store s acc of None \<Rightarrow> False | Some d \<Rightarrow> n_BannedForLife d)"

text \<open>The operator of a key, and whether the operator is active with that very key.\<close>

definition GetValidatorByConsAddr ::
    "'s nod_keeper \<Rightarrow> cons_addr \<Rightarrow> 's nod_ctx_scheme \<Rightarrow> (addr \<times> bool \<times> bool) res" where
  "GetValidatorByConsAddr k consAddr s =
     (case nod_operators s consAddr of
        None \<Rightarrow> Ok ([], False, False)
      | Some acc \<Rightarrow> bind_res (nod_Get acc s) (\<lambda>data.
          if IsActive data
          then bind_res (parse_key k (n_PubKey data)) (\<lambda>key. Ok (acc, True, consAddr = ConsAddress (nk_keys k) key))
          else Ok (acc, True, False)))"

section \<open>Switching on and off\<close>

definition SwitchOn :: "'s nod_keeper \<Rightarrow> addr \<Rightarrow> pubkey \<Rightarrow> 's nod_op" where
  "SwitchOn k acc key s =
     (if IsBanned acc s then (Err ErrBannedForLifetime, s)
      else if (case nod_store s acc of None \<Rightarrow> False | Some d \<Rightarrow> n_Status d) then (Err ErrAlreadyOn, s)
      else
        and_then (lift_res (GetValidatorByConsAddr k (ConsAddress (nk_keys k) key) s) s) (\<lambda>(_, found, active) s.
        if found \<and> active then (Err ErrPubkeyBusy, s)
        else
          and_then (lift_res (IsQualified k acc s) s) (\<lambda>(isQualified, delegation, reason) s.
          if \<not> isQualified then (Err nod_ErrNotQualified, s)
          else
            and_then
              (if nod_has acc s then nod_update acc (\<lambda>d s.
                 and_then (lift_res (Int64 delegation) s) (\<lambda>stake s.
                 (Ok (True, fst (UpdateScore (nk_keys k) stake
                    (d\<lparr>n_Status := True, n_PubKey := MustFormatConsPubKey (nk_keys k) key\<rparr>))), s))) s
               else
                 and_then (lift_res (Int64 delegation) s) (\<lambda>stake s.
                 (Ok (), nod_set acc (nod_NewInfo (nk_keys k) (MustFormatConsPubKey (nk_keys k) key) stake) s)))
              (\<lambda>_ s. (Ok (), addNodeOperatorToIndex (ConsAddress (nk_keys k) key) acc s)))))"

definition SwitchOff :: "addr \<Rightarrow> 's nod_op" where
  "SwitchOff acc s = nod_update acc (\<lambda>d s.
     if \<not> n_Status d then (Ok (False, d), s)
     else and_then (when_queued lotteryExclude (d\<lparr>n_Status := False\<rparr>) s) (\<lambda>d s. (Ok (True, d), s))) s"

definition EventValidatorBanished :: "'s nod_keeper \<Rightarrow> addr \<Rightarrow> reason \<Rightarrow> event" where
  "EventValidatorBanished k acc reason = (''validator_banished'', [AStr (AccString (nk_sdk k) acc), AInt reason])"

definition OnStatusUpdate :: "'s nod_keeper \<Rightarrow> addr \<Rightarrow> 's nod_op" where
  "OnStatusUpdate k acc s =
     (if \<not> IsValidator acc s then (Ok (), s)
      else and_then (lift_res (IsQualified k acc s) s) (\<lambda>(is, _, reason) s.
        if is then (Ok (), s)
        else and_then (SwitchOff acc s) (\<lambda>_ s. (Ok (), emit (EventValidatorBanished k acc reason) s))))"

text \<open>
  When the stake of an active validator is no longer enough, the number in the lottery is given
  up and the event emitted, but the record is not saved.
\<close>

definition OnStakeChanged :: "'s nod_keeper \<Rightarrow> addr \<Rightarrow> 's nod_op" where
  "OnStakeChanged k acc s =
     (case nod_store s acc of
        None \<Rightarrow> (Ok (), s)
      | Some record \<Rightarrow>
          and_then (lift_res (IsQualified k acc s) s) (\<lambda>(isQ, delegation, reason) s.
          and_then (lift_res (Int64 delegation) s) (\<lambda>stake s.
          let (record', changed) = UpdateScore (nk_keys k) stake record
          in if IsActive record \<and> \<not> isQ then
               and_then (when_queued lotteryExclude (record'\<lparr>n_Status := False\<rparr>) s) (\<lambda>_ s.
               (Ok (), emit (EventValidatorBanished k acc reason) s))
             else (Ok (), if changed then nod_set acc record' s else s))))"

section \<open>Strokes, ticks and misbehaviour\<close>

definition EventValidatorJailed :: "'s nod_keeper \<Rightarrow> addr \<Rightarrow> event" where
  "EventValidatorJailed k acc = (''validator_jailed'', [AStr (AccString (nk_sdk k) acc)])"

definition stroke_record :: "nod_info \<Rightarrow> nod_info" where
  "stroke_record d = d\<lparr>n_Score := wrap64 (wrap64 (n_Score d - quo (n_OkBlocksInRow d) 100) - 1),
     n_Strokes := wrap64 (n_Strokes d + 1), n_OkBlocksInRow := 0,
     n_MissedBlocksInRow := wrap64 (n_MissedBlocksInRow d + 1)\<rparr>"

definition MarkStroke :: "'s nod_keeper \<Rightarrow> addr \<Rightarrow> 's nod_op" where
  "MarkStroke k acc s = (let p = nod_GetParams s in nod_update acc (\<lambda>d s.
     if n_Jailed d then (Ok (False, d), s)
     else
       let d1 = stroke_record d
       in if n_MissedBlocksInRow d1 \<ge> JailAfter p
          then
            and_then (when_queued lotteryExclude (d1\<lparr>n_Jailed := True,
                n_UnjailAt := wrap64 (block_height s + UnjailAfter p), n_JailCount := wrap64 (n_JailCount d1 + 1),
                n_MissedBlocksInRow := 0\<rparr>) s) (\<lambda>d s.
              (Ok (True, d), emit (EventValidatorJailed k acc) s))
          else and_then (when_queued (lotteryDownshift acc) d1 s) (\<lambda>d s. (Ok (True, d), s))) s)"

definition tick_record :: "nod_info \<Rightarrow> nod_info" where
  "tick_record d =
     (let n = wrap64 (n_OkBlocksInRow d + 1)
      in d\<lparr>n_MissedBlocksInRow := 0, n_OkBlocksInRow := n,
           n_Score := (if 100 dvd n then wrap64 (n_Score d + 1) else n_Score d)\<rparr>)"

definition MarkTick :: "addr \<Rightarrow> 's nod_op" where
  "MarkTick acc s = nod_update acc (\<lambda>d s. (Ok (True, tick_record d), s)) s"

definition confiscate :: "'s nod_keeper \<Rightarrow> addr \<Rightarrow> 's nod_ctx_scheme \<Rightarrow> coins res \<times> 's nod_ctx_scheme" where
  "confiscate k acc s =
     (let share = MisbehaviourPenalty (nod_GetParams s)
      in and_then (lift_res (if IsNullValue share then Ok True else IsZero share) s) (\<lambda>off s.
         if off then (Ok [], s)
         else
           and_then (lift_res (GetBalance (nk_bank k) acc s) s) (\<lambda>balance s.
           let stake = AmountOf (nk_sdk k) balance ConfigDelegatedDenom
           in if \<not> stake > 0 then (Ok [], s)
              else
                and_then (lift_res (bind_res (Int64 stake) (\<lambda>st. bind_res (MulInt64 share st) Frac_Int64)) s) (\<lambda>amount s.
                if amount \<le> 0 then (Ok [], s)
                else
                  and_then (lift_res (one_coin (nk_sdk k) ConfigDelegatedDenom amount) s) (\<lambda>penalty s.
                  and_then (SendCoinsFromAccountToModule (nk_bank k) acc NodingModuleName penalty s) (\<lambda>_ s.
                  (Ok penalty, s)))))))"

text \<open>An error is logged and forgotten, what was written before it is not.\<close>

fun log_error :: "'a \<Rightarrow> 'a res \<times> 's \<Rightarrow> 'a res \<times> 's" where
  "log_error x (Err e, s) = (Ok x, s)"
| "log_error x r = r"

definition EventByzantine :: "'s nod_keeper \<Rightarrow> addr \<Rightarrow> nod_info \<Rightarrow> bool \<Rightarrow> coins \<Rightarrow> event" where
  "EventByzantine k acc d banned penalty = (''byzantine'',
     [AStr (AccString (nk_sdk k) acc), AInts (map mb_Height (n_Infractions d)), ABool banned,
      AStrs (map fst penalty), AInts (map snd penalty)])"

definition MarkByzantine :: "'s nod_keeper \<Rightarrow> addr \<Rightarrow> misbehavior \<Rightarrow> 's nod_op" where
  "MarkByzantine k acc evidence s =
     and_then (log_error [] (confiscate k acc s)) (\<lambda>penalty s.
     nod_update acc (\<lambda>d s.
       let d1 = d\<lparr>n_Infractions := n_Infractions d @ [evidence]\<rparr>
       in if length (n_Infractions d1) > 1
          then and_then (when_queued lotteryExclude (d1\<lparr>n_BannedForLife := True, n_Status := False\<rparr>) s) (\<lambda>d2 s.
            (Ok (True, d2), emit (EventByzantine k acc d1 True penalty) s))
          else and_then (when_queued (lotteryDownshift acc) d1 s) (\<lambda>d2 s.
            (Ok (True, d2), emit (EventByzantine k acc d1 False penalty) s))) s)"

definition nod_Unjail :: "'s nod_keeper \<Rightarrow> addr \<Rightarrow> 's nod_op" where
  "nod_Unjail k acc s =
     and_then (lift_res (nod_Get acc s) s) (\<lambda>data s.
     if \<not> n_Jailed data then (Err ErrNotJailed, s)
     else if block_height s < n_UnjailAt data then (Err ErrJailPeriodNotOver, s)
     else
       and_then (lift_res (IsQualified k acc s) s) (\<lambda>(q, delegation, reason) s.
       if q then
         and_then (lift_res (Int64 delegation) s) (\<lambda>stake s.
         (Ok (), nod_set acc (fst (UpdateScore (nk_keys k) stake (data\<lparr>n_Jailed := False\<rparr>))) s))
       else
         (Ok (), nod_set acc (data\<lparr>n_Jailed := False, n_Status := False\<rparr>)
            (emit (EventValidatorBanished k acc reason) s))))"

end
