(* ===== verification/Profile.thy ===== *)
theory Profile
  imports Profile_Types Noding_Types Noding
begin

text \<open>
  The keeper of \<open>x/profile\<close>: profiles with their nickname and card indices, accounts, the
  monthly tariff and the purchases of storage, VPN and IM space. The state extends that of
  \<open>x/noding\<close>; money goes through the bank keeper, activity through the referral keeper, the
  monthly routines through the scheduler. A pointer to a profile that is not there is \<open>None\<close>,
  and following it is a panic.

  Account numbers belong to the account keeper: \<open>pk_number\<close> is the number it gives an address.
\<close>

unbundle bit_operations_syntax

section \<open>State\<close>

record prof_ctx = nod_ctx +
  prof_store :: "addr \<rightharpoonup> profile"
  prof_aliases :: "string \<rightharpoonup> addr"
  prof_cards :: "64 word \<rightharpoonup> addr"
  prof_params_store :: "prof_params option"
  prof_index_marked :: bool

record 's prof_keeper =
  pk_bank :: "'s prof_ctx_ext nod_ctx_ext ref_ctx_ext bank_keeper"
  pk_ref :: "'s prof_ctx_ext nod_ctx_ext ref_keeper"
  pk_text :: text_lib
  pk_number :: "addr \<Rightarrow> 64 word"

abbreviation pk_sdk :: "'s prof_keeper \<Rightarrow> sdk" where "pk_sdk k \<equiv> bk_sdk (pk_bank k)"

type_synonym 's prof_op = "'s prof_ctx_scheme \<Rightarrow> unit res \<times> 's prof_ctx_scheme"

definition RefreshHookName :: string where "RefreshHookName = ''profile/refresh''"
definition RefreshImHookName :: string where "RefreshImHookName = ''profile/refresh-im''"

section \<open>Parameters\<close>

definition prof_GetParams :: "'s prof_ctx_scheme \<Rightarrow> prof_params" where
  "prof_GetParams s = (case prof_params_store s of None \<Rightarrow> zero_prof_params | Some p \<Rightarrow> p)"

text \<open>The card magic cannot be changed; 0 stands for the old one.\<close>

definition prof_SetParams :: "prof_params \<Rightarrow> 's prof_op" where
  "prof_SetParams params s =
     (case prof_params_store s of
        None \<Rightarrow> (Ok (), s\<lparr>prof_params_store := Some params\<rparr>)
      | Some old \<Rightarrow>
          if CardMagic params = CardMagic old then (Ok (), s\<lparr>prof_params_store := Some params\<rparr>)
          else if CardMagic params = 0
            then (Ok (), s\<lparr>prof_params_store := Some (params\<lparr>CardMagic := CardMagic old\<rparr>)\<rparr>)
          else (Panic (Text ''card number magic must not be changed''), s))"

definition AddFreeCreator :: "'s prof_keeper \<Rightarrow> addr \<Rightarrow> 's prof_op" where
  "AddFreeCreator k creator s = (let p = prof_GetParams s in
     prof_SetParams (p\<lparr>Creators := params_add (Creators p) (AccString (pk_sdk k) creator)\<rparr>) s)"

definition RemoveFreeCreator :: "'s prof_keeper \<Rightarrow> addr \<Rightarrow> 's prof_op" where
  "RemoveFreeCreator k creator s = (let p = prof_GetParams s in
     prof_SetParams (p\<lparr>Creators := params_remove (Creators p) (AccString (pk_sdk k) creator)\<rparr>) s)"

definition AddTokenRateSigner :: "'s prof_keeper \<Rightarrow> addr \<Rightarrow> 's prof_op" where
  "AddTokenRateSigner k signer s = (let p = prof_GetParams s in
     prof_SetParams (p\<lparr>TokenRateSigners := params_add (TokenRateSigners p) (AccString (pk_sdk k) signer)\<rparr>) s)"

definition RemoveTokenRateSigner :: "'s prof_keeper \<Rightarrow> addr \<Rightarrow> 's prof_op" where
  "RemoveTokenRateSigner k signer s = (let p = prof_GetParams s in
     prof_SetParams (p\<lparr>TokenRateSigners := params_remove (TokenRateSigners p) (AccString (pk_sdk k) signer)\<rparr>) s)"

definition AddVpnCurrentSigner :: "'s prof_keeper \<Rightarrow> addr \<Rightarrow> 's prof_op" where
  "AddVpnCurrentSigner k signer s = (let p = prof_GetParams s in
     prof_SetParams (p\<lparr>VpnSigners := params_add (VpnSigners p) (AccString (pk_sdk k) signer)\<rparr>) s)"

definition RemoveVpnCurrentSigner :: "'s prof_keeper \<Rightarrow> addr \<Rightarrow> 's prof_op" where
  "RemoveVpnCurrentSigner k signer s = (let p = prof_GetParams s in
     prof_SetParams (p\<lparr>VpnSigners := params_remove (VpnSigners p) (AccString (pk_sdk k) signer)\<rparr>) s)"

definition AddStorageCurrentSigner :: "'s prof_keeper \<Rightarrow> addr \<Rightarrow> 's prof_op" where
  "AddStorageCurrentSigner k signer s = (let p = prof_GetParams s in
     prof_SetParams (p\<lparr>StorageSigners := params_add (StorageSigners p) (AccString (pk_sdk k) signer)\<rparr>) s)"

definition RemoveStorageCurrentSigner :: "'s prof_keeper \<Rightarrow> addr \<Rightarrow> 's prof_op" where
  "RemoveStorageCurrentSigner k signer s = (let p = prof_GetParams s in
     prof_SetParams (p\<lparr>StorageSigners := params_remove (StorageSigners p) (AccString (pk_sdk k) signer)\<rparr>) s)"

section \<open>Profiles and their indices\<close>

definition prof_MarkIndexStores :: "'s prof_ctx_scheme \<Rightarrow> 's prof_ctx_scheme" where
  "prof_MarkIndexStores s = s\<lparr>prof_index_marked := True\<rparr>"

definition GetProfile :: "addr \<Rightarrow> 's prof_ctx_scheme \<Rightarrow> profile option" where
  "GetProfile addr s = prof_store s addr"

definition write_profile :: "addr \<Rightarrow> profile \<Rightarrow> 's prof_ctx_scheme \<Rightarrow> 's prof_ctx_scheme" where
  "write_profile addr p s = s\<lparr>prof_store := (prof_store s)(addr \<mapsto> p)\<rparr>"

definition GetProfileAccountByNickname :: "'s prof_keeper \<Rightarrow> string \<Rightarrow> 's prof_ctx_scheme \<Rightarrow> addr option" where
  "GetProfileAccountByNickname k nickname s = prof_aliases s (ToLower (pk_text k) nickname)"

definition setProfileAccountByNickname :: "'s prof_keeper \<Rightarrow> string \<Rightarrow> addr \<Rightarrow> 's prof_ctx_scheme \<Rightarrow> 's prof_ctx_scheme" where
  "setProfileAccountByNickname k nickname addr s =
     s\<lparr>prof_aliases := (prof_aliases s)(ToLower (pk_text k) nickname \<mapsto> addr)\<rparr>"

definition removeProfileAccountByNickname :: "'s prof_keeper \<Rightarrow> string \<Rightarrow> 's prof_ctx_scheme \<Rightarrow> 's prof_ctx_scheme" where
  "removeProfileAccountByNickname k nickname s =
     s\<lparr>prof_aliases := (prof_aliases s)(ToLower (pk_text k) nickname := None)\<rparr>"

definition GetProfileAccountByCardNumber :: "64 word \<Rightarrow> 's prof_ctx_scheme \<Rightarrow> addr option" where
  "GetProfileAccountByCardNumber cardNumber s = prof_cards s cardNumber"

definition setProfileAccountByCardNumber :: "64 word \<Rightarrow> addr \<Rightarrow> 's prof_ctx_scheme \<Rightarrow> 's prof_ctx_scheme" where
  "setProfileAccountByCardNumber cardNumber addr s = s\<lparr>prof_cards := (prof_cards s)(cardNumber \<mapsto> addr)\<rparr>"

definition removeProfileAccountByCardNumber :: "64 word \<Rightarrow> 's prof_ctx_scheme \<Rightarrow> 's prof_ctx_scheme" where
  "removeProfileAccountByCardNumber cardNumber s = s\<lparr>prof_cards := (prof_cards s)(cardNumber := None)\<rparr>"

definition ValidateProfileNickname :: "'s prof_keeper \<Rightarrow> addr \<Rightarrow> string \<Rightarrow> 's prof_ctx_scheme \<Rightarrow> unit res" where
  "ValidateProfileNickname k addr nickname s =
     (if nickname = [] then Ok ()
      else if HasPrefix (ToTitle (pk_text k) nickname) ''ARTR-'' then Err ErrNicknamePrefix
      else (case GetProfileAccountByNickname k nickname s of
              None \<Rightarrow> Ok ()
            | Some namesake \<Rightarrow> if namesake \<noteq> addr then Err ErrNicknameAlreadyInUse else Ok ()))"

text \<open>
  The indices of a profile that replaces another one. The old nickname is taken out of the index
  as it stands in the profile, the new one put in without the white space around it; a rename is
  charged a fee, after the old nickname is gone.
\<close>

definition rename :: "'s prof_keeper \<Rightarrow> addr \<Rightarrow> profile \<Rightarrow> profile \<Rightarrow> string \<Rightarrow> 's prof_op" where
  "rename k addr old new nickname s =
     (if Nickname old = Nickname new then (Ok (), s)
      else
        let s = (if Nickname old \<noteq> [] then removeProfileAccountByNickname k (Nickname old) s else s)
        in if nickname = [] then (Ok (), s)
           else
             and_then (lift_res (Uartrs (pk_sdk k) 1000000) s) (\<lambda>fee s.
             and_then (SendCoinsFromAccountToModule (pk_bank k) addr FeeCollectorName fee s) (\<lambda>_ s.
             (Ok (), setProfileAccountByNickname k nickname addr s))))"

definition reissue_card :: "addr \<Rightarrow> profile \<Rightarrow> profile \<Rightarrow> 's prof_ctx_scheme \<Rightarrow> profile \<times> 's prof_ctx_scheme" where
  "reissue_card addr old new s =
     (if CardNumber new = 0 then (new\<lparr>CardNumber := CardNumber old\<rparr>, s)
      else if CardNumber old = CardNumber new then (new, s)
      else (new, setProfileAccountByCardNumber (CardNumber new) addr
              (if CardNumber old \<noteq> 0 then removeProfileAccountByCardNumber (CardNumber old) s else s)))"

definition first_indices :: "'s prof_keeper \<Rightarrow> addr \<Rightarrow> profile \<Rightarrow> string \<Rightarrow> 's prof_ctx_scheme \<Rightarrow> 's prof_ctx_scheme" where
  "first_indices k addr p nickname s =
     (let s = (if nickname \<noteq> [] then setProfileAccountByNickname k nickname addr s else s)
      in if CardNumber p \<noteq> 0 then setProfileAccountByCardNumber (CardNumber p) addr s else s)"

definition SetProfile :: "'s prof_keeper \<Rightarrow> addr \<Rightarrow> profile \<Rightarrow> 's prof_op" where
  "SetProfile k addr p s =
     (let old = GetProfile addr s; nickname = TrimSpace (pk_text k) (Nickname p)
      in and_then (lift_res (ValidateProfileNickname k addr nickname s) s) (\<lambda>_ s.
         and_then
           (case old of
              None \<Rightarrow> (Ok p, first_indices k addr p nickname s)
            | Some o' \<Rightarrow> and_then (rename k addr o' p nickname s) (\<lambda>_ s.
                (case reissue_card addr o' p s of (p', s) \<Rightarrow> (Ok p', s)))) (\<lambda>p s.
         let s = write_profile addr p s; s = s\<lparr>accounts := insert addr (accounts s)\<rparr>;
             active = prof_IsActive p s
         in if active \<noteq> (case old of None \<Rightarrow> False | Some o' \<Rightarrow> prof_IsActive o' s)
            then MustSetActive (pk_ref k) (AccString (pk_sdk k) addr) active s
            else (Ok (), s))))"

definition CardNumberByAccountNumber :: "64 word \<Rightarrow> 's prof_ctx_scheme \<Rightarrow> 64 word" where
  "CardNumberByAccountNumber accNumber s = accNumber XOR CardMagic (prof_GetParams s)"

definition CreateAccountWithProfile :: "'s prof_keeper \<Rightarrow> addr \<Rightarrow> addr \<Rightarrow> profile \<Rightarrow> 's prof_op" where
  "CreateAccountWithProfile k addr refAddr p s =
     and_then (AppendChild (pk_ref k) (AccString (pk_sdk k) refAddr) (AccString (pk_sdk k) addr)
         (s\<lparr>accounts := insert addr (accounts s)\<rparr>)) (\<lambda>_ s.
     and_then (ScheduleCompression (AccString (pk_sdk k) addr) (block_time s + CompressionPeriod s) s) (\<lambda>_ s.
     SetProfile k addr (p\<lparr>CardNumber := CardNumberByAccountNumber (pk_number k addr) s\<rparr>) s))"

definition CreateAccount :: "'s prof_keeper \<Rightarrow> addr \<Rightarrow> addr \<Rightarrow> 's prof_op" where
  "CreateAccount k addr refAddr s = CreateAccountWithProfile k addr refAddr zero_profile s"

definition SetStorageCurrent :: "addr \<Rightarrow> 64 word \<Rightarrow> 's prof_op" where
  "SetStorageCurrent addr v s =
     (case GetProfile addr s of
        None \<Rightarrow> (Err prof_ErrNotFound, s)
      | Some p \<Rightarrow> (Ok (), write_profile addr (p\<lparr>StorageCurrent := v\<rparr>) s))"

definition SetVpnCurrent :: "addr \<Rightarrow> 64 word \<Rightarrow> 's prof_op" where
  "SetVpnCurrent addr v s =
     (case GetProfile addr s of
        None \<Rightarrow> (Err prof_ErrNotFound, s)
      | Some p \<Rightarrow> (Ok (), write_profile addr (p\<lparr>VpnCurrent := v\<rparr>) s))"

section \<open>The tariff\<close>

definition monthPart :: "time \<Rightarrow> 's prof_ctx_scheme \<Rightarrow> fraction res" where
  "monthPart end_time s = Reduce (NewFraction (time_sub end_time (block_time s)) (OneMonth s))"

definition scheduleRenew :: "addr \<Rightarrow> time \<Rightarrow> 's prof_op" where
  "scheduleRenew addr t s = ScheduleTask t RefreshHookName addr s"

definition scheduleRenewIm :: "addr \<Rightarrow> time \<Rightarrow> 's prof_op" where
  "scheduleRenewIm addr t s = ScheduleTask t RefreshImHookName addr s"

definition gigabytes :: "int \<Rightarrow> 64 word" where
  "gigabytes n = word_of_int n * word_of_int GBSize"

definition limits_reset :: "prof_params \<Rightarrow> profile \<Rightarrow> profile" where
  "limits_reset p prof =
     (let baseVpn = gigabytes (BaseVpnGb p);
          limit = (if VpnCurrent prof > baseVpn then VpnLimit prof - (VpnCurrent prof - baseVpn) else VpnLimit prof)
      in prof\<lparr>VpnCurrent := 0, VpnLimit := (if limit < baseVpn then baseVpn else limit),
              StorageLimit := (if StorageLimit prof = 0 then gigabytes (BaseStorageGb p) else StorageLimit prof)\<rparr>)"

definition resetLimits ::
    "'s prof_keeper \<Rightarrow> addr \<Rightarrow> prof_params \<Rightarrow> profile \<Rightarrow> 's prof_ctx_scheme \<Rightarrow> profile \<times> 's prof_ctx_scheme" where
  "resetLimits k addr p prof s =
     (limits_reset p prof, emit (''update_limits_reset_used'', [AStr (AccString (pk_sdk k) addr)]) s)"

text \<open>The storage a tariff is for, in bytes.\<close>

definition tariff_storage :: "prof_params \<Rightarrow> profile option \<Rightarrow> int \<Rightarrow> (profile \<times> 64 word) res" where
  "tariff_storage p prof storageGb =
     (if storageGb = 0 then
        (case prof of
           None \<Rightarrow> Panic nil_deref
         | Some x \<Rightarrow> Ok (x, if StorageLimit x = 0 then gigabytes (BaseStorageGb p) else StorageLimit x))
      else if storageGb < BaseStorageGb p then Err (Text ''storage amount is below minimum'')
      else
        (case prof of
           None \<Rightarrow> Panic nil_deref
         | Some x \<Rightarrow> if gigabytes storageGb < StorageCurrent x
                     then Err (Text ''storage amount is below current consumption'')
                     else Ok (x, gigabytes storageGb)))"

text \<open>
  The price of the storage above the base one, and the change of the limit for the rest of the
  paid month. Only the limit of an active profile is changed.
\<close>

definition base_storage_fee :: "prof_params \<Rightarrow> 64 word \<Rightarrow> fraction res" where
  "base_storage_fee p storageB =
     bind_res (MulInt64 (TokenRate p)
         (wrap64 (wrap64 (sint storageB - BaseStorageGb p * GBSize) * StorageGbPrice p))) (\<lambda>x.
     bind_res (DivInt64 x GBSize) Reduce)"

definition storage_change_fee :: "prof_params \<Rightarrow> 64 word \<Rightarrow> 64 word \<Rightarrow> fraction \<Rightarrow> fraction res" where
  "storage_change_fee p storageB limit part =
     bind_res (MulInt64 (TokenRate p) (wrap64 (sint storageB - sint limit))) (\<lambda>x.
     bind_res (DivInt64 x GBSize) (\<lambda>x.
     bind_res (Reduce x) (\<lambda>x.
     bind_res (MulInt64 x (StorageGbPrice p)) (\<lambda>x.
     bind_res (Mul x part) Reduce))))"

definition storage_fee ::
    "prof_params \<Rightarrow> profile \<Rightarrow> 64 word \<Rightarrow> 's prof_ctx_scheme \<Rightarrow> (fraction \<times> profile) res" where
  "storage_fee p prof storageB s =
     bind_res (base_storage_fee p storageB) (\<lambda>fee.
     if prof_IsActive prof s \<and> storageB \<noteq> StorageLimit prof then
       bind_res (monthPart (the (ActiveUntil prof)) s) (\<lambda>part.
       bind_res (storage_change_fee p storageB (StorageLimit prof) part) (\<lambda>change.
       bind_res (Add fee change) (\<lambda>fee.
       bind_res (IsNegative fee) (\<lambda>neg.
       Ok (if neg then FractionZero else fee, prof\<lparr>StorageLimit := storageB\<rparr>)))))
     else Ok (fee, prof))"

text \<open>A banished account comes back before it pays.\<close>

definition come_back_first :: "'s prof_keeper \<Rightarrow> addr \<Rightarrow> 's prof_op" where
  "come_back_first k addr s =
     (if r_Banished (ref_Get (AccString (pk_sdk k) addr) s)
      then ComeBack (pk_ref k) (AccString (pk_sdk k) addr) s else (Ok (), s))"

definition pay_tariff_parts ::
    "'s prof_keeper \<Rightarrow> addr \<Rightarrow> int \<Rightarrow> int \<Rightarrow> int \<Rightarrow> 's prof_ctx_scheme \<Rightarrow> (addr \<times> addr) res \<times> 's prof_ctx_scheme" where
  "pay_tariff_parts k addr tariff txFee whole s =
     (let L = pk_sdk k;
          feeAcc = (case bk_module_addr (pk_bank k) SplittableFeeCollectorName of None \<Rightarrow> [] | Some a \<Rightarrow> a)
      in and_then (lift_res (GetForSubscription L (ForSubscription (ref_GetParams s))) s) (\<lambda>company s.
         and_then (lift_res (one_coin L ConfigMainDenom tariff) s) (\<lambda>tariffCoins s.
         and_then (lift_res (if txFee = 0 then Ok []
             else bind_res (one_coin L ConfigMainDenom txFee) (\<lambda>c. Ok [\<lparr>Address = feeAcc, Coins = c\<rparr>])) s) (\<lambda>feePart s.
         and_then (lift_res (one_coin L ConfigMainDenom whole) s) (\<lambda>totalCoins s.
         and_then (InputOutputCoins (pk_bank k) [\<lparr>Address = addr, Coins = totalCoins\<rparr>]
             (\<lparr>Address = company, Coins = tariffCoins\<rparr> # feePart) s) (\<lambda>_ s.
         (Ok (company, feeAcc), s)))))))"

definition EventActivityChanged :: "'s prof_keeper \<Rightarrow> addr \<Rightarrow> bool \<Rightarrow> event" where
  "EventActivityChanged k addr now = (''activity_changed'', [AStr (AccString (pk_sdk k) addr), ABool now])"

definition prolong_profile ::
    "'s prof_keeper \<Rightarrow> addr \<Rightarrow> prof_params \<Rightarrow> bool \<Rightarrow> profile \<Rightarrow> 's prof_ctx_scheme \<Rightarrow> profile res \<times> 's prof_ctx_scheme" where
  "prolong_profile k addr p isAutoPay prof s =
     (if \<not> prof_IsActive prof s \<and> \<not> isAutoPay then
        (case resetLimits k addr p (prof\<lparr>ActiveUntil := Some (block_time s + OneMonth s)\<rparr>) s of
           (prof, s) \<Rightarrow> (Ok prof, emit (EventActivityChanged k addr True) s))
      else
        (case ActiveUntil prof of
           None \<Rightarrow> (Panic nil_deref, s)
         | Some t \<Rightarrow>
             let prof = prof\<lparr>ActiveUntil := Some (t + OneMonth s)\<rparr>
             in if isAutoPay then (case resetLimits k addr p prof s of (prof, s) \<Rightarrow> (Ok prof, s)) else (Ok prof, s)))"

definition EventPayTariff :: "'s prof_keeper \<Rightarrow> addr \<Rightarrow> addr \<Rightarrow> int \<Rightarrow> int \<Rightarrow> time \<Rightarrow> event" where
  "EventPayTariff k addr company tariff whole expireAt = (''pay_tariff'', [AStr (AccString (pk_sdk k) addr),
     AStrs [AccString (pk_sdk k) company], AInts [tariff], AInt whole, AInt expireAt])"

definition PayTariff :: "'s prof_keeper \<Rightarrow> addr \<Rightarrow> int \<Rightarrow> bool \<Rightarrow> 's prof_op" where
  "PayTariff k addr storageGb isAutoPay s =
     (let p = prof_GetParams s; bp = bank_GetParams s; L = pk_sdk k
      in and_then (lift_res (tariff_storage p (GetProfile addr s) storageGb) s) (\<lambda>(prof, storageB) s.
         and_then (lift_res (bind_res (MulInt64 (TokenRate p) (SubscriptionPrice p)) BigInt) s) (\<lambda>tariff s.
         and_then (lift_res (CalculateFee tariff (TransactionFee bp) (MaxTransactionFee bp)
             (ForProposer (TransactionFeeSplitRatios bp)) (ForCompany (TransactionFeeSplitRatios bp))) s) (\<lambda>txFee s.
         and_then (come_back_first k addr s) (\<lambda>_ s.
         and_then (lift_res (storage_fee p prof storageB s) s) (\<lambda>(fee, prof) s.
         and_then (lift_res (BigInt fee) s) (\<lambda>storageFee s.
         let whole = tariff + storageFee; tariff = whole - txFee
         in and_then (pay_tariff_parts k addr tariff txFee whole s) (\<lambda>(company, feeAcc) s.
            and_then (prolong_profile k addr p isAutoPay prof s) (\<lambda>prof s.
            and_then (scheduleRenew addr (the (ActiveUntil prof)) s) (\<lambda>_ s.
            and_then (SetProfile k addr prof s) (\<lambda>_ s.
            and_then (lift_res (bind_res (Uint64 tariff) (\<lambda>_. bind_res (Uint64 whole) (\<lambda>_.
                one_coin L ConfigMainDenom txFee))) s) (\<lambda>feeCoins s.
            (Ok (), emit (EventTransfer (pk_bank k) addr feeAcc feeCoins)
               (emit (EventPayTariff k addr company tariff whole (the (ActiveUntil prof))) s))))))))))))))"

end
