(* ===== verification/Earning.thy ===== *)
theory Earning
  imports Profile
begin

text \<open>
  \<open>x/earning\<close>: who was last seen serving VPN and storage. The store extends the state of
  \<open>x/profile\<close>; of the keeper the operations need the address library only.
\<close>

section \<open>State\<close>

record timestamps =
  ts_Vpn :: "time option"
  ts_Storage :: "time option"

record earner =
  e_Account :: string
  e_Vpn :: "time option"
  e_Storage :: "time option"

record earn_params =
  e_Signers :: "string list"

record earn_ctx = prof_ctx +
  earn_store :: "addr \<rightharpoonup> timestamps"
  earn_params_store :: "earn_params option"

type_synonym 's earn_op = "'s earn_ctx_scheme \<Rightarrow> unit res \<times> 's earn_ctx_scheme"

definition NewTimestamps :: "time option \<Rightarrow> time option \<Rightarrow> timestamps" where
  "NewTimestamps vpn storage = \<lparr>ts_Vpn = vpn, ts_Storage = storage\<rparr>"

definition NewEarner :: "sdk \<Rightarrow> addr \<Rightarrow> time option \<Rightarrow> time option \<Rightarrow> earner" where
  "NewEarner L acc vpn storage = \<lparr>e_Account = AccString L acc, e_Vpn = vpn, e_Storage = storage\<rparr>"

definition GetTimestamps :: "earner \<Rightarrow> timestamps" where
  "GetTimestamps e = \<lparr>ts_Vpn = e_Vpn e, ts_Storage = e_Storage e\<rparr>"

section \<open>Parameters\<close>

definition earn_NewParams :: "sdk \<Rightarrow> addr list \<Rightarrow> earn_params" where
  "earn_NewParams L signers = \<lparr>e_Signers = map (AccString L) signers\<rparr>"

definition earn_GetSigners :: "sdk \<Rightarrow> earn_params \<Rightarrow> addr list res" where
  "earn_GetSigners L p = fill_slots L 0 (e_Signers p) (replicate (length (e_Signers p)) [])"

definition validateSigners :: "sdk \<Rightarrow> string list \<Rightarrow> unit res" where
  "validateSigners L accz = (if accz = [] then Err (Text ''signers list is empty'') else prof_addresses_ok L accz)"

definition earn_params_Validate :: "sdk \<Rightarrow> earn_params \<Rightarrow> unit res" where
  "earn_params_Validate L p = validateSigners L (e_Signers p)"

definition earn_GetParams :: "'s earn_ctx_scheme \<Rightarrow> earn_params" where
  "earn_GetParams s = (case earn_params_store s of None \<Rightarrow> \<lparr>e_Signers = []\<rparr> | Some p \<Rightarrow> p)"

definition earn_SetParams :: "earn_params \<Rightarrow> 's earn_ctx_scheme \<Rightarrow> 's earn_ctx_scheme" where
  "earn_SetParams p s = s\<lparr>earn_params_store := Some p\<rparr>"

text \<open>A signer is added without looking whether it is there.\<close>

definition AddSigner :: "sdk \<Rightarrow> addr \<Rightarrow> 's earn_ctx_scheme \<Rightarrow> 's earn_ctx_scheme" where
  "AddSigner L address s =
     (let p = earn_GetParams s in earn_SetParams (p\<lparr>e_Signers := e_Signers p @ [AccString L address]\<rparr>) s)"

definition RemoveSigner :: "sdk \<Rightarrow> addr \<Rightarrow> 's earn_ctx_scheme \<Rightarrow> 's earn_ctx_scheme" where
  "RemoveSigner L address s =
     (let p = earn_GetParams s
      in if AccString L address \<in> set (e_Signers p)
         then earn_SetParams (p\<lparr>e_Signers := params_remove (e_Signers p) (AccString L address)\<rparr>) s else s)"

section \<open>The keeper\<close>

definition earn_has :: "addr \<Rightarrow> 's earn_ctx_scheme \<Rightarrow> bool" where
  "earn_has acc s \<longleftrightarrow> earn_store s acc \<noteq> None"

definition earn_get :: "addr \<Rightarrow> 's earn_ctx_scheme \<Rightarrow> timestamps" where
  "earn_get acc s = (case earn_store s acc of None \<Rightarrow> NewTimestamps None None | Some t \<Rightarrow> t)"

definition earn_set :: "addr \<Rightarrow> timestamps \<Rightarrow> 's earn_ctx_scheme \<Rightarrow> 's earn_ctx_scheme" where
  "earn_set acc t s = s\<lparr>earn_store := (earn_store s)(acc \<mapsto> t)\<rparr>"

definition earn_delete :: "addr \<Rightarrow> 's earn_ctx_scheme \<Rightarrow> 's earn_ctx_scheme" where
  "earn_delete acc s = s\<lparr>earn_store := (earn_store s)(acc := None)\<rparr>"

definition earn_clear :: "'s earn_ctx_scheme \<Rightarrow> 's earn_ctx_scheme" where
  "earn_clear s = fold earn_delete (store_keys (earn_store s)) s"

text \<open>Two days after it was seen, a service counts no more, and its time is forgotten.\<close>

definition still_seen :: "time option \<Rightarrow> 's earn_ctx_scheme \<Rightarrow> bool" where
  "still_seen t s = (case t of None \<Rightarrow> False | Some x \<Rightarrow> x + wrap64 (2 * OneDay s) > block_time s)"

definition IsActiveEarner :: "addr \<Rightarrow> 's earn_ctx_scheme \<Rightarrow> (bool \<times> bool) res \<times> 's earn_ctx_scheme" where
  "IsActiveEarner acc s =
     (if \<not> earn_has acc s then (Ok (False, False), s)
      else
        let t = earn_get acc s; vpn = still_seen (ts_Vpn t) s; storage = still_seen (ts_Storage t) s;
            t' = NewTimestamps (if vpn then ts_Vpn t else None) (if storage then ts_Storage t else None);
            updateTimestamps = (ts_Vpn t \<noteq> None \<and> \<not> vpn \<or> ts_Storage t \<noteq> None \<and> \<not> storage)
        in (Ok (vpn, storage),
            if ts_Vpn t' = None \<and> ts_Storage t' = None then earn_delete acc s
            else if updateTimestamps then earn_set acc t' s else s))"

section \<open>Genesis\<close>

record earn_genesis =
  eg_Params :: earn_params
  eg_Earners :: "earner list"

definition earn_DefaultGenesisState :: earn_genesis where
  "earn_DefaultGenesisState = \<lparr>eg_Params = \<lparr>e_Signers = []\<rparr>, eg_Earners = []\<rparr>"

definition earn_ValidateGenesis :: "sdk \<Rightarrow> earn_genesis \<Rightarrow> unit res" where
  "earn_ValidateGenesis L data =
     bind_res (earn_params_Validate L (eg_Params data)) (\<lambda>_. prof_addresses_ok L (map e_Account (eg_Earners data)))"

definition GetEarners :: "sdk \<Rightarrow> 's earn_ctx_scheme \<Rightarrow> earner list" where
  "GetEarners L s = map (\<lambda>(acc, t). NewEarner L acc (ts_Vpn t) (ts_Storage t)) (store_items (earn_store s))"

definition SetEarners :: "sdk \<Rightarrow> earner list \<Rightarrow> 's earn_op" where
  "SetEarners L earners = for_each earners (\<lambda>e s.
     and_then (lift_res (msg_address L (e_Account e)) s) (\<lambda>acc s. (Ok (), earn_set acc (GetTimestamps e) s)))"

definition earn_InitGenesis :: "sdk \<Rightarrow> earn_genesis \<Rightarrow> 's earn_op" where
  "earn_InitGenesis L data s = SetEarners L (eg_Earners data) (earn_SetParams (eg_Params data) s)"

definition earn_ExportGenesis :: "sdk \<Rightarrow> 's earn_ctx_scheme \<Rightarrow> earn_genesis" where
  "earn_ExportGenesis L s = \<lparr>eg_Params = earn_GetParams s, eg_Earners = GetEarners L s\<rparr>"

section \<open>Messages\<close>

text \<open>The signer of the message is not looked at.\<close>

record MsgSetMultiple =
  ms_Earners :: "earner list"
  ms_Signer :: string

definition MsgSetMultiple_ValidateBasic :: "sdk \<Rightarrow> MsgSetMultiple \<Rightarrow> unit res" where
  "MsgSetMultiple_ValidateBasic L msg =
     bind_res (parses L (ms_Signer msg)) (\<lambda>_.
     if ms_Earners msg = [] then Err (Text ''missing earners list'')
     else prof_addresses_ok L (map e_Account (ms_Earners msg)))"

definition MsgSet_ValidateBasic :: "sdk \<Rightarrow> earner \<Rightarrow> string \<Rightarrow> unit res" where
  "MsgSet_ValidateBasic L e signer = bind_res (parses L signer) (\<lambda>_. parses L (e_Account e))"

definition msg_SetMultiple :: "sdk \<Rightarrow> MsgSetMultiple \<Rightarrow> 's earn_op" where
  "msg_SetMultiple L msg = for_each (ms_Earners msg) (\<lambda>e s.
     (case AccAddressFromBech32 L (e_Account e) of
        None \<Rightarrow> (Err invalid_argument, s)
      | Some acc \<Rightarrow> (Ok (), if e_Vpn e = None \<and> e_Storage e = None then earn_delete acc s
                            else earn_set acc (GetTimestamps e) s)))"

definition msg_Set :: "sdk \<Rightarrow> earner \<Rightarrow> string \<Rightarrow> 's earn_op" where
  "msg_Set L e signer = msg_SetMultiple L \<lparr>ms_Earners = [e], ms_Signer = []\<rparr>"

section \<open>Queries\<close>

text \<open>The deferred \<open>recover\<close> turns a panic into the error \<open>codes.Internal\<close>.\<close>

fun recovered_query :: "'a res \<Rightarrow> 'a res" where
  "recovered_query (Panic e) = Err internal_error"
| "recovered_query r = r"

fun earners_of :: "sdk \<Rightarrow> string list \<Rightarrow> 's earn_ctx_scheme \<Rightarrow> earner list res" where
  "earners_of L [] s = Ok []"
| "earners_of L (x # xs) s =
     (case AccAddressFromBech32 L x of
        None \<Rightarrow> Err invalid_argument
      | Some acc \<Rightarrow> bind_res (earners_of L xs s) (\<lambda>es.
          Ok (NewEarner L acc (ts_Vpn (earn_get acc s)) (ts_Storage (earn_get acc s)) # es)))"

definition earn_query_GetMultiple :: "sdk \<Rightarrow> string list option \<Rightarrow> 's earn_ctx_scheme \<Rightarrow> earner list res" where
  "earn_query_GetMultiple L req s =
     (case req of None \<Rightarrow> Err invalid_argument | Some addresses \<Rightarrow> recovered_query (earners_of L addresses s))"

definition earn_query_Get :: "sdk \<Rightarrow> string option \<Rightarrow> 's earn_ctx_scheme \<Rightarrow> earner res" where
  "earn_query_Get L req s =
     (case req of
        None \<Rightarrow> Err invalid_argument
      | Some address \<Rightarrow> recovered_query (bind_res (earn_query_GetMultiple L (Some [address]) s) (\<lambda>es. nth_res es 0)))"

text \<open>A page of the list; \<open>Limit * Page\<close> is \<open>int32\<close> arithmetic.\<close>

definition wrap32 :: "int \<Rightarrow> int" where
  "wrap32 x = (x + 2 ^ 31) mod 2 ^ 32 - 2 ^ 31"

fun list_page :: "int \<Rightarrow> int \<Rightarrow> int \<Rightarrow> 'a list \<Rightarrow> 'a list" where
  "list_page current start stop [] = []"
| "list_page current start stop (x # xs) =
     (if current < stop then
        if current < start then list_page (current + 1) start stop xs
        else x # list_page (current + 1) start stop xs
      else [])"

definition earn_query_List :: "sdk \<Rightarrow> (int \<times> int) option \<Rightarrow> 's earn_ctx_scheme \<Rightarrow> earner list res" where
  "earn_query_List L req s =
     (case req of
        None \<Rightarrow> Err invalid_argument
      | Some (limit, page) \<Rightarrow>
          Ok (map (\<lambda>(acc, t). NewEarner L acc (ts_Vpn t) (ts_Storage t))
            (list_page 0 (wrap32 (limit * wrap32 (page - 1))) (wrap32 (limit * page)) (store_items (earn_store s)))))"

definition earn_query_Params :: "'s earn_ctx_scheme \<Rightarrow> earn_params res" where
  "earn_query_Params s = Ok (earn_GetParams s)"

end
