(* ===== verification/Delegating.thy ===== *)
theory Delegating
  imports Earning
begin

text \<open>
  \<open>x/delegating\<close>: delegating coins, revoking them over a period, and the daily award. Main coins
  become delegated ones, delegated ones become revoking ones, and these main ones again; each
  exchange also changes the supply. The daily award is new money: a part of the delegation to the
  delegator, less the transaction fee, and small parts to the validators among its ancestors.

  The state extends that of \<open>x/earning\<close>; the keeper carries the bank and referral keepers and the
  sorting that runs, as \<open>sort.Slice\<close> promises no order among equal times.
\<close>

section \<open>State and parameters\<close>

record revoke_request =
  rq_Time :: time
  rq_Amount :: int

record deleg_record =
  NextAccrue :: "time option"
  Requests :: "revoke_request list"
  MissedPart :: "fraction option"

definition NewRecord :: deleg_record where
  "NewRecord = \<lparr>NextAccrue = None, Requests = [], MissedPart = None\<rparr>"

text \<open>\<open>IsEmpty\<close> asks whether the slice of requests is nil, which a slice of length 0 need not be.\<close>

definition Record_IsEmpty :: "bool \<Rightarrow> deleg_record \<Rightarrow> bool" where
  "Record_IsEmpty nil_requests x \<longleftrightarrow> nil_requests \<and> NextAccrue x = None"

record percentage_list_range =
  pl_Start :: int
  PercentList :: "fraction list"

record revoke_params =
  rv_Period :: int
  rv_Burn :: fraction

record deleg_params =
  MinDelegate :: int
  Revoke_Params :: revoke_params
  ExpressRevoke :: revoke_params
  AccruePercentageTable :: "percentage_list_range list"

definition zero_deleg_params :: deleg_params where
  "zero_deleg_params = \<lparr>MinDelegate = 0, Revoke_Params = \<lparr>rv_Period = 0, rv_Burn = null_frac\<rparr>,
     ExpressRevoke = \<lparr>rv_Period = 0, rv_Burn = null_frac\<rparr>, AccruePercentageTable = []\<rparr>"

definition DefaultRevoke :: revoke_params where
  "DefaultRevoke = \<lparr>rv_Period = 14, rv_Burn = Percent 5\<rparr>"

definition DefaultExpressRevoke :: revoke_params where
  "DefaultExpressRevoke = \<lparr>rv_Period = rv_Period DefaultRevoke div 2,
     rv_Burn = (case MulInt64 (rv_Burn DefaultRevoke) 2 of Ok x \<Rightarrow> x | _ \<Rightarrow> null_frac)\<rparr>"

definition default_row :: "int \<Rightarrow> int \<Rightarrow> percentage_list_range" where
  "default_row start percent =
     \<lparr>pl_Start = start, PercentList = [Percent percent, Percent 0, Percent 1, Percent 0, Percent 0]\<rparr>"

definition DefaultAccruePercentageTable :: "percentage_list_range list" where
  "DefaultAccruePercentageTable =
     [default_row 0 21, default_row 1000000000 24, default_row 10000000000 27, default_row 100000000000 30]"

definition deleg_NewParams ::
    "int \<Rightarrow> revoke_params \<Rightarrow> revoke_params \<Rightarrow> percentage_list_range list \<Rightarrow> deleg_params" where
  "deleg_NewParams minDelegate revoke expressRevoke table =
     \<lparr>MinDelegate = minDelegate, Revoke_Params = revoke, ExpressRevoke = expressRevoke,
      AccruePercentageTable = table\<rparr>"

definition deleg_DefaultParams :: deleg_params where
  "deleg_DefaultParams = deleg_NewParams 1000 DefaultRevoke DefaultExpressRevoke DefaultAccruePercentageTable"

definition Revoke_Validate :: "revoke_params \<Rightarrow> unit res" where
  "Revoke_Validate r =
     (if rv_Period r < 1 then Err (Text ''Period must be at least 1'')
      else bind_res (GT (rv_Burn r) (Percent 100)) (\<lambda>big.
        if big then Err (Text ''Burn must be less than 100%'')
        else bind_res (IsNegative (rv_Burn r)) (\<lambda>neg.
          if neg then Err (Text ''Burn must be non-negative'') else Ok ())))"

fun percents_ok :: "fraction list \<Rightarrow> unit res" where
  "percents_ok [] = Ok ()"
| "percents_ok (x # xs) =
     bind_res (IsNegative x) (\<lambda>neg. if neg then Err (Text ''percent is negative'') else percents_ok xs)"

definition PercentageListRange_Validate :: "percentage_list_range \<Rightarrow> unit res" where
  "PercentageListRange_Validate pl =
     (if length (PercentList pl) \<noteq> 5 then Err (Text ''number of percent in list is not equal to 5'')
      else percents_ok (PercentList pl))"

text \<open>\<open>prev\<close> is the start of the range before, absent at the first one.\<close>

fun table_ok :: "int option \<Rightarrow> percentage_list_range list \<Rightarrow> unit res" where
  "table_ok prev [] = Ok ()"
| "table_ok prev (x # xs) =
     bind_res (PercentageListRange_Validate x) (\<lambda>_.
       if (case prev of None \<Rightarrow> pl_Start x \<noteq> 0 | Some p \<Rightarrow> pl_Start x \<le> p)
       then Err (Text ''wrong start of a range'') else table_ok (Some (pl_Start x)) xs)"

definition ValidatePercentageTable :: "percentage_list_range list \<Rightarrow> unit res" where
  "ValidatePercentageTable ladder =
     (if ladder = [] then Err (Text ''at least one range is required'') else table_ok None ladder)"

definition validateMinDelegate :: "int \<Rightarrow> unit res" where
  "validateMinDelegate md = (if md < 1 then Err (Text ''minimal delegation must be at least 1'') else Ok ())"

definition deleg_params_Validate :: "deleg_params \<Rightarrow> unit res" where
  "deleg_params_Validate p =
     bind_res (validateMinDelegate (MinDelegate p)) (\<lambda>_.
     bind_res (Revoke_Validate (Revoke_Params p)) (\<lambda>_.
     bind_res (Revoke_Validate (ExpressRevoke p)) (\<lambda>_.
     ValidatePercentageTable (AccruePercentageTable p))))"

record deleg_ctx = earn_ctx +
  deleg_store :: "addr \<rightharpoonup> deleg_record"
  deleg_params_store :: "deleg_params option"

record 's deleg_keeper =
  dk_bank :: "'s deleg_ctx_ext earn_ctx_ext prof_ctx_ext nod_ctx_ext ref_ctx_ext bank_keeper"
  dk_ref :: "'s deleg_ctx_ext earn_ctx_ext prof_ctx_ext nod_ctx_ext ref_keeper"
  dk_sort :: "(revoke_request \<Rightarrow> revoke_request \<Rightarrow> bool) \<Rightarrow> revoke_request list \<Rightarrow> revoke_request list"

abbreviation dk_sdk :: "'s deleg_keeper \<Rightarrow> sdk" where "dk_sdk k \<equiv> bk_sdk (dk_bank k)"

type_synonym 's deleg_op = "'s deleg_ctx_scheme \<Rightarrow> unit res \<times> 's deleg_ctx_scheme"

definition RevokeHookName :: string where "RevokeHookName = ''delegating/revoke''"
definition AccrueHookName :: string where "AccrueHookName = ''delegating/accrue''"

definition ErrNothingDelegated :: error where "ErrNothingDelegated = Registered ''delegating'' 1"
definition ErrLessThanMinimum :: error where "ErrLessThanMinimum = Registered ''delegating'' 2"

definition deleg_GetParams :: "'s deleg_ctx_scheme \<Rightarrow> deleg_params" where
  "deleg_GetParams s = (case deleg_params_store s of None \<Rightarrow> zero_deleg_params | Some p \<Rightarrow> p)"

definition deleg_SetParams :: "deleg_params \<Rightarrow> 's deleg_ctx_scheme \<Rightarrow> 's deleg_ctx_scheme" where
  "deleg_SetParams p s = s\<lparr>deleg_params_store := Some p\<rparr>"

definition deleg_Get :: "addr \<Rightarrow> 's deleg_ctx_scheme \<Rightarrow> deleg_record option" where
  "deleg_Get acc s = deleg_store s acc"

definition record_of :: "addr \<Rightarrow> 's deleg_ctx_scheme \<Rightarrow> deleg_record" where
  "record_of acc s = (case deleg_store s acc of None \<Rightarrow> NewRecord | Some d \<Rightarrow> d)"

definition write_record :: "addr \<Rightarrow> deleg_record \<Rightarrow> 's deleg_ctx_scheme \<Rightarrow> 's deleg_ctx_scheme" where
  "write_record acc d s = s\<lparr>deleg_store := (deleg_store s)(acc \<mapsto> d)\<rparr>"

definition GetRevoking :: "addr \<Rightarrow> 's deleg_ctx_scheme \<Rightarrow> revoke_request list" where
  "GetRevoking acc s = (case deleg_Get acc s of None \<Rightarrow> [] | Some d \<Rightarrow> Requests d)"

definition GetPeriod :: "revoke_params \<Rightarrow> 's sched_ctx_scheme \<Rightarrow> duration" where
  "GetPeriod r s = wrap64 (rv_Period r * OneDay s)"

definition deleg_getDelegated :: "'s deleg_keeper \<Rightarrow> addr \<Rightarrow> 's deleg_ctx_scheme \<Rightarrow> int res" where
  "deleg_getDelegated k acc s = bind_res (GetBalance (dk_bank k) acc s) (\<lambda>c.
     Ok (AmountOf (dk_sdk k) c ConfigDelegatedDenom))"

section \<open>Exchanges\<close>

definition exchange :: "'s deleg_keeper \<Rightarrow> addr \<Rightarrow> denom \<Rightarrow> int \<Rightarrow> denom \<Rightarrow> int \<Rightarrow> 's deleg_op" where
  "exchange k acc fromDenom x toDenom y s =
     and_then (lift_res (one_coin (dk_sdk k) fromDenom x) s) (\<lambda>minusCoins s.
     and_then (SubtractCoins (dk_bank k) acc minusCoins s) (\<lambda>_ s.
     and_then (lift_res (one_coin (dk_sdk k) toDenom y) s) (\<lambda>plusCoins s.
     and_then (AddCoins (dk_bank k) acc plusCoins s) (\<lambda>_ s.
     and_then (lift_res (GetSupply s) s) (\<lambda>supply s.
     and_then (lift_res (Deflate (dk_sdk k) minusCoins supply) s) (\<lambda>supply s.
     (Ok (), SetSupply (Inflate (dk_sdk k) plusCoins supply) s)))))))"

definition amount_event :: "'s deleg_keeper \<Rightarrow> string \<Rightarrow> addr \<Rightarrow> int \<Rightarrow> 's deleg_op" where
  "amount_event k name acc x s = and_then (lift_res (Uint64 x) s) (\<lambda>n s.
     (Ok (), emit (name, [AStr (AccString (dk_sdk k) acc), AInt n]) s))"

definition delegate_coins :: "'s deleg_keeper \<Rightarrow> addr \<Rightarrow> int \<Rightarrow> 's deleg_op" where
  "delegate_coins k acc uartrs s =
     (if uartrs = 0 then (Ok (), s) else exchange k acc ConfigMainDenom uartrs ConfigDelegatedDenom uartrs s)"

definition freeze :: "'s deleg_keeper \<Rightarrow> addr \<Rightarrow> int \<Rightarrow> int \<Rightarrow> 's deleg_op" where
  "freeze k acc uartrds uartrrs s =
     (if uartrds = 0 then (Ok (), s)
      else and_then (exchange k acc ConfigDelegatedDenom uartrds ConfigRevokingDenom uartrrs s) (\<lambda>_ s.
        amount_event k ''freeze'' acc uartrrs s))"

definition undelegate :: "'s deleg_keeper \<Rightarrow> addr \<Rightarrow> int \<Rightarrow> 's deleg_op" where
  "undelegate k acc uartrs s =
     (if uartrs = 0 then (Ok (), s)
      else and_then (exchange k acc ConfigRevokingDenom uartrs ConfigMainDenom uartrs s) (\<lambda>_ s.
        amount_event k ''undelegate'' acc uartrs s))"

section \<open>The award\<close>

definition isActiveProfile :: "addr \<Rightarrow> 's deleg_ctx_scheme \<Rightarrow> bool" where
  "isActiveProfile acc s = (case GetProfile acc s of None \<Rightarrow> False | Some p \<Rightarrow> prof_IsActive p s)"

fun table_bonus :: "int \<Rightarrow> nat \<Rightarrow> percentage_list_range list \<Rightarrow> fraction \<Rightarrow> fraction res" where
  "table_bonus delegated i [] bonus = Ok bonus"
| "table_bonus delegated i (x # xs) bonus =
     (if pl_Start x \<le> delegated then bind_res (nth_res (PercentList x) (int i)) (table_bonus delegated i xs)
      else Ok bonus)"

fun add_bonuses :: "int \<Rightarrow> percentage_list_range list \<Rightarrow> nat \<Rightarrow> bool list \<Rightarrow> fraction \<Rightarrow> fraction res" where
  "add_bonuses delegated table i [] percent = Ok percent"
| "add_bonuses delegated table i (b # bs) percent =
     (if b then bind_res (table_bonus delegated i table FractionZero) (\<lambda>bonus.
        bind_res (Add percent bonus) (add_bonuses delegated table (Suc i) bs))
      else add_bonuses delegated table (Suc i) bs percent)"

definition daily_percent :: "int \<Rightarrow> bool \<Rightarrow> bool \<Rightarrow> bool \<Rightarrow> bool \<Rightarrow> 's deleg_ctx_scheme \<Rightarrow> fraction res" where
  "daily_percent delegated activeProfile activeValidator activeVpn activeStorage s =
     bind_res (Int64 delegated) (\<lambda>d.
     if d \<le> DustDelegation (bank_GetParams s) then Ok FractionZero
     else
       bind_res (add_bonuses delegated (AccruePercentageTable (deleg_GetParams s)) 0
         [True, activeValidator, activeProfile, activeVpn, activeStorage] FractionZero) (\<lambda>percent.
       bind_res (Div percent (NewFraction 30 1)) Reduce))"

definition dayPart :: "time \<Rightarrow> 's deleg_ctx_scheme \<Rightarrow> fraction res" where
  "dayPart end_time s =
     bind_res (Reduce (NewFraction (time_sub end_time (block_time s)) (OneDay s))) (Sub (FractionInt 1))"

definition getBitmap :: "bool list \<Rightarrow> nat" where
  "getBitmap flags = (\<Sum>i < length flags. if flags ! i then 2 ^ i else 0)"

text \<open>The daily award of an account: its flags, its percent, and what it has delegated.\<close>

definition award_terms ::
    "'s deleg_keeper \<Rightarrow> addr \<Rightarrow> 's deleg_ctx_scheme \<Rightarrow> (int \<times> nat \<times> fraction) res \<times> 's deleg_ctx_scheme" where
  "award_terms k acc s =
     and_then (lift_res (deleg_getDelegated k acc s) s) (\<lambda>delegated s.
     let activeProfile = isActiveProfile acc s; activeValidator = IsActiveValidator acc s
     in and_then (IsActiveEarner acc s) (\<lambda>(vpn, storage) s.
        and_then (lift_res (daily_percent delegated activeProfile activeValidator vpn storage s) s) (\<lambda>percent s.
        (Ok (delegated, getBitmap [activeValidator, activeProfile, vpn, storage], percent), s))))"

definition EventAccrue :: "'s deleg_keeper \<Rightarrow> addr \<Rightarrow> int \<Rightarrow> int \<Rightarrow> nat \<Rightarrow> event" where
  "EventAccrue k acc ucoins fee bonusFlags =
     (''accrue'', [AStr (AccString (dk_sdk k) acc), AInt ucoins, AInt fee, AInt (int bonusFlags)])"

definition accrue :: "'s deleg_keeper \<Rightarrow> addr \<Rightarrow> int \<Rightarrow> nat \<Rightarrow> 's deleg_op" where
  "accrue k acc ucoins bonusFlags s =
     (if ucoins = 0 \<or> GetProfile acc s = None then (Ok (), s)
      else
        let L = dk_sdk k; bp = bank_GetParams s; ratios = TransactionFeeSplitRatios bp
        in and_then (lift_res (one_coin L ConfigMainDenom ucoins) s) (\<lambda>emission s.
           and_then (lift_res (GetSupply s) s) (\<lambda>supply s.
           let s = SetSupply (Inflate L emission supply) s
           in and_then (lift_res (CalculateFee ucoins (TransactionFee bp) (MaxTransactionFee bp)
                (ForProposer ratios) (ForCompany ratios)) s) (\<lambda>fee s.
              and_then
                (if fee = 0 then (Ok emission, s)
                 else
                   and_then (lift_res (one_coin L ConfigMainDenom fee) s) (\<lambda>feeCoins s.
                   and_then (lift_res (SubC L emission feeCoins) s) (\<lambda>emission s.
                   and_then (must (AddCoins (dk_bank k)
                       (case bk_module_addr (dk_bank k) SplittableFeeCollectorName of None \<Rightarrow> [] | Some a \<Rightarrow> a) feeCoins s))
                     (\<lambda>_ s. (Ok emission, s))))) (\<lambda>emission s.
              and_then (must (AddCoins (dk_bank k) acc emission s)) (\<lambda>_ s.
              and_then (lift_res (bind_res (Uint64 (ucoins - fee)) (\<lambda>x. bind_res (Uint64 fee) (\<lambda>y. Ok (x, y)))) s)
                (\<lambda>(x, y) s. (Ok (), emit (EventAccrue k acc x y bonusFlags) s))))))))"

text \<open>The parts of the validators among the ancestors, those of 0 left out.\<close>

fun validator_parts :: "sdk \<Rightarrow> int \<Rightarrow> (string \<times> fraction) list \<Rightarrow> ((string \<times> addr \<times> int) list) res" where
  "validator_parts L ucoins [] = Ok []"
| "validator_parts L ucoins ((beneficiary, ratio) # fees) =
     bind_res (bind_res (Div ratio (NewFraction 30 1)) (\<lambda>x. bind_res (Reduce x) (\<lambda>x.
       bind_res (Int64 ucoins) (\<lambda>u. bind_res (MulInt64 x u) Frac_Int64)))) (\<lambda>x.
     if x = 0 then validator_parts L ucoins fees
     else
       bind_res (msg_address L beneficiary) (\<lambda>a.
       bind_res (one_coin L ConfigMainDenom x) (\<lambda>_.
       bind_res (validator_parts L ucoins fees) (\<lambda>parts. Ok ((beneficiary, a, x) # parts)))))"

definition EventValidatorAccrue :: "'s deleg_keeper \<Rightarrow> addr \<Rightarrow> (string \<times> addr \<times> int) list \<Rightarrow> event" where
  "EventValidatorAccrue k acc parts = (''validator_accrue'', [AStr (AccString (dk_sdk k) acc),
     AStrs (map fst parts), AInts (map (\<lambda>p. wrapu64 (snd (snd p))) parts)])"

definition accrueToValidator :: "'s deleg_keeper \<Rightarrow> addr \<Rightarrow> int \<Rightarrow> 's deleg_op" where
  "accrueToValidator k acc ucoins s =
     (if ucoins = 0 \<or> GetProfile acc s = None then (Ok (), s)
      else
        let L = dk_sdk k
        in and_then (must (lift_res (GetReferralValidatorFeesForDelegating (dk_ref k) (AccString L acc) s) s)) (\<lambda>fees s.
           and_then (lift_res (validator_parts L ucoins fees) s) (\<lambda>parts s.
           let totalFee = fold (\<lambda>p n. wrap64 (n + snd (snd p))) parts 0
           in if totalFee = 0 then (Ok (), s)
              else
                and_then (for_each parts (\<lambda>(_, a, x) s.
                  and_then (lift_res (one_coin L ConfigMainDenom x) s) (\<lambda>c s. must (AddCoins (dk_bank k) a c s))) s) (\<lambda>_ s.
                and_then (lift_res (one_coin L ConfigMainDenom totalFee) s) (\<lambda>emission s.
                and_then (lift_res (GetSupply s) s) (\<lambda>supply s.
                (Ok (), emit (EventValidatorAccrue k acc parts) (SetSupply (Inflate L emission supply) s))))))))"

text \<open>
  Before the delegation changes, the part of the day that has passed is paid, and the award of
  the next day scheduled anew.
\<close>

definition part_award :: "fraction \<Rightarrow> fraction \<Rightarrow> int \<Rightarrow> (int \<times> int) res" where
  "part_award percent part delegated =
     bind_res (Int64 delegated) (\<lambda>d.
     bind_res (bind_res (Mul percent part) (\<lambda>x. bind_res (Reduce x) (\<lambda>x. bind_res (MulInt64 x d) Frac_Int64))) (\<lambda>interest.
     bind_res (bind_res (Reduce part) (\<lambda>x. bind_res (MulInt64 x d) Frac_Int64)) (\<lambda>toValidator.
     Ok (interest, toValidator))))"

definition accruePart ::
    "'s deleg_keeper \<Rightarrow> addr \<Rightarrow> deleg_record \<Rightarrow> time \<Rightarrow> 's deleg_ctx_scheme \<Rightarrow> deleg_record res \<times> 's deleg_ctx_scheme" where
  "accruePart k acc item nextPayment s =
     (case NextAccrue item of
        None \<Rightarrow> (Ok (item\<lparr>NextAccrue := Some nextPayment\<rparr>), s)
      | Some t \<Rightarrow>
          and_then (lift_res (bind_res (dayPart t s) (\<lambda>part.
              case MissedPart item of None \<Rightarrow> Ok part | Some m \<Rightarrow> Sub part m)) s) (\<lambda>part s.
          and_then (award_terms k acc s) (\<lambda>(delegated, bonusFlags, percent) s.
          and_then (lift_res (part_award percent part delegated) s) (\<lambda>(interest, toValidator) s.
          and_then
            (if interest > 0 then
               and_then (accrue k acc interest bonusFlags s) (\<lambda>_ s. accrueToValidator k acc toValidator s)
             else (Ok (), s)) (\<lambda>_ s.
          and_then (Delete t AccrueHookName acc s) (\<lambda>_ s.
          (Ok (item\<lparr>NextAccrue := Some nextPayment, MissedPart := None\<rparr>), s)))))))"

end
