(* ===== verification/Delegating_Ops.thy ===== *)
theory Delegating_Ops
  imports Delegating
begin

text \<open>
  The operations of \<open>x/delegating\<close>: delegating and revoking, the hooks the scheduler runs, the
  accumulation query, genesis, messages and the other queries.
\<close>

section \<open>Delegating and revoking\<close>

definition delegated_dust :: "int \<Rightarrow> 's deleg_ctx_scheme \<Rightarrow> bool res" where
  "delegated_dust x s = bind_res (Int64 x) (\<lambda>d. Ok (d \<le> DustDelegation (bank_GetParams s)))"

text \<open>The end of both: a delegation that is dust earns nothing, any other its award in a day.\<close>

definition schedule_accrue ::
    "addr \<Rightarrow> bool \<Rightarrow> deleg_record \<Rightarrow> 's deleg_ctx_scheme \<Rightarrow> deleg_record res \<times> 's deleg_ctx_scheme" where
  "schedule_accrue acc dust item s =
     (if dust then (Ok (item\<lparr>NextAccrue := None\<rparr>), s)
      else
        let t = block_time s + OneDay s
        in and_then (ScheduleTask t AccrueHookName acc s) (\<lambda>_ s. (Ok (item\<lparr>NextAccrue := Some t\<rparr>), s)))"

definition Revoke :: "'s deleg_keeper \<Rightarrow> addr \<Rightarrow> int \<Rightarrow> bool \<Rightarrow> 's deleg_op" where
  "Revoke k acc uartrs express s =
     (if uartrs = 0 then (Ok (), s)
      else
        and_then (lift_res (deleg_getDelegated k acc s) s) (\<lambda>current s.
        if uartrs > current then (Err ErrInsufficientFunds, s)
        else
          and_then (accruePart k acc (record_of acc s) (block_time s + OneDay s) s) (\<lambda>item s.
          let params = (if express then ExpressRevoke (deleg_GetParams s) else Revoke_Params (deleg_GetParams s))
          in and_then (lift_res (bind_res (Int64 uartrs) (\<lambda>u. bind_res (MulInt64 (rv_Burn params) u) Frac_Int64)) s)
               (\<lambda>burned s.
             let uartrrs = uartrs - burned
             in and_then (freeze k acc uartrs uartrrs s) (\<lambda>_ s.
                and_then (lift_res (delegated_dust (current - uartrs) s) s) (\<lambda>dust s.
                and_then (schedule_accrue acc dust item s) (\<lambda>item s.
                let t = block_time s + GetPeriod params s
                in ScheduleTask t RevokeHookName acc
                     (write_record acc (item\<lparr>Requests := Requests item @ [\<lparr>rq_Time = t, rq_Amount = uartrrs\<rparr>]\<rparr>) s))))))))"

definition EventDelegate :: "'s deleg_keeper \<Rightarrow> addr \<Rightarrow> int \<Rightarrow> event" where
  "EventDelegate k acc x = (''delegate'', [AStr (AccString (dk_sdk k) acc), AStrs [], AInts [], AInt x])"

definition Delegate :: "'s deleg_keeper \<Rightarrow> addr \<Rightarrow> int \<Rightarrow> 's deleg_op" where
  "Delegate k acc uartrs s =
     (if uartrs < MinDelegate (deleg_GetParams s) then (Err ErrLessThanMinimum, s)
      else
        and_then (lift_res (one_coin (dk_sdk k) ConfigMainDenom uartrs) s) (\<lambda>amt s.
        and_then (PayTxFee (dk_bank k) acc amt s) (\<lambda>fee s.
        let uartrs = uartrs - AmountOf (dk_sdk k) fee ConfigMainDenom
        in and_then (accruePart k acc (record_of acc s) (block_time s + OneDay s) s) (\<lambda>item s.
           and_then (delegate_coins k acc uartrs s) (\<lambda>_ s.
           and_then (lift_res (bind_res (deleg_getDelegated k acc s) (\<lambda>d. delegated_dust d s)) s) (\<lambda>dust s.
           and_then (schedule_accrue acc dust item s) (\<lambda>item s.
           and_then (lift_res (Uint64 uartrs) s) (\<lambda>n s.
           (Ok (), write_record acc item (emit (EventDelegate k acc n) s))))))))))"

section \<open>Accumulation\<close>

record accumulation =
  ac_Start :: time
  ac_End :: time
  ac_Percent :: int
  ac_PercentDaily :: fraction
  ac_TotalUartrs :: int
  ac_CurrentUartrs :: int
  ac_MissedPart :: "fraction option"

text \<open>What has been earned since the last payment, less the part of the day that was missed.\<close>

definition accumulated ::
    "fraction \<Rightarrow> fraction \<Rightarrow> fraction option \<Rightarrow> int \<Rightarrow> (int \<times> int \<times> int) res" where
  "accumulated percent part missed delegated =
     bind_res (Int64 delegated) (\<lambda>d.
     bind_res (bind_res (MulInt64 percent d) Reduce) (\<lambda>whole.
     bind_res (Mul whole part) (\<lambda>current.
     bind_res (case missed of
         None \<Rightarrow> Ok (whole, current)
       | Some m \<Rightarrow> bind_res (Mul m whole) (\<lambda>lost. bind_res (Sub whole lost) (\<lambda>x.
           bind_res (Sub current lost) (\<lambda>y. Ok (x, y))))) (\<lambda>(whole, current).
     bind_res (bind_res (MulInt64 percent (100 * 30)) Frac_Int64) (\<lambda>monthly.
     bind_res (Frac_Int64 whole) (\<lambda>x. bind_res (Frac_Int64 current) (\<lambda>y. Ok (monthly, x, y))))))))"

definition GetAccumulation ::
    "'s deleg_keeper \<Rightarrow> addr \<Rightarrow> 's deleg_ctx_scheme \<Rightarrow> accumulation res \<times> 's deleg_ctx_scheme" where
  "GetAccumulation k acc s =
     (case NextAccrue (record_of acc s) of
        None \<Rightarrow> (Err ErrNothingDelegated, s)
      | Some periodEnd \<Rightarrow>
          let periodStart = periodEnd - OneDay s; missed = MissedPart (record_of acc s)
          in and_then (lift_res (Reduce (NewFraction (time_sub (block_time s) periodStart) (OneDay s))) s) (\<lambda>part s.
             and_then (award_terms k acc s) (\<lambda>(delegated, _, percent) s.
             and_then (lift_res (accumulated percent part missed delegated) s) (\<lambda>(monthly, x, y) s.
             (Ok \<lparr>ac_Start = periodStart, ac_End = periodEnd, ac_Percent = monthly, ac_PercentDaily = percent,
                  ac_TotalUartrs = x, ac_CurrentUartrs = y, ac_MissedPart = missed\<rparr>, s)))))"

section \<open>The hooks of the scheduler\<close>

text \<open>
  The requests that are due are paid out in the order of their time. The record stays, even with
  no request left: a slice of length 0 is not nil.
\<close>

definition due_requests :: "'s deleg_keeper \<Rightarrow> deleg_record \<Rightarrow> time \<Rightarrow> revoke_request list" where
  "due_requests k item now =
     takeWhile (\<lambda>r. rq_Time r \<le> now) (dk_sort k (\<lambda>a b. rq_Time a < rq_Time b) (Requests item))"

definition performRevoking :: "'s deleg_keeper \<Rightarrow> addr \<Rightarrow> 's deleg_op" where
  "performRevoking k acc s =
     (case deleg_store s acc of
        None \<Rightarrow> (Ok (), s)
      | Some item \<Rightarrow>
          let sorted = dk_sort k (\<lambda>a b. rq_Time a < rq_Time b) (Requests item);
              due = due_requests k item (block_time s)
          in and_then (for_each due (\<lambda>r. undelegate k acc (rq_Amount r)) s) (\<lambda>_ s.
             if due = [] then (Ok (), s)
             else
               let item = item\<lparr>Requests := drop (length due) sorted\<rparr>
               in (Ok (), if Record_IsEmpty False item then s\<lparr>deleg_store := (deleg_store s)(acc := None)\<rparr>
                          else write_record acc item s)))"

definition MustPerformRevoking :: "'s deleg_keeper \<Rightarrow> 's deleg_ctx_scheme hook" where
  "MustPerformRevoking k d t s = must (performRevoking k d s)"

definition daily_award :: "fraction \<Rightarrow> fraction option \<Rightarrow> int \<Rightarrow> (int \<times> int) res" where
  "daily_award percent missed delegated =
     bind_res (Int64 delegated) (\<lambda>d.
     bind_res (bind_res (MulInt64 percent d) Frac_Int64) (\<lambda>interest.
     (case missed of
        None \<Rightarrow> Ok (interest, d)
      | Some m \<Rightarrow>
          bind_res (bind_res (MulInt64 m interest) Frac_Int64) (\<lambda>x.
          bind_res (bind_res (MulInt64 m d) Frac_Int64) (\<lambda>y. Ok (wrap64 (interest - x), wrap64 (d - y)))))))"

definition MustPerformAccrue :: "'s deleg_keeper \<Rightarrow> 's deleg_ctx_scheme hook" where
  "MustPerformAccrue k acc t s =
     (let item = record_of acc s
      in case NextAccrue item of
           None \<Rightarrow> (Panic (Text ''accrue cancelled''), s)
         | Some planned \<Rightarrow>
             if planned \<noteq> t then (Panic (Text ''accrue rescheduled''), s)
             else
               and_then (award_terms k acc s) (\<lambda>(delegated, bonusFlags, percent) s.
               and_then (lift_res (IsZero percent) s) (\<lambda>zero s.
               if zero then (Ok (), write_record acc (item\<lparr>NextAccrue := None\<rparr>) s)
               else
                 and_then (lift_res (daily_award percent (MissedPart item) delegated) s) (\<lambda>(interest, toValidator) s.
                 and_then (accrue k acc interest bonusFlags s) (\<lambda>_ s.
                 and_then (accrueToValidator k acc toValidator s) (\<lambda>_ s.
                 let t' = t + OneDay s
                 in and_then (ScheduleTask t' AccrueHookName acc s) (\<lambda>_ s.
                    (Ok (), write_record acc (item\<lparr>NextAccrue := Some t', MissedPart := None\<rparr>) s))))))))"

text \<open>The callback of \<open>x/referral\<close>: a banished account loses its delegation.\<close>

definition OnBanished :: "'s deleg_keeper \<Rightarrow> addr \<Rightarrow> 's deleg_op" where
  "OnBanished k acc s =
     and_then (lift_res (deleg_getDelegated k acc s) s) (\<lambda>d s.
     if d = 0 then (Ok (), s) else Revoke k acc d False s)"

section \<open>Genesis\<close>

record deleg_account =
  da_Address :: string
  da_NextAccrue :: "time option"
  da_Requests :: "revoke_request list"

record deleg_genesis =
  dg_Params :: deleg_params
  dg_Accounts :: "deleg_account list"

definition deleg_DefaultGenesisState :: deleg_genesis where
  "deleg_DefaultGenesisState = \<lparr>dg_Params = deleg_DefaultParams, dg_Accounts = []\<rparr>"

fun deleg_accounts_ok :: "sdk \<Rightarrow> deleg_account list \<Rightarrow> unit res" where
  "deleg_accounts_ok L [] = Ok ()"
| "deleg_accounts_ok L (a # as) =
     bind_res (parses L (da_Address a)) (\<lambda>_.
     if \<exists>r\<in>set (da_Requests a). rq_Amount r \<le> 0 then Err (Text ''amount is non-positive'')
     else deleg_accounts_ok L as)"

definition deleg_ValidateGenesis :: "sdk \<Rightarrow> deleg_genesis \<Rightarrow> unit res" where
  "deleg_ValidateGenesis L data =
     bind_res (deleg_params_Validate (dg_Params data)) (\<lambda>_. deleg_accounts_ok L (dg_Accounts data))"

text \<open>The missed part is neither exported nor imported.\<close>

definition InitAccounts :: "sdk \<Rightarrow> deleg_account list \<Rightarrow> 's deleg_op" where
  "InitAccounts L accs = for_each accs (\<lambda>a s.
     and_then (lift_res (msg_address L (da_Address a)) s) (\<lambda>acc s.
     (Ok (), write_record acc
        \<lparr>NextAccrue = da_NextAccrue a, Requests = da_Requests a, MissedPart = None\<rparr> s)))"

definition ExportAccounts :: "sdk \<Rightarrow> 's deleg_ctx_scheme \<Rightarrow> deleg_account list" where
  "ExportAccounts L s = map (\<lambda>(acc, r).
     \<lparr>da_Address = AccString L acc, da_NextAccrue = NextAccrue r, da_Requests = Requests r\<rparr>) (store_items (deleg_store s))"

definition deleg_InitGenesis :: "sdk \<Rightarrow> deleg_genesis \<Rightarrow> 's deleg_op" where
  "deleg_InitGenesis L data s = InitAccounts L (dg_Accounts data) (deleg_SetParams (dg_Params data) s)"

definition deleg_ExportGenesis :: "sdk \<Rightarrow> 's deleg_ctx_scheme \<Rightarrow> deleg_genesis" where
  "deleg_ExportGenesis L s = \<lparr>dg_Params = deleg_GetParams s, dg_Accounts = ExportAccounts L s\<rparr>"

section \<open>Older parameters\<close>

record percentage =
  pc_Minimal :: int
  pc_ThousandPlus :: int
  pc_TenKPlus :: int
  pc_HundredKPlus :: int

record percentage_range =
  pr_Start :: int
  pr_Percent :: fraction

definition Percentage_Validate :: "percentage \<Rightarrow> unit res" where
  "Percentage_Validate p =
     (if pc_Minimal p \<le> 0 then Err (Text ''minimal percent is non-positive'')
      else if pc_ThousandPlus p \<le> 0 then Err (Text ''1000+ percent is non-positive'')
      else if pc_TenKPlus p \<le> 0 then Err (Text ''10k+ percent is non-positive'')
      else if pc_HundredKPlus p \<le> 0 then Err (Text ''100k+ percent is non-positive'')
      else if pc_Minimal p > pc_ThousandPlus p then Err (Text ''minimal percent is reater than 1000+ one'')
      else if pc_ThousandPlus p > pc_TenKPlus p then Err (Text ''1000+ percent is greater than 10k+ one'')
      else if pc_TenKPlus p > pc_HundredKPlus p then Err (Text ''10k+ percent is greater than 100k+ one'')
      else Ok ())"

definition PercentageRange_Validate :: "percentage_range \<Rightarrow> unit res" where
  "PercentageRange_Validate p = bind_res (IsNegative (pr_Percent p)) (\<lambda>neg.
     if neg then Err (Text ''percent is negative'') else Ok ())"

fun ranges_ok :: "percentage_range option \<Rightarrow> percentage_range list \<Rightarrow> unit res" where
  "ranges_ok prev [] = Ok ()"
| "ranges_ok prev (x # xs) =
     bind_res (PercentageRange_Validate x) (\<lambda>_.
     bind_res
       (case prev of
          None \<Rightarrow> Ok ()
        | Some p \<Rightarrow>
            if pr_Start x \<le> pr_Start p then Err (Text ''range start is not above the one before'')
            else bind_res (LT (pr_Percent x) (pr_Percent p)) (\<lambda>lt.
              if lt then Err (Text ''range percent is less than the one before'') else Ok ()))
       (\<lambda>_. ranges_ok (Some x) xs))"

definition ValidatePercentageRanges :: "percentage_range list \<Rightarrow> unit res" where
  "ValidatePercentageRanges ladder =
     (if ladder = [] then Err (Text ''at least one range is required'') else ranges_ok None ladder)"

section \<open>Messages and queries\<close>

definition coins_msg_ValidateBasic :: "sdk \<Rightarrow> string \<Rightarrow> int \<Rightarrow> unit res" where
  "coins_msg_ValidateBasic L address microCoins =
     bind_res (parses L address) (\<lambda>_.
     if microCoins > 0 then Ok () else Err (Text ''amount must be positive''))"

definition msg_Delegate :: "'s deleg_keeper \<Rightarrow> string \<Rightarrow> int \<Rightarrow> 's deleg_op" where
  "msg_Delegate k address x s =
     and_then (lift_res (msg_address (dk_sdk k) address) s) (\<lambda>acc s. Delegate k acc x s)"

definition msg_Revoke :: "'s deleg_keeper \<Rightarrow> string \<Rightarrow> int \<Rightarrow> 's deleg_op" where
  "msg_Revoke k address x s =
     and_then (lift_res (msg_address (dk_sdk k) address) s) (\<lambda>acc s. Revoke k acc x False s)"

definition msg_ExpressRevoke :: "'s deleg_keeper \<Rightarrow> string \<Rightarrow> int \<Rightarrow> 's deleg_op" where
  "msg_ExpressRevoke k address x s =
     and_then (lift_res (msg_address (dk_sdk k) address) s) (\<lambda>acc s. Revoke k acc x True s)"

definition deleg_query_Params :: "'s deleg_ctx_scheme \<Rightarrow> deleg_params res" where
  "deleg_query_Params s = Ok (deleg_GetParams s)"

definition deleg_query_Revoking :: "sdk \<Rightarrow> string option \<Rightarrow> 's deleg_ctx_scheme \<Rightarrow> revoke_request list res" where
  "deleg_query_Revoking L req s =
     (case req of
        None \<Rightarrow> Err invalid_argument
      | Some address \<Rightarrow> bind_res (msg_address L address) (\<lambda>acc. Ok (GetRevoking acc s)))"

definition deleg_query_Accumulation ::
    "'s deleg_keeper \<Rightarrow> string option \<Rightarrow> 's deleg_ctx_scheme \<Rightarrow> accumulation res \<times> 's deleg_ctx_scheme" where
  "deleg_query_Accumulation k req s =
     (case req of
        None \<Rightarrow> (Err invalid_argument, s)
      | Some address \<Rightarrow>
          and_then (lift_res (msg_address (dk_sdk k) address) s) (\<lambda>acc s. GetAccumulation k acc s))"

definition deleg_query_Get :: "sdk \<Rightarrow> string option \<Rightarrow> 's deleg_ctx_scheme \<Rightarrow> deleg_record option res" where
  "deleg_query_Get L req s =
     (case req of
        None \<Rightarrow> Err invalid_argument
      | Some address \<Rightarrow>
          (case AccAddressFromBech32 L address of None \<Rightarrow> Err invalid_argument | Some acc \<Rightarrow> Ok (deleg_Get acc s)))"

end
