(* ===== verification/Examples.thy ===== *)
theory Examples
  imports Profile
begin

text \<open>
  Values shared by the witnesses of \<open>x/profile\<close>, \<open>x/delegating\<close> and \<open>x/voting\<close>: a bank keeper with
  no hooks, a referral keeper with no callbacks over it, and a text library that changes nothing.
\<close>

definition plain_bank :: "sdk \<Rightarrow> 's bank_keeper" where
  "plain_bank L = \<lparr>bk_sdk = L, bk_module_addr = (\<lambda>n. Some n), bk_perm = (\<lambda>m p. True),
     bk_blockedAddrs = (\<lambda>a. False), bk_setCoinHooks = []\<rparr>"

definition plain_ref :: "sdk \<Rightarrow> 's ref_keeper" where
  "plain_ref L = \<lparr>rk_bank = plain_bank L, rk_hooks = [], rk_IsActiveValidator = (\<lambda>a s. Ok False), rk_fuel = 100\<rparr>"

definition plain_text :: text_lib where
  "plain_text = \<lparr>ToLower = (\<lambda>x. x), ToTitle = (\<lambda>x. x), TrimSpace = (\<lambda>x. x), ErrorText = (\<lambda>e. [])\<rparr>"

definition plain_prof :: "sdk \<Rightarrow> 's prof_keeper" where
  "plain_prof L = \<lparr>pk_bank = plain_bank L, pk_ref = plain_ref L, pk_text = plain_text, pk_number = (\<lambda>a. 0)\<rparr>"

lemma plain_sel [simp]:
  "bk_sdk (plain_bank L) = L" "bk_setCoinHooks (plain_bank L) = []" "bk_module_addr (plain_bank L) n = Some n"
  "rk_bank (plain_ref L) = plain_bank L" "rk_hooks (plain_ref L) = []"
  "pk_bank (plain_prof L) = plain_bank L" "pk_ref (plain_prof L) = plain_ref L" "pk_text (plain_prof L) = plain_text"
  by (simp_all add: plain_bank_def plain_ref_def plain_prof_def)

end
