(* ===== verification/Referral_Genesis.thy ===== *)
theory Referral_Genesis
  imports Referral
begin

text \<open>
  Genesis import and export of \<open>x/referral\<close>, its messages and its queries. The breadth-first
  walk of the export takes a fuel bound like the other walks over the tree.
\<close>

section \<open>Genesis\<close>

record ref_genesis =
  gen_ref_params :: ref_params
  TopLevelAccounts :: "string list"
  OtherAccounts :: "(string \<times> string list) list"
  BanishedAccounts :: "(string \<times> string) list"
  Compressions :: "(string \<times> time) list"
  Banishment :: "(string \<times> time) list"
  Downgrades :: "(string \<times> status \<times> time) list"
  Transitions :: "(string \<times> string) list"

definition ref_DefaultGenesisState :: ref_genesis where
  "ref_DefaultGenesisState = \<lparr>gen_ref_params = ref_DefaultParams, TopLevelAccounts = [],
     OtherAccounts = [], BanishedAccounts = [], Compressions = [], Banishment = [],
     Downgrades = [], Transitions = []\<rparr>"

definition GetTopLevelAndBanishedAccounts ::
    "'s ref_ctx_scheme \<Rightarrow> string list \<times> (string \<times> string) list" where
  "GetTopLevelAndBanishedAccounts s =
     (map fst (filter (\<lambda>(a, r). \<not> r_Banished r \<and> r_Referrer r = []) (store_items (ref_store s))),
      map (\<lambda>(a, r). (a, r_Referrer r)) (filter (\<lambda>(a, r). r_Banished r) (store_items (ref_store s))))"

definition with_children :: "'s ref_ctx_scheme \<Rightarrow> string list \<Rightarrow> (string \<times> string list) list" where
  "with_children s addrs =
     filter (\<lambda>(a, cs). length cs \<noteq> 0) (map (\<lambda>a. (a, GetChildren a s)) addrs)"

text \<open>The levels below the top: the pairs listed, and the accounts in the order visited.\<close>

fun export_levels :: "nat \<Rightarrow> 's ref_ctx_scheme \<Rightarrow> (string \<times> string list) list \<Rightarrow>
    ((string \<times> string list) list \<times> string list) res" where
  "export_levels n s [] = Ok ([], [])"
| "export_levels 0 s (x # xs) = Panic out_of_fuel"
| "export_levels (Suc n) s (x # xs) =
     (let addrs = concat (map snd (x # xs))
      in bind_res (export_levels n s (with_children s addrs)) (\<lambda>(other, visited).
           Ok ((x # xs) @ other, addrs @ visited)))"

definition opt_pair :: "'a \<Rightarrow> 'b option \<Rightarrow> ('a \<times> 'b) list" where
  "opt_pair a x = (case x of None \<Rightarrow> [] | Some t \<Rightarrow> [(a, t)])"

definition ExportToGenesis :: "'s ref_keeper \<Rightarrow> 's ref_ctx_scheme \<Rightarrow> ref_genesis res" where
  "ExportToGenesis k s =
     (let tb = GetTopLevelAndBanishedAccounts s; topLevel = fst tb
      in bind_res (export_levels (rk_fuel k) s (with_children s topLevel)) (\<lambda>(other, below).
         let visited = topLevel @ below in Ok \<lparr>
           gen_ref_params = ref_GetParams s, TopLevelAccounts = topLevel, OtherAccounts = other,
           BanishedAccounts = snd tb,
           Compressions = concat (map (\<lambda>a. opt_pair a (r_CompressionAt (ref_Get a s))) visited),
           Banishment = concat (map (\<lambda>a. opt_pair a (r_BanishmentAt (ref_Get a s))) visited),
           Downgrades = concat (map (\<lambda>a. case r_StatusDowngradeAt (ref_Get a s) of
              None \<Rightarrow> [] | Some t \<Rightarrow> [(a, r_Status (ref_Get a s), t)]) visited),
           Transitions = concat (map (\<lambda>a. if r_Transition (ref_Get a s) \<noteq> []
              then [(a, r_Transition (ref_Get a s))] else []) visited)\<rparr>))"

definition import_banished ::
    "'s ref_keeper \<Rightarrow> string \<times> string \<Rightarrow> 's ref_ctx_scheme \<Rightarrow> unit res \<times> 's ref_ctx_scheme" where
  "import_banished k ba s =
     and_then (lift_res (getBalance k (fst ba) s) s) (\<lambda>c s.
     and_then (lift_res (getDelegated k (fst ba) s) s) (\<lambda>d s.
     (Ok (), ref_set (fst ba) (zero_info\<lparr>r_Referrer := snd ba, r_Coins := [c], r_Delegated := [d],
        r_Banished := True\<rparr>) s)))"

definition import_marks :: "(string \<times> time) list \<Rightarrow> (string \<times> time) list \<Rightarrow>
    (string \<times> status \<times> time) list \<Rightarrow> (string \<times> string) list \<Rightarrow> 's bu_st \<Rightarrow> unit res \<times> 's bu_st" where
  "import_marks compressions banishment downgrades transitions st =
     and_then (for_each compressions (\<lambda>x. bu_update (fst x) False
         (\<lambda>v st. (Ok ((), v\<lparr>r_CompressionAt := Some (snd x)\<rparr>), st))) st) (\<lambda>_ st.
     and_then (for_each banishment (\<lambda>x. bu_update (fst x) False
         (\<lambda>v st. (Ok ((), v\<lparr>r_BanishmentAt := Some (snd x)\<rparr>), st))) st) (\<lambda>_ st.
     and_then (for_each downgrades (\<lambda>x. bu_update (fst x) False
         (\<lambda>v st. let vs = setStatus v (fst (snd x)) (fst x) (fst st)
                 in (Ok ((), (fst vs)\<lparr>r_StatusDowngradeAt := Some (snd (snd x))\<rparr>), (snd vs, snd st)))) st) (\<lambda>_ st.
     for_each transitions (\<lambda>x. bu_update (fst x) False
         (\<lambda>v st. (Ok ((), v\<lparr>r_Transition := snd x\<rparr>), st))) st)))"

definition ImportFromGenesis ::
    "'s ref_keeper \<Rightarrow> ref_genesis \<Rightarrow> 's ref_ctx_scheme \<Rightarrow> unit res \<times> 's ref_ctx_scheme" where
  "ImportFromGenesis k g s =
     and_then (for_each (TopLevelAccounts g) (\<lambda>acc s. must (AddTopLevelAccount k acc s)) s) (\<lambda>_ s.
     and_then (for_each (OtherAccounts g) (\<lambda>r. for_each (snd r)
         (\<lambda>acc s. must (appendChild k (fst r) acc True False s))) s) (\<lambda>_ s.
     and_then (for_each (BanishedAccounts g) (import_banished k) s) (\<lambda>_ s.
     with_bu k (import_marks (Compressions g) (Banishment g) (Downgrades g) (Transitions g)) s)))"

definition ref_InitGenesis ::
    "'s ref_keeper \<Rightarrow> ref_genesis \<Rightarrow> 's ref_ctx_scheme \<Rightarrow> unit res \<times> 's ref_ctx_scheme" where
  "ref_InitGenesis k g s =
     must (ImportFromGenesis k g (ref_SetParams (gen_ref_params g) (MarkIndexStore s)))"

fun panic_err :: "'a res \<Rightarrow> 'a res" where
  "panic_err (Err e) = Panic e"
| "panic_err r = r"

definition ref_ExportGenesis :: "'s ref_keeper \<Rightarrow> 's ref_ctx_scheme \<Rightarrow> ref_genesis res" where
  "ref_ExportGenesis k s = panic_err (ExportToGenesis k s)"

definition Transition_Validate :: "sdk \<Rightarrow> string \<times> string \<Rightarrow> unit res" where
  "Transition_Validate L t =
     (if AccAddressFromBech32 L (fst t) = None then Err (Text ''invalid subject address'')
      else if AccAddressFromBech32 L (snd t) = None then Err (Text ''invalid destination address'')
      else Ok ())"

fun Transitions_Validate :: "sdk \<Rightarrow> (string \<times> string) list \<Rightarrow> unit res" where
  "Transitions_Validate L [] = Ok ()"
| "Transitions_Validate L (t # ts) =
     bind_res (Transition_Validate L t) (\<lambda>_. Transitions_Validate L ts)"

text \<open>The Go code asks whether the slice of top level accounts is nil, the flag here.\<close>

definition ref_ValidateGenesis :: "sdk \<Rightarrow> bool \<Rightarrow> ref_genesis \<Rightarrow> unit res" where
  "ref_ValidateGenesis L topLevelNil g =
     (if topLevelNil then Err (Text ''empty top level accounts set'')
      else bind_res (ref_params_Validate L (gen_ref_params g)) (\<lambda>_. Transitions_Validate L (Transitions g)))"

section \<open>Messages\<close>

record MsgRequestTransition =
  rt_Subject :: string
  rt_Destination :: string

record MsgResolveTransition =
  rs_Signer :: string
  rs_Subject :: string
  rs_Decline :: bool

definition MsgRequestTransition_ValidateBasic :: "sdk \<Rightarrow> MsgRequestTransition \<Rightarrow> unit res" where
  "MsgRequestTransition_ValidateBasic L msg =
     (if AccAddressFromBech32 L (rt_Subject msg) = None then Err (Text ''invalid subject address'')
      else if AccAddressFromBech32 L (rt_Destination msg) = None then Err ErrInvalidAddress
      else Ok ())"

definition MsgResolveTransition_ValidateBasic :: "sdk \<Rightarrow> MsgResolveTransition \<Rightarrow> unit res" where
  "MsgResolveTransition_ValidateBasic L msg =
     (if AccAddressFromBech32 L (rs_Signer msg) = None then Err (Text ''invalid signer address'')
      else if AccAddressFromBech32 L (rs_Subject msg) = None then Err (Text ''invalid subject address'')
      else Ok ())"

definition msg_RequestTransition ::
    "'s ref_keeper \<Rightarrow> MsgRequestTransition \<Rightarrow> 's ref_ctx_scheme \<Rightarrow> unit res \<times> 's ref_ctx_scheme" where
  "msg_RequestTransition k msg s =
     and_then (RequestTransition k (rt_Subject msg) (rt_Destination msg) s) (\<lambda>_ s.
     (Ok (), TagTx ''referral'' ''artery.referral.v1beta1.MsgRequestTransition'' s))"

definition msg_ResolveTransition ::
    "'s ref_keeper \<Rightarrow> MsgResolveTransition \<Rightarrow> 's ref_ctx_scheme \<Rightarrow> unit res \<times> 's ref_ctx_scheme" where
  "msg_ResolveTransition k msg s =
     (if rs_Signer msg \<noteq> GetParent (rs_Subject msg) s then (Err ErrUnauthorized, s)
      else
        and_then (if \<not> rs_Decline msg then AffirmTransition k (rs_Subject msg) s
                  else CancelTransition (rs_Subject msg) False s) (\<lambda>_ s.
        (Ok (), TagTx ''referral'' ''artery.referral.v1beta1.MsgResolveTransition'' s)))"

section \<open>Queries\<close>

definition ref_query_Get :: "string \<Rightarrow> bool \<Rightarrow> 's ref_ctx_scheme \<Rightarrow> info" where
  "ref_query_Get acc light s =
     (if light then (ref_Get acc s)\<lparr>r_Referrals := [], r_ActiveReferrals := []\<rparr> else ref_Get acc s)"

definition ref_query_Coins :: "string \<Rightarrow> int \<Rightarrow> 's ref_ctx_scheme \<Rightarrow> (int \<times> int) res" where
  "ref_query_Coins acc maxDepth s =
     bind_res (GetCoinsInNetwork acc maxDepth s) (\<lambda>n.
     bind_res (GetDelegatedInNetwork acc maxDepth s) (\<lambda>d. Ok (n, d)))"

definition ref_query_CheckStatus :: "string \<Rightarrow> status \<Rightarrow> 's ref_ctx_scheme \<Rightarrow> check_result res" where
  "ref_query_CheckStatus acc x s = AreStatusRequirementsFulfilled acc x s"

text \<open>An error becomes the text of the answer.\<close>

definition ref_query_ValidateTransition ::
    "'s ref_keeper \<Rightarrow> string \<Rightarrow> string \<Rightarrow> 's ref_ctx_scheme \<Rightarrow> error option res" where
  "ref_query_ValidateTransition k subject target s =
     (case validateTransition k subject target True s of
        Ok _ \<Rightarrow> Ok None | Err e \<Rightarrow> Ok (Some e) | Panic e \<Rightarrow> Panic e)"

definition ref_query_AllWithStatus :: "status option \<Rightarrow> 's ref_ctx_scheme \<Rightarrow> string list res" where
  "ref_query_AllWithStatus req s =
     (case req of
        None \<Rightarrow> Err invalid_argument
      | Some x \<Rightarrow>
          bind_res (status_Validate x) (\<lambda>_.
          if x < minIndexedStatus then Err (Registered ''grpc'' 5)
          else Ok (sorted_list_of_set (snd ` Set.filter (\<lambda>p. fst p = x) (ref_index s)))))"

end
