(* ===== verification/Referral_Tree.thy ===== *)
theory Referral_Tree
  imports Referral_Genesis
begin

text \<open>
  What the referral keeper maintains: the amounts and counters of the levels are sums over
  the descendants, the status of an updated account is the highest one it may have, the tree
  stays acyclic. The lemmas follow the layers of the code: the status check touches only the
  status, an update touches one record, a walk touches one record per level, a commit writes
  the buffer.
\<close>

section \<open>What an updater state shows\<close>

text \<open>The records as the updater reads them depend on the store and the buffer only.\<close>

definition tree_view :: "'s bu_st \<Rightarrow> (string \<rightharpoonup> info) \<times> (string \<times> info) list" where
  "tree_view st = (ref_store (fst st), bu_data (snd st))"

lemma bu_get_view: "tree_view st' = tree_view st \<Longrightarrow> bu_get st' = bu_get st"
  by (rule ext) (simp add: bu_get_def tree_view_def ref_Get_def split: option.split)

text \<open>Two records that differ at most in what the status check changes.\<close>

definition same_tree :: "info \<Rightarrow> info \<Rightarrow> bool" where
  "same_tree v w \<longleftrightarrow> v\<lparr>r_Status := 0, r_StatusDowngradeAt := None\<rparr> = w\<lparr>r_Status := 0, r_StatusDowngradeAt := None\<rparr>"

lemma same_tree_refl [simp]: "same_tree v v"
  by (simp add: same_tree_def)

lemma same_tree_trans: "same_tree u v \<Longrightarrow> same_tree v w \<Longrightarrow> same_tree u w"
  by (simp add: same_tree_def)

lemma same_tree_upd [simp]:
  "same_tree v (v\<lparr>r_Status := x\<rparr>)" "same_tree v (v\<lparr>r_StatusDowngradeAt := t\<rparr>)"
  by (simp_all add: same_tree_def)

lemma same_treeD:
  assumes "same_tree v w"
  shows "r_Referrer w = r_Referrer v" "r_Coins w = r_Coins v" "r_Delegated w = r_Delegated v"
    "r_ActiveRefCounts w = r_ActiveRefCounts v" "r_Banished w = r_Banished v"
    "r_ActiveReferrals w = r_ActiveReferrals v" "r_Referrals w = r_Referrals v" "r_Active w = r_Active v"
  using assms by (cases v; cases w; simp add: same_tree_def)+

lemma tree_view_simps [simp]:
  "tree_view (addCallback e a st) = tree_view st"
  "tree_view (note_stake cb a st) = tree_view st"
  "tree_view (emit ev s, b) = tree_view (s, b)"
  "tree_view (s\<lparr>ref_index := ix\<rparr>, b) = tree_view (s, b)"
  by (simp_all add: tree_view_def addCallback_def note_stake_def emit_def)

lemma ScheduleTask_ref_store [simp]: "ref_store (snd (ScheduleTask t e d s)) = ref_store s"
proof (cases "key_ok t")
  case False
  then show ?thesis by (simp add: ScheduleTask_def scheduleTask_panic)
qed (simp add: ScheduleTask_ok)

lemma Delete_ref_store [simp]: "ref_store (snd (Delete t e d s)) = ref_store s"
proof (cases "key_ok t")
  case False
  then show ?thesis by (simp add: Delete_def sched_delete_def lift_res_def Key_not_ok)
next
  case True
  then show ?thesis
    by (simp add: Delete_def sched_delete_def lift_res_def Key_ok Let_def split: option.split)
qed

section \<open>The status check\<close>

text \<open>Requirements read the amounts delegated, the active referrals and the banished flag.\<close>

lemma check_same:
  assumes "same_tree v w"
  shows "checkStatusRequirements x w g = checkStatusRequirements x v g"
proof -
  note d = same_treeD[OF assms]
  have "statusRequirementsXByX w g l c n m = statusRequirementsXByX v g l c n m" for l c n m
    by (simp add: statusRequirementsXByX_def coins_criterion_def DelegatedAtLevelsUpTo_def d)
  moreover have "statusRequirementsCore w g l c n = statusRequirementsCore v g l c n" for l c n
    by (simp add: statusRequirementsCore_def coins_criterion_def DelegatedAtLevelsUpTo_def d)
  ultimately show ?thesis by (simp add: checkStatusRequirements_def statusRequirements_def d)
qed

lemma setStatus_facts:
  "same_tree v (fst (setStatus v x a s))" "r_Status (fst (setStatus v x a s)) = x"
  "r_StatusDowngradeAt (fst (setStatus v x a s)) = r_StatusDowngradeAt v"
  "ref_store (snd (setStatus v x a s)) = ref_store s"
  by (auto simp: setStatus_def Let_def)

lemma change_status_facts:
  "same_tree v (fst (change_status a v x st))" "r_Status (fst (change_status a v x st)) = x"
  "r_StatusDowngradeAt (fst (change_status a v x st)) = r_StatusDowngradeAt v"
  "tree_view (snd (change_status a v x st)) = tree_view st"
  by (auto simp: change_status_def Let_def setStatus_facts tree_view_def addCallback_def emit_def)

definition status_met :: "info \<Rightarrow> (string \<Rightarrow> info) \<Rightarrow> bool" where
  "status_met v g \<longleftrightarrow> (\<exists>c. checkStatusRequirements (r_Status v) v g = Ok c \<and> Overall c)"

text \<open>The status after \<open>x\<close>, over the deprecated one.\<close>

definition succ_status :: "status \<Rightarrow> status" where
  "succ_status x = (if x + 1 = HeroDeprecatedStatus then x + 2 else x + 1)"

text \<open>No higher status is within reach.\<close>

definition status_top :: "status \<Rightarrow> info \<Rightarrow> (string \<Rightarrow> info) \<Rightarrow> bool" where
  "status_top x v g \<longleftrightarrow> x = MaximumStatus \<or>
     (\<exists>c. checkStatusRequirements (succ_status x) v g = Ok c \<and> \<not> Overall c)"

definition ok_status :: "status \<Rightarrow> bool" where
  "ok_status x \<longleftrightarrow> 0 \<le> x \<and> x \<le> MaximumStatus \<and> x \<noteq> HeroDeprecatedStatus"

lemma climb_status_spec:
  assumes "climb_status n x v g = Ok y" "ok_status x" "MaximumStatus - x < int n"
    and "\<exists>c. checkStatusRequirements x v g = Ok c \<and> Overall c"
  shows "x \<le> y \<and> ok_status y \<and> status_top y v g \<and> (\<exists>c. checkStatusRequirements y v g = Ok c \<and> Overall c)"
  using assms
proof (induction n arbitrary: x)
  case (Suc n)
  show ?case
  proof (cases "x = MaximumStatus")
    case True
    then show ?thesis using Suc.prems by (simp add: status_top_def)
  next
    case False
    let ?up = "succ_status x"
    have up: "x < ?up" "?up \<le> MaximumStatus" "ok_status ?up"
      using Suc.prems(2) False by (auto simp: ok_status_def succ_status_def status_defs MaximumStatus_def)
    have down: "(if ?up - 1 = HeroDeprecatedStatus then ?up - 2 else ?up - 1) = x"
      using Suc.prems(2) by (auto simp: ok_status_def succ_status_def status_defs)
    obtain c where c: "checkStatusRequirements ?up v g = Ok c"
      and r: "(if \<not> Overall c then Ok x else climb_status n ?up v g) = Ok y"
      using Suc.prems(1) False down by (auto simp: bind_res_Ok_iff succ_status_def Let_def split: if_splits)
    show ?thesis
    proof (cases "Overall c")
      case True
      then have "climb_status n ?up v g = Ok y" using r by simp
      from Suc.IH[OF this up(3)] up Suc.prems(3) c True show ?thesis by fastforce
    next
      case False
      then have "y = x" using r by simp
      then show ?thesis using Suc.prems(2,4) c False by (auto simp: status_top_def)
    qed
  qed
qed (simp add: ok_status_def)

lemma on_ctx_ScheduleTask_view [simp]: "tree_view (snd (on_ctx (ScheduleTask t e d) st)) = tree_view st"
  by (simp add: tree_view_def on_ctx_def)

lemma on_ctx_Delete_view [simp]: "tree_view (snd (on_ctx (Delete t e d) st)) = tree_view st"
  by (simp add: tree_view_def on_ctx_def)

text \<open>
  What the check leaves: either the requirements of the status are met, no downgrade is
  pending and the next status is out of reach, or they are not met and a downgrade is pending.
\<close>

definition status_settled :: "info \<Rightarrow> (string \<Rightarrow> info) \<Rightarrow> bool" where
  "status_settled v g \<longleftrightarrow>
     (status_met v g \<and> r_StatusDowngradeAt v = None \<and> status_top (r_Status v) v g)
     \<or> (\<not> status_met v g \<and> r_StatusDowngradeAt v \<noteq> None)"

lemma status_settled_same:
  "same_tree v w \<Longrightarrow> status_top x w g = status_top x v g"
  by (simp add: status_top_def check_same)

lemma downgrade_later_spec:
  assumes "downgrade_later a v st = (Ok w, st')"
  shows "same_tree v w \<and> r_Status w = r_Status v \<and> r_StatusDowngradeAt w \<noteq> None
    \<and> tree_view st' = tree_view st"
proof (cases "r_StatusDowngradeAt v = None")
  case True
  obtain st1 where st1: "on_ctx (ScheduleTask (block_time (fst st) + StatusDowngradeAfter (fst st))
      StatusDowngradeHookName a) st = (Ok (), st1)"
    and w: "w = v\<lparr>r_StatusDowngradeAt := Some (block_time (fst st) + StatusDowngradeAfter (fst st))\<rparr>"
    and st': "st' = (emit (''status_will_be_downgraded'', [AStr a, AInt (block_time (fst st)
        + StatusDowngradeAfter (fst st))]) (fst st1), snd st1)"
    using assms True by (auto simp: downgrade_later_def Let_def and_then_Ok_iff)
  have "tree_view st1 = tree_view st"
    using on_ctx_ScheduleTask_view[of "block_time (fst st) + StatusDowngradeAfter (fst st)"
        StatusDowngradeHookName a st] st1 by simp
  then show ?thesis by (simp add: w st')
qed (use assms in \<open>auto simp: downgrade_later_def\<close>)

lemma cancel_downgrade_facts:
  "same_tree v (fst (cancel_downgrade a v st))"
  "r_Status (fst (cancel_downgrade a v st)) = r_Status v"
  "r_StatusDowngradeAt (fst (cancel_downgrade a v st)) = None"
  "tree_view (snd (cancel_downgrade a v st)) = tree_view st"
  by (auto simp: cancel_downgrade_def)

lemma promote_facts:
  assumes "promote a v st = (Ok w, st')"
  obtains y where "climb_status 10 (r_Status v) v (bu_get st) = Ok y"
    "same_tree v w" "r_Status w = max y (r_Status v)" "r_StatusDowngradeAt w = r_StatusDowngradeAt v"
    "tree_view st' = tree_view st"
proof -
  obtain y where y: "climb_status 10 (r_Status v) v (bu_get st) = Ok y"
    and r: "(if y > r_Status v then (Ok (fst (change_status a v y st)), snd (change_status a v y st))
        else (Ok v, st)) = (Ok w, st')"
    using assms by (auto simp: promote_def and_then_Ok_iff lift_res_def)
  show ?thesis
  proof (cases "y > r_Status v")
    case True
    then have "w = fst (change_status a v y st)" "st' = snd (change_status a v y st)" using r by auto
    with True that[OF y] show ?thesis by (simp add: change_status_facts)
  next
    case False
    then have "w = v" "st' = st" using r by auto
    with False that[OF y] show ?thesis by simp
  qed
qed

lemma upgrade_now_spec:
  assumes "upgrade_now a v st = (Ok w, st')"
  shows "same_tree v w \<and> tree_view st' = tree_view st"
    and "ok_status (r_Status v) \<Longrightarrow>
      \<exists>c. checkStatusRequirements (r_Status v) v (bu_get st) = Ok c \<and> Overall c \<Longrightarrow>
      ok_status (r_Status w) \<and> status_settled w (bu_get st)"
proof -
  define v1 where "v1 = fst (cancel_downgrade a v st)"
  define st1 where "st1 = snd (cancel_downgrade a v st)"
  have v1: "same_tree v v1" "r_Status v1 = r_Status v" "r_StatusDowngradeAt v1 = None"
    "tree_view st1 = tree_view st"
    by (simp_all add: v1_def st1_def cancel_downgrade_facts)
  have "promote a v1 st1 = (Ok w, st')" using assms by (simp add: upgrade_now_def v1_def st1_def)
  then obtain y where y: "climb_status 10 (r_Status v1) v1 (bu_get st1) = Ok y"
    and w: "same_tree v1 w" "r_Status w = max y (r_Status v1)" "r_StatusDowngradeAt w = None"
    "tree_view st' = tree_view st1"
    using v1(3) by (elim promote_facts) simp
  show "same_tree v w \<and> tree_view st' = tree_view st"
    using w v1 by (auto intro: same_tree_trans)
  assume ok: "ok_status (r_Status v)"
    and "\<exists>c. checkStatusRequirements (r_Status v) v (bu_get st) = Ok c \<and> Overall c"
  then have met: "\<exists>c. checkStatusRequirements (r_Status v1) v1 (bu_get st1) = Ok c \<and> Overall c"
    unfolding check_same[OF v1(1)] v1(2) bu_get_view[OF v1(4)] by simp
  have fuel: "MaximumStatus - r_Status v1 < int 10"
    using ok v1(2) by (simp add: ok_status_def MaximumStatus_def status_defs)
  have ok1: "ok_status (r_Status v1)" using ok v1(2) by simp
  note y' = climb_status_spec[OF y ok1 fuel met]
  have sy: "r_Status w = y" using w(2) y' by simp
  have "status_met w (bu_get st)" "status_top (r_Status w) w (bu_get st)"
    using y' sy check_same[OF w(1)] status_settled_same[OF w(1)] bu_get_view[OF v1(4)]
    by (simp_all add: status_met_def)
  then show "ok_status (r_Status w) \<and> status_settled w (bu_get st)"
    using y' sy w(3) by (simp add: status_settled_def)
qed

lemma status_update_spec:
  assumes "status_update a v st = (Ok w, st')"
  shows "same_tree v w \<and> tree_view st' = tree_view st"
    and "ok_status (r_Status v) \<or> r_Status v = HeroDeprecatedStatus \<Longrightarrow>
      ok_status (r_Status w) \<and> status_settled w (bu_get st)"
proof -
  define vs where "vs = (if r_Status v = HeroDeprecatedStatus
    then change_status a v (r_Status v + 1) st else (v, st))"
  have vs: "same_tree v (fst vs)" "tree_view (snd vs) = tree_view st"
    by (auto simp: vs_def change_status_facts)
  obtain c where c: "checkStatusRequirements (r_Status (fst vs)) (fst vs) (bu_get (snd vs)) = Ok c"
    and r: "(if \<not> Overall c then downgrade_later a (fst vs) (snd vs) else upgrade_now a (fst vs) (snd vs)) = (Ok w, st')"
    using assms by (auto simp: status_update_def Let_def and_then_Ok_iff lift_res_def simp flip: vs_def)
  have st: "ok_status (r_Status (fst vs))" if "ok_status (r_Status v) \<or> r_Status v = HeroDeprecatedStatus"
    using that by (auto simp: vs_def change_status_facts ok_status_def MaximumStatus_def status_defs)
  note g = bu_get_view[OF vs(2)]
  show "same_tree v w \<and> tree_view st' = tree_view st"
  proof (cases "Overall c")
    case False
    then show ?thesis using downgrade_later_spec[of a "fst vs" "snd vs" w st'] r vs by (auto intro: same_tree_trans)
  next
    case True
    then show ?thesis using upgrade_now_spec(1)[of a "fst vs" "snd vs" w st'] r vs by (auto intro: same_tree_trans)
  qed
  show "ok_status (r_Status w) \<and> status_settled w (bu_get st)"
    if h: "ok_status (r_Status v) \<or> r_Status v = HeroDeprecatedStatus"
  proof (cases "Overall c")
    case False
    then have d: "same_tree (fst vs) w \<and> r_Status w = r_Status (fst vs) \<and> r_StatusDowngradeAt w \<noteq> None"
      using downgrade_later_spec[of a "fst vs" "snd vs" w st'] r by auto
    then have "\<not> status_met w (bu_get st)"
      using c False check_same[of "fst vs" w] by (simp add: status_met_def g)
    with d st[OF h] show ?thesis by (simp add: status_settled_def)
  next
    case True
    then show ?thesis
      using upgrade_now_spec(2)[of a "fst vs" "snd vs" w st'] r c st[OF h] g by auto
  qed
qed

section \<open>One update\<close>

text \<open>
  The buffer names every account once, and registers callbacks for changed stakes and
  statuses only.
\<close>

definition tree_event :: "string \<Rightarrow> bool" where
  "tree_event e \<longleftrightarrow> e = StakeChangedCallback \<or> e = StatusUpdatedCallback"

definition bu_inv :: "'s bu_st \<Rightarrow> bool" where
  "bu_inv st \<longleftrightarrow> distinct (map fst (bu_data (snd st))) \<and>
     (\<forall>cb \<in> set (bu_callbacks (snd st)). tree_event (fst cb))"

lemma tree_event_simps [simp]: "tree_event StakeChangedCallback" "tree_event StatusUpdatedCallback"
  by (simp_all add: tree_event_def)

lemma bu_inv_new [simp]: "bu_inv (s, newBunchUpdater)"
  by (simp add: bu_inv_def newBunchUpdater_def)

lemma bu_inv_addCallback [simp]: "tree_event e \<Longrightarrow> bu_inv st \<Longrightarrow> bu_inv (addCallback e a st)"
  by (auto simp: bu_inv_def addCallback_def)

lemma bu_inv_note [simp]: "bu_inv st \<Longrightarrow> bu_inv (note_stake cb a st)"
  by (simp add: note_stake_def)

lemma map_fst_replace: "map fst (map (\<lambda>d. if fst d = a then (a, v) else d) ds) = map fst ds"
  by (induction ds) auto

lemma map_of_put_data: "map_of (put_data a v ds) = (map_of ds)(a \<mapsto> v)"
proof (cases "a \<in> set (map fst ds)")
  case True
  then have "map_of (map (\<lambda>d. if fst d = a then (a, v) else d) ds) = (map_of ds)(a \<mapsto> v)"
  proof (induction ds)
    case (Cons d ds)
    show ?case
    proof (cases "a \<in> set (map fst ds)")
      case True
      with Cons.IH show ?thesis by (cases d) (auto simp: fun_eq_iff)
    next
      case False
      then have "map (\<lambda>d. if fst d = a then (a, v) else d) ds = ds" by (intro map_idI) auto
      with Cons.prems False show ?thesis by (cases d) auto
    qed
  qed simp
  with True show ?thesis by (simp add: put_data_def)
next
  case False
  then have "map_of ds a = None" by (simp add: map_of_eq_None_iff)
  with False show ?thesis by (auto simp: put_data_def map_add_def fun_eq_iff split: option.split)
qed

lemma put_data_distinct: "distinct (map fst ds) \<Longrightarrow> distinct (map fst (put_data a v ds))"
  unfolding put_data_def by (simp only: map_fst_replace if_distrib[where f = "map fst"]) simp

lemma bu_get_set [simp]: "bu_get (bu_set a v st) = (bu_get st)(a := v)"
  by (rule ext) (auto simp: bu_get_def bu_set_def map_of_put_data split: option.split)

lemma bu_inv_set [simp]: "bu_inv st \<Longrightarrow> bu_inv (bu_set a v st)"
  by (simp add: bu_inv_def bu_set_def put_data_distinct)

lemma bu_set_store [simp]: "ref_store (fst (bu_set a v st)) = ref_store (fst st)"
  by (simp add: bu_set_def)

text \<open>Steps that leave the records alone and keep the buffer well formed.\<close>

definition quiet :: "'s bu_st \<Rightarrow> 's bu_st \<Rightarrow> bool" where
  "quiet st st' \<longleftrightarrow> tree_view st' = tree_view st \<and> (bu_inv st \<longrightarrow> bu_inv st')"

lemma quiet_refl [simp]: "quiet st st"
  by (simp add: quiet_def)

lemma quiet_trans: "quiet st st1 \<Longrightarrow> quiet st1 st2 \<Longrightarrow> quiet st st2"
  by (simp add: quiet_def)

lemma quiet_get: "quiet st st' \<Longrightarrow> bu_get st' = bu_get st"
  by (rule bu_get_view) (simp add: quiet_def)

lemma quiet_on_ctx:
  "ref_store (snd (f (fst st))) = ref_store (fst st) \<Longrightarrow> quiet st (snd (on_ctx f st))"
  by (simp add: quiet_def on_ctx_def tree_view_def bu_inv_def)

lemma quiet_addCallback [simp]: "tree_event e \<Longrightarrow> quiet st (addCallback e a st)"
  by (simp add: quiet_def)

lemma quiet_note [simp]: "quiet st (note_stake cb a st)"
  by (simp add: quiet_def)

lemma change_status_quiet: "quiet st (snd (change_status a v x st))"
proof -
  have "bu_callbacks (snd (snd (change_status a v x st)))
      = bu_callbacks (snd st) @ [(StatusUpdatedCallback, a)]"
    "bu_data (snd (snd (change_status a v x st))) = bu_data (snd st)"
    by (simp_all add: change_status_def Let_def addCallback_def)
  then show ?thesis by (auto simp: quiet_def change_status_facts bu_inv_def)
qed

lemma downgrade_later_quiet:
  assumes "downgrade_later a v st = (Ok w, st')"
  shows "quiet st st'"
proof (cases "r_StatusDowngradeAt v = None")
  case True
  define t where "t = block_time (fst st) + StatusDowngradeAfter (fst st)"
  obtain st1 where st1: "on_ctx (ScheduleTask t StatusDowngradeHookName a) st = (Ok (), st1)"
    and st': "st' = (emit (''status_will_be_downgraded'', [AStr a, AInt t]) (fst st1), snd st1)"
    using assms True by (auto simp: downgrade_later_def Let_def and_then_Ok_iff t_def)
  have "quiet st st1"
    using quiet_on_ctx[of "ScheduleTask t StatusDowngradeHookName a" st] st1 by simp
  then show ?thesis by (simp add: st' quiet_def bu_inv_def tree_view_def emit_def)
qed (use assms in \<open>auto simp: downgrade_later_def\<close>)

lemma promote_quiet:
  assumes "promote a v st = (Ok w, st')"
  shows "quiet st st'"
proof -
  obtain y where r: "(if y > r_Status v then (Ok (fst (change_status a v y st)), snd (change_status a v y st))
        else (Ok v, st)) = (Ok w, st')"
    using assms by (auto simp: promote_def and_then_Ok_iff lift_res_def)
  then have "st' = snd (change_status a v y st) \<or> st' = st" by (simp split: if_splits)
  then show ?thesis using change_status_quiet[of st a v y] by auto
qed

lemma cancel_downgrade_quiet: "quiet st (snd (cancel_downgrade a v st))"
  by (auto simp: cancel_downgrade_def quiet_def tree_view_def bu_inv_def emit_def)

lemma status_update_quiet:
  assumes "status_update a v st = (Ok w, st')"
  shows "quiet st st'"
proof -
  define vs where "vs = (if r_Status v = HeroDeprecatedStatus
    then change_status a v (r_Status v + 1) st else (v, st))"
  have q: "quiet st (snd vs)" by (simp add: vs_def change_status_quiet)
  obtain c where c: "checkStatusRequirements (r_Status (fst vs)) (fst vs) (bu_get (snd vs)) = Ok c"
    and r: "(if \<not> Overall c then downgrade_later a (fst vs) (snd vs)
      else upgrade_now a (fst vs) (snd vs)) = (Ok w, st')"
    using assms by (auto simp: status_update_def Let_def and_then_Ok_iff lift_res_def simp flip: vs_def)
  have "quiet (snd vs) st'"
  proof (cases "Overall c")
    case False
    then have "downgrade_later a (fst vs) (snd vs) = (Ok w, st')" using r by simp
    then show ?thesis by (rule downgrade_later_quiet)
  next
    case True
    then have "promote a (fst (cancel_downgrade a (fst vs) (snd vs)))
        (snd (cancel_downgrade a (fst vs) (snd vs))) = (Ok w, st')"
      using r by (simp add: upgrade_now_def)
    from quiet_trans[OF cancel_downgrade_quiet promote_quiet[OF this]] show ?thesis .
  qed
  with q show ?thesis by (rule quiet_trans)
qed

text \<open>
  An update that goes through: the callback ran on the normalised record, the record it gave
  is buffered up to its status, and the records of other accounts are as the callback left
  them.
\<close>

lemma bu_update_Ok:
  assumes "bu_update acc check cb st = (Ok x, st')"
  obtains w v st1 where "cb (Normalize (bu_get st acc)) st = (Ok (x, w), st1)"
    "same_tree w v" "bu_get st' = (bu_get st1)(acc := v)" "bu_inv st1 \<Longrightarrow> bu_inv st'"
    "ref_store (fst st') = ref_store (fst st1)"
    "check \<Longrightarrow> ok_status (r_Status w) \<or> r_Status w = HeroDeprecatedStatus \<Longrightarrow>
      ok_status (r_Status v) \<and> status_settled v (bu_get st1)"
proof -
  obtain xw st1 where cb0: "cb (Normalize (bu_get st acc)) st = (Ok xw, st1)"
    and r: "and_then (if check then status_update acc (snd xw) st1 else (Ok (snd xw), st1))
        (\<lambda>value st. (Ok (fst xw), bu_set acc value st)) = (Ok x, st')"
    using assms unfolding bu_update_def recover_err_Ok_iff and_then_Ok_iff[of "cb _ _"] by blast
  define w where "w = snd xw"
  obtain v st2 where s2: "(if check then status_update acc w st1 else (Ok w, st1)) = (Ok v, st2)"
    and x: "x = fst xw" and st': "st' = bu_set acc v st2"
    using r unfolding and_then_Ok_iff w_def by blast
  have cb: "cb (Normalize (bu_get st acc)) st = (Ok (x, w), st1)" using cb0 by (simp add: x w_def)
  have f: "same_tree w v" "quiet st1 st2"
    using s2 status_update_spec(1)[of acc w st1 v st2] status_update_quiet[of acc w st1 v st2]
    by (auto split: if_splits)
  show ?thesis
  proof (rule that[OF cb f(1)])
    show "bu_get st' = (bu_get st1)(acc := v)" by (simp add: st' quiet_get[OF f(2)])
    show "bu_inv st1 \<Longrightarrow> bu_inv st'" using f(2) by (simp add: st' quiet_def)
    show "ref_store (fst st') = ref_store (fst st1)"
      using f(2) by (simp add: st' quiet_def tree_view_def)
    show "check \<Longrightarrow> ok_status (r_Status w) \<or> r_Status w = HeroDeprecatedStatus \<Longrightarrow>
      ok_status (r_Status v) \<and> status_settled v (bu_get st1)"
      using status_update_spec(2)[of acc w st1 v st2] s2 by simp
  qed
qed

section \<open>Walking up\<close>

text \<open>The account \<open>n\<close> levels above, the empty string over the top.\<close>

fun up :: "(string \<Rightarrow> info) \<Rightarrow> nat \<Rightarrow> string \<Rightarrow> string" where
  "up g 0 a = a"
| "up g (Suc n) a = (if a = [] then [] else up g n (r_Referrer (g a)))"

lemma up_cong: "(\<And>a. r_Referrer (g a) = r_Referrer (h a)) \<Longrightarrow> up g n a = up h n a"
  by (induction n arbitrary: a) auto

lemma up_nil [simp]: "up g n [] = []"
  by (cases n) auto

text \<open>
  A measure of the levels of a record that one step of a walk changes by \<open>\<delta>\<close> at the step's
  level and nowhere else. The amounts of coins, the amounts delegated and the counters of
  active referrals are three of them.
\<close>

locale level_measure =
  fixes \<mu> :: "info \<Rightarrow> nat \<Rightarrow> 'g::comm_monoid_add"
    and f :: "nat \<Rightarrow> info \<Rightarrow> info" and \<delta> :: 'g
  assumes measure_same: "same_tree v w \<Longrightarrow> \<mu> w = \<mu> v"
    and measure_norm: "\<mu> (Normalize v) = \<mu> v"
    and measure_step: "1 \<le> l \<Longrightarrow> l \<le> 10 \<Longrightarrow> \<mu> (f l (Normalize v)) j = \<mu> v j + (if j = l then \<delta> else 0)"
    and step_referrer: "r_Referrer (f l v) = r_Referrer v"
begin

lemma walk_up_measure:
  assumes "walk_up f check note [i..<n] anc st = (Ok (), st')" "1 \<le> i" "n \<le> 11"
    and "\<And>a st. quiet st (note a st)"
  shows "(\<forall>a. r_Referrer (bu_get st' a) = r_Referrer (bu_get st a))
    \<and> (bu_inv st \<longrightarrow> bu_inv st') \<and> ref_store (fst st') = ref_store (fst st)
    \<and> (\<forall>a j. \<mu> (bu_get st' a) j = \<mu> (bu_get st a) j +
         (if i \<le> j \<and> j < n \<and> a \<noteq> [] \<and> up (bu_get st) (j - i) anc = a then \<delta> else 0))"
  using assms(1,2)
proof (induction "n - i" arbitrary: i anc st)
  case 0
  then have "n \<le> i" by simp
  then show ?case using 0 by auto
next
  case (Suc m)
  then have i: "i < n" by simp
  show ?case
  proof (cases "anc = []")
    case True
    then have "st' = st" using Suc.prems(1) i by (simp add: upt_conv_Cons)
    then show ?thesis using True by auto
  next
    case False
    obtain nxt st1 where u: "bu_update anc check (\<lambda>value st.
        (Ok (r_Referrer value, f i value), note anc st)) st = (Ok nxt, st1)"
      and r: "walk_up f check note [Suc i..<n] nxt st1 = (Ok (), st')"
      using Suc.prems(1) i False by (auto simp: upt_conv_Cons and_then_Ok_iff)
    obtain w v t1 where cb: "(Ok (r_Referrer (Normalize (bu_get st anc)), f i (Normalize (bu_get st anc))),
        note anc st) = (Ok (nxt, w), t1)"
      and st1: "same_tree w v" "bu_get st1 = (bu_get t1)(anc := v)" "bu_inv t1 \<Longrightarrow> bu_inv st1"
      "ref_store (fst st1) = ref_store (fst t1)"
      using bu_update_Ok[OF u] by metis
    have t1: "quiet st t1" using cb assms(4)[of st anc] by simp
    have nx: "nxt = r_Referrer (bu_get st anc)" using cb by (simp add: Normalize_def)
    have w: "w = f i (Normalize (bu_get st anc))" using cb by simp
    have g1: "bu_get st1 = (bu_get st)(anc := v)" using st1(2) quiet_get[OF t1] by simp
    have rv: "r_Referrer v = r_Referrer (bu_get st anc)"
      using same_treeD(1)[OF st1(1)] by (simp add: w step_referrer Normalize_def)
    have ref1: "r_Referrer (bu_get st1 a) = r_Referrer (bu_get st a)" for a
      by (simp add: g1 rv)
    have mv: "\<mu> v j = \<mu> (bu_get st anc) j + (if j = i then \<delta> else 0)" for j
      using measure_same[OF st1(1)] measure_step[of i "bu_get st anc" j] Suc.prems(2) i assms(3)
      by (simp add: w)
    have IH: "(\<forall>a. r_Referrer (bu_get st' a) = r_Referrer (bu_get st1 a))
      \<and> (bu_inv st1 \<longrightarrow> bu_inv st') \<and> ref_store (fst st') = ref_store (fst st1)
      \<and> (\<forall>a j. \<mu> (bu_get st' a) j = \<mu> (bu_get st1 a) j +
         (if Suc i \<le> j \<and> j < n \<and> a \<noteq> [] \<and> up (bu_get st1) (j - Suc i) nxt = a then \<delta> else 0))"
      by (rule Suc.hyps(1)[OF _ r]) (use Suc.hyps(2) in auto)
    have upe: "up (bu_get st1) (j - Suc i) nxt = up (bu_get st) (j - i) anc" if "Suc i \<le> j" for j
    proof -
      have "j - i = Suc (j - Suc i)" using that by simp
      then have "up (bu_get st) (j - i) anc = up (bu_get st) (j - Suc i) nxt"
        using False by (simp add: nx)
      then show ?thesis using up_cong[of "bu_get st1" "bu_get st"] ref1 by simp
    qed
    have "\<mu> (bu_get st' a) j = \<mu> (bu_get st a) j +
         (if i \<le> j \<and> j < n \<and> a \<noteq> [] \<and> up (bu_get st) (j - i) anc = a then \<delta> else 0)" for a j
    proof -
      consider (eq) "j = i" | (gt) "Suc i \<le> j" | (lt) "j < i" by linarith
      then show ?thesis
      proof cases
        case eq
        then show ?thesis using IH i mv False by (simp add: g1)
      next
        case gt
        then show ?thesis using IH mv upe[OF gt] by (simp add: g1)
      next
        case lt
        then show ?thesis using IH mv by (simp add: g1)
      qed
    qed
    moreover have "bu_inv st \<longrightarrow> bu_inv st1" "ref_store (fst st1) = ref_store (fst st)"
      using t1 st1(3,4) by (auto simp: quiet_def tree_view_def)
    ultimately show ?thesis using IH ref1 by auto
  qed
qed

end

text \<open>The three measures; past the end of a list there is nothing.\<close>

definition level_at :: "'a::zero list \<Rightarrow> nat \<Rightarrow> 'a" where
  "level_at xs j = (if j < length xs then xs ! j else 0)"

definition coins_at :: "info \<Rightarrow> nat \<Rightarrow> int" where "coins_at v = level_at (r_Coins v)"
definition delegated_at :: "info \<Rightarrow> nat \<Rightarrow> int" where "delegated_at v = level_at (r_Delegated v)"
definition active_at :: "info \<Rightarrow> nat \<Rightarrow> 64 word" where "active_at v = level_at (r_ActiveRefCounts v)"

lemma level_at_pad [simp]: "level_at (pad n 0 xs) = level_at xs"
  by (rule ext) (auto simp: level_at_def pad_def nth_append)

lemma level_at_add:
  fixes x :: "'a::comm_monoid_add"
  assumes "l < length xs"
  shows "level_at (add_at l x xs) j = level_at xs j + (if j = l then x else 0)"
  using assms by (auto simp: level_at_def add_at_def)

lemma measures_same:
  "same_tree v w \<Longrightarrow> coins_at w = coins_at v" "same_tree v w \<Longrightarrow> delegated_at w = delegated_at v"
  "same_tree v w \<Longrightarrow> active_at w = active_at v"
  by (auto simp: coins_at_def delegated_at_def active_at_def dest: same_treeD)

lemma measures_norm [simp]:
  "coins_at (Normalize v) = coins_at v" "delegated_at (Normalize v) = delegated_at v"
  "active_at (Normalize v) = active_at v"
  by (simp_all add: coins_at_def delegated_at_def active_at_def Normalize_def)

lemma Normalize_sel [simp]:
  "r_Referrer (Normalize v) = r_Referrer v" "r_Status (Normalize v) = r_Status v"
  "r_Banished (Normalize v) = r_Banished v" "r_Active (Normalize v) = r_Active v"
  "r_Referrals (Normalize v) = r_Referrals v" "r_BanishmentAt (Normalize v) = r_BanishmentAt v"
  "r_CompressionAt (Normalize v) = r_CompressionAt v" "r_Transition (Normalize v) = r_Transition v"
  "r_ActiveReferrals (Normalize v) = r_ActiveReferrals v"
  by (simp_all add: Normalize_def)

lemma Normalize_length [simp]:
  "l \<le> 10 \<Longrightarrow> l < length (r_Coins (Normalize v))" "l \<le> 10 \<Longrightarrow> l < length (r_Delegated (Normalize v))"
  "l \<le> 10 \<Longrightarrow> l < length (r_ActiveRefCounts (Normalize v))"
  by (auto simp: Normalize_def)

interpretation coins_credit: level_measure coins_at "\<lambda>l. credit l c d" c for c d
proof
  show "coins_at (credit l c d (Normalize v)) j = coins_at v j + (if j = l then c else 0)"
    if "1 \<le> l" "l \<le> 10" for l v j
    using level_at_add[of l "r_Coins (Normalize v)" c j] that
    by (simp add: coins_at_def credit_def) (simp add: Normalize_def)
qed (simp_all add: measures_same credit_def)

interpretation delegated_credit: level_measure delegated_at "\<lambda>l. credit l c d" d for c d
proof
  show "delegated_at (credit l c d (Normalize v)) j = delegated_at v j + (if j = l then d else 0)"
    if "1 \<le> l" "l \<le> 10" for l v j
    using level_at_add[of l "r_Delegated (Normalize v)" d j] that
    by (simp add: delegated_at_def credit_def) (simp add: Normalize_def)
qed (simp_all add: measures_same credit_def)

interpretation active_count: level_measure active_at "active_level acc b"
  "(if b then 1 else - 1) :: 64 word" for acc b
proof
  show "active_at (active_level acc b l (Normalize v)) j =
      active_at v j + (if j = l then (if b then 1 else - 1) else 0)"
    if "1 \<le> l" "l \<le> 10" for l v j
    using level_at_add[of l "r_ActiveRefCounts (Normalize v)" "if b then 1 else - 1" j] that
    by (simp add: active_at_def active_level_def Let_def) (simp add: Normalize_def)
qed (simp_all add: measures_same active_level_def Let_def)

end
