(* ===== verification/Referral_Sums.thy ===== *)
theory Referral_Sums
  imports Referral_Tree
begin

text \<open>
  The amounts an account keeps of its levels are sums over its descendants. First what a
  commit writes and what a walk leaves alone, then the sums, then the operations that keep
  them: a changed balance, a new child, a banishment, a transition.
\<close>

section \<open>Commits\<close>

lemma bu_get_new: "bu_get (s, newBunchUpdater) = (\<lambda>a. ref_Get a s)"
  by (rule ext) (simp add: bu_get_def newBunchUpdater_def)

lemma write_data_store:
  "distinct (map fst ds) \<Longrightarrow> ref_store (write_data ds s) = ref_store s ++ map_of ds"
proof (induction ds arbitrary: s)
  case (Cons d ds)
  have "fst d \<notin> dom (map_of ds)" using Cons.prems by (simp add: dom_map_of_conv_image_fst)
  moreover have "ref_store (write_data (d # ds) s) = (ref_store s)(fst d \<mapsto> snd d) ++ map_of ds"
    using Cons by (simp add: write_data_def ref_set_def)
  ultimately show ?case by (cases d) (auto simp: fun_eq_iff map_add_def domIff split: option.split)
qed (simp add: write_data_def)

lemma bu_get_store: "(case (ref_store (fst st) ++ map_of (bu_data (snd st))) a of
    None \<Rightarrow> zero_info | Some r \<Rightarrow> r) = bu_get st a"
  by (simp add: bu_get_def ref_Get_def map_add_def split: option.split)

lemma in_sort_remdups: "x \<in> set (remdups_adj (sort_key f (sort_key g xs))) \<longleftrightarrow> x \<in> set xs"
  by simp

text \<open>
  The callbacks of changed stakes and statuses do not write to the tree: other modules react
  to them in their own stores.
\<close>

locale tree_callbacks =
  fixes k :: "'s ref_keeper"
  assumes hook_frame: "(e, h) \<in> set (rk_hooks k) \<Longrightarrow> tree_event e \<Longrightarrow>
    ref_store (snd (h a s)) = ref_store s"
begin

lemma callback_store:
  assumes "tree_event e"
  shows "ref_store (snd (callback k e acc s)) = ref_store s"
  unfolding callback_def
proof (rule keeps_for_each[where P = "\<lambda>s'. ref_store s' = ref_store s"])
  fix h and s' :: "'s ref_ctx_scheme"
  assume "h \<in> set (map snd (filter (\<lambda>h. fst h = e) (rk_hooks k)))" and s: "ref_store s' = ref_store s"
  then have "(e, h) \<in> set (rk_hooks k)" by auto
  from hook_frame[OF this assms] s
  show "ref_store (snd (case AccAddressFromBech32 (rk_sdk k) acc of
      None \<Rightarrow> (Err (Text ''invalid account address''), s') | Some a \<Rightarrow> h a s')) = ref_store s"
    by (simp split: option.split)
qed simp

lemma commit_store:
  assumes "bu_inv st"
  shows "ref_store (snd (bu_commit k st)) = ref_store (fst st) ++ map_of (bu_data (snd st))"
proof -
  have "ref_store (snd (bu_commit k st)) = ref_store (write_data (bu_data (snd st)) (fst st))"
    unfolding bu_commit_def
  proof (rule keeps_for_each[where P = "\<lambda>s'. ref_store s' = ref_store (write_data (bu_data (snd st)) (fst st))"])
    fix cb and s :: "'s ref_ctx_scheme"
    assume "cb \<in> set (remdups_adj (sort_key snd (sort_key fst (bu_callbacks (snd st)))))"
    then have "tree_event (fst cb)" using assms by (simp only: in_sort_remdups bu_inv_def)
    moreover assume "ref_store s = ref_store (write_data (bu_data (snd st)) (fst st))"
    ultimately show "ref_store (snd (callback k (fst cb) (snd cb) s))
        = ref_store (write_data (bu_data (snd st)) (fst st))"
      by (simp add: callback_store)
  qed (rule refl)
  then show ?thesis using assms by (simp add: write_data_store bu_inv_def)
qed

lemma commit_Get: "bu_inv st \<Longrightarrow> ref_Get a (snd (bu_commit k st)) = bu_get st a"
  using bu_get_store[of st a] by (simp add: ref_Get_def commit_store)

lemma commit_after_fst: "commit_after k r = (Ok v, s') \<Longrightarrow> r = (Ok v, snd r)"
  by (cases r; cases "fst r") (auto simp: commit_after_def and_then_Ok_iff)

lemma commit_after_Ok:
  assumes "commit_after k (r, st) = (Ok v, s')" "bu_inv st"
  shows "r = Ok v" "ref_store s' = ref_store (fst st) ++ map_of (bu_data (snd st))"
    "\<forall>a. ref_Get a s' = bu_get st a"
proof -
  obtain w where r: "r = Ok w" and c: "and_then (bu_commit k st) (\<lambda>_ s. (Ok w, s)) = (Ok v, s')"
    using assms(1) by (cases r) (auto simp: commit_after_def)
  then show "r = Ok v" by (auto simp: and_then_Ok_iff)
  have "s' = snd (bu_commit k st)" using c unfolding and_then_Ok_iff by auto
  then show "ref_store s' = ref_store (fst st) ++ map_of (bu_data (snd st))"
    "\<forall>a. ref_Get a s' = bu_get st a"
    using commit_store[OF assms(2)] commit_Get[OF assms(2)] by auto
qed

end

section \<open>What a walk leaves alone\<close>

text \<open>A field of the records that neither the status check nor the step of a walk changes.\<close>

lemma walk_up_field:
  assumes "walk_up f check note lvls anc st = (Ok (), st')"
    and "\<And>l v. F (f l v) = F v" "\<And>v. F (Normalize v) = F v"
    and "\<And>v w. same_tree v w \<Longrightarrow> F w = F v" "\<And>a st. quiet st (note a st)"
  shows "F (bu_get st' a) = F (bu_get st a)"
  using assms(1)
proof (induction lvls arbitrary: anc st)
  case (Cons l lvls)
  show ?case
  proof (cases "anc = []")
    case False
    obtain nxt st1 where u: "bu_update anc check (\<lambda>value st.
        (Ok (r_Referrer value, f l value), note anc st)) st = (Ok nxt, st1)"
      and r: "walk_up f check note lvls nxt st1 = (Ok (), st')"
      using Cons.prems False by (auto simp: and_then_Ok_iff)
    obtain w v t1 where cb: "(Ok (r_Referrer (Normalize (bu_get st anc)), f l (Normalize (bu_get st anc))),
        note anc st) = (Ok (nxt, w), t1)"
      and st1: "same_tree w v" "bu_get st1 = (bu_get t1)(anc := v)"
      using bu_update_Ok[OF u] by metis
    have "t1 = note anc st" "w = f l (Normalize (bu_get st anc))" using cb by auto
    then have "F v = F (bu_get st anc)" "bu_get t1 = bu_get st"
      using assms(2,3) assms(4)[OF st1(1)] quiet_get[OF assms(5)[of st anc]] by simp_all
    then have "F (bu_get st1 a) = F (bu_get st a)" by (simp add: st1(2))
    then show ?thesis using Cons.IH[OF r] by simp
  qed (use Cons.prems in simp)
qed simp

text \<open>The part of a record no walk over the levels touches.\<close>

definition place :: "info \<Rightarrow> string \<times> bool \<times> string list \<times> int \<times> int" where
  "place v = (r_Referrer v, r_Banished v, r_Referrals v, coins_at v 0, delegated_at v 0)"

lemma place_same: "same_tree v w \<Longrightarrow> place w = place v"
  by (simp add: place_def same_treeD measures_same)

lemma place_norm [simp]: "place (Normalize v) = place v"
  by (simp add: place_def)

lemma level_at_add0: "level_at (add_at (Suc l) x xs) 0 = level_at xs 0"
  by (cases xs) (simp_all add: level_at_def add_at_def)

lemma place_credit: "1 \<le> l \<Longrightarrow> place (credit l c d v) = place v"
  by (cases l) (simp_all add: place_def credit_def coins_at_def delegated_at_def level_at_add0)

lemma walk_up_cong:
  assumes "\<And>l v. l \<in> set lvls \<Longrightarrow> f l v = g l v"
  shows "walk_up f check note lvls anc st = walk_up g check note lvls anc st"
  using assms
proof (induction lvls arbitrary: anc st)
  case (Cons l lvls)
  have "f l v = g l v" for v using Cons.prems by simp
  moreover have "walk_up f check note lvls = walk_up g check note lvls"
    by (intro ext Cons.IH) (use Cons.prems in simp)
  ultimately show ?case by simp
qed simp

text \<open>Crediting the ancestors, as a whole.\<close>

definition hits :: "(string \<Rightarrow> info) \<Rightarrow> nat \<Rightarrow> nat \<Rightarrow> string \<Rightarrow> string \<Rightarrow> nat \<Rightarrow> bool" where
  "hits g i n anc a j \<longleftrightarrow> i \<le> j \<and> j < n \<and> a \<noteq> [] \<and> up g (j - i) anc = a"

lemma credit_levels_spec:
  assumes "credit_levels cb c d [i..<n] anc st = (Ok (), st')" "1 \<le> i" "n \<le> 11"
  shows "(\<forall>a. place (bu_get st' a) = place (bu_get st a)) \<and> (bu_inv st \<longrightarrow> bu_inv st')
    \<and> ref_store (fst st') = ref_store (fst st)
    \<and> (\<forall>a j. coins_at (bu_get st' a) j = coins_at (bu_get st a) j + (if hits (bu_get st) i n anc a j then c else 0))
    \<and> (\<forall>a j. delegated_at (bu_get st' a) j = delegated_at (bu_get st a) j + (if hits (bu_get st) i n anc a j then d else 0))"
proof -
  let ?f = "\<lambda>l. if 1 \<le> l then credit l c d else (\<lambda>v. v)"
  have w: "walk_up (\<lambda>l. credit l c d) True (note_stake cb) [i..<n] anc st = (Ok (), st')"
    using assms(1) by (simp add: credit_levels_def)
  have "walk_up ?f True (note_stake cb) [i..<n] anc st
      = walk_up (\<lambda>l. credit l c d) True (note_stake cb) [i..<n] anc st"
    by (rule walk_up_cong) (use assms(2) in simp)
  then have wf: "walk_up ?f True (note_stake cb) [i..<n] anc st = (Ok (), st')" using w by simp
  have "place (bu_get st' a) = place (bu_get st a)" for a
    by (rule walk_up_field[OF wf]) (simp_all add: place_credit place_same)
  moreover note coins_credit.walk_up_measure[OF w assms(2,3) quiet_note]
    delegated_credit.walk_up_measure[OF w assms(2,3) quiet_note]
  ultimately show ?thesis by (simp add: hits_def)
qed

section \<open>The sums\<close>

text \<open>
  \<open>level_sum \<mu> g D a l\<close> adds \<open>\<mu>\<close>, an account's own amount, over the accounts of \<open>D\<close> that are \<open>l\<close>
  levels below \<open>a\<close> and not banished.
\<close>

definition level_sum :: "(info \<Rightarrow> int) \<Rightarrow> (string \<Rightarrow> info) \<Rightarrow> string set \<Rightarrow> string \<Rightarrow> nat \<Rightarrow> int" where
  "level_sum \<mu> g D a l = (\<Sum>b\<in>D. if \<not> r_Banished (g b) \<and> up g l b = a then \<mu> (g b) else 0)"

definition own_coins :: "info \<Rightarrow> int" where "own_coins v = coins_at v 0"
definition own_delegated :: "info \<Rightarrow> int" where "own_delegated v = delegated_at v 0"

definition sums_of :: "(string \<Rightarrow> info) \<Rightarrow> string set \<Rightarrow> bool" where
  "sums_of g D \<longleftrightarrow> (\<forall>a l. a \<noteq> [] \<longrightarrow> 1 \<le> l \<longrightarrow> l \<le> 10 \<longrightarrow>
     coins_at (g a) l = level_sum own_coins g D a l \<and> delegated_at (g a) l = level_sum own_delegated g D a l)"

text \<open>
  The tree of the store: finitely many records; an absent account is nobody's referrer, and
  every amount of the levels one to ten is the sum over that level.
\<close>

definition tree_sums :: "'s ref_ctx_scheme \<Rightarrow> bool" where
  "tree_sums s \<longleftrightarrow> finite (dom (ref_store s)) \<and> sums_of (\<lambda>a. ref_Get a s) (dom (ref_store s))
     \<and> (\<forall>b. r_Referrer (ref_Get b s) = [] \<or> r_Referrer (ref_Get b s) \<in> dom (ref_store s))"

lemma level_sum_more:
  assumes "finite D'" "D \<subseteq> D'" "\<And>b. b \<in> D' - D \<Longrightarrow> \<mu> (g b) = 0"
  shows "level_sum \<mu> g D' a l = level_sum \<mu> g D a l"
  unfolding level_sum_def
  by (rule sum.mono_neutral_right) (use assms in auto)

lemma level_sum_cong:
  assumes "\<And>b. b \<in> D \<Longrightarrow> \<mu> (h b) = \<mu> (g b)" "\<And>b. r_Banished (h b) = r_Banished (g b)"
    "\<And>b. r_Referrer (h b) = r_Referrer (g b)"
  shows "level_sum \<mu> h D a l = level_sum \<mu> g D a l"
proof -
  have "up h l b = up g l b" for b using assms(3) by (rule up_cong)
  then show ?thesis unfolding level_sum_def using assms(1,2) by (intro sum.cong) auto
qed

text \<open>Changing what one account counts for.\<close>

lemma level_sum_change:
  assumes "finite D" "c \<in> D" "\<And>b. b \<noteq> c \<Longrightarrow> r_Banished (h b) = r_Banished (g b) \<and> \<mu> (h b) = \<mu> (g b)"
    "\<And>b. r_Referrer (h b) = r_Referrer (g b)"
  shows "level_sum \<mu> h D a l = level_sum \<mu> g D a l
    + (if up g l c = a then (if r_Banished (h c) then 0 else \<mu> (h c)) - (if r_Banished (g c) then 0 else \<mu> (g c)) else 0)"
proof -
  have u: "up h l b = up g l b" for b using assms(4) by (rule up_cong)
  have r: "(\<Sum>b\<in>D - {c}. if \<not> r_Banished (h b) \<and> up h l b = a then \<mu> (h b) else 0)
      = (\<Sum>b\<in>D - {c}. if \<not> r_Banished (g b) \<and> up g l b = a then \<mu> (g b) else 0)"
    by (rule sum.cong) (auto simp: u assms(3))
  show ?thesis
    unfolding level_sum_def sum.remove[OF assms(1,2)] r by (simp add: u)
qed

lemma sums_ofD:
  assumes "sums_of g D" "a \<noteq> []" "1 \<le> l" "l \<le> 10"
  shows "coins_at (g a) l = level_sum own_coins g D a l" "delegated_at (g a) l = level_sum own_delegated g D a l"
  using assms by (auto simp: sums_of_def)

lemma absent_own:
  "a \<notin> dom (ref_store s) \<Longrightarrow> own_coins (ref_Get a s) = 0 \<and> own_delegated (ref_Get a s) = 0"
  by (simp add: domIff ref_Get_def own_coins_def own_delegated_def coins_at_def delegated_at_def
      level_at_def zero_info_def)

section \<open>Errors that are not the missing account\<close>

text \<open>
  \<open>OnBalanceChanged\<close> takes one error, the missing account, for a success; no step after the
  test for it ends with that error.
\<close>

definition clean_res :: "'a res \<Rightarrow> bool" where
  "clean_res r \<longleftrightarrow> r \<noteq> Err ref_ErrNotFound \<and> r \<noteq> Panic ref_ErrNotFound"

abbreviation clean :: "'a res \<times> 's \<Rightarrow> bool" where "clean r \<equiv> clean_res (fst r)"

lemma clean_Ok [simp]: "clean_res (Ok v)"
  by (simp add: clean_res_def)

lemma clean_Text [simp]:
  "clean_res (Err (Text m))" "clean_res (Panic (Text m))" "clean_res (Panic index_out_of_range)"
  "clean_res (Panic nil_deref)"
  by (simp_all add: clean_res_def ref_ErrNotFound_def index_out_of_range_def nil_deref_def)

lemma clean_and_then:
  "clean r \<Longrightarrow> (\<And>v st. r = (Ok v, st) \<Longrightarrow> clean (f v st)) \<Longrightarrow> clean (and_then r f)"
  by (cases r; cases "fst r") (auto simp: clean_res_def)

lemma clean_bind:
  "clean_res r \<Longrightarrow> (\<And>v. r = Ok v \<Longrightarrow> clean_res (f v)) \<Longrightarrow> clean_res (bind_res r f)"
  by (cases r) (auto simp: clean_res_def)

lemma clean_recover: "clean r \<Longrightarrow> clean (recover_err r)"
  by (cases r; cases "fst r") (auto simp: clean_res_def)

lemma clean_lift [simp]: "clean (lift_res r st) = clean_res r"
  by (simp add: lift_res_def)

lemma clean_on_ctx [simp]: "clean (on_ctx f st) = clean (f (fst st))"
  by (simp add: on_ctx_def)

lemma clean_Int64 [simp]: "clean_res (Int64 x)" "clean_res (Uint64 x)"
  by (simp_all add: Int64_def Uint64_def)

lemma clean_Key [simp]: "clean_res (Key t)"
  by (simp add: Key_def)

lemma clean_nth [simp]: "clean_res (nth_res xs i)" "clean_res (sum_upto is j)"
  by (simp_all add: nth_res_def sum_upto_def)

lemma clean_sched [simp]: "clean (ScheduleTask t e d s)" "clean (Delete t e d s)"
  by (auto simp: ScheduleTask_def scheduleTask_def Delete_def sched_delete_def Let_def
      intro!: clean_and_then split: option.split)

lemma clean_scheduleBanishment [simp]: "clean (scheduleBanishment acc v s)"
  by (auto simp: scheduleBanishment_def Let_def intro!: clean_and_then)

lemma clean_coins_criterion [simp]: "clean_res (coins_criterion v l c)"
  by (auto simp: coins_criterion_def DelegatedAtLevelsUpTo_def Let_def intro!: clean_bind)

lemma clean_count_wide [simp]: "clean_res (count_wide g n m xs a)"
  by (induction xs arbitrary: a) (auto intro!: clean_bind)

lemma clean_count_teams [simp]: "clean_res (count_teams g leg xs a m x xm)"
  by (induction xs arbitrary: a m x xm) (auto simp: Let_def intro!: clean_bind)

lemma clean_XByX [simp]: "clean_res (statusRequirementsXByX v g l c n m)"
  by (auto simp: statusRequirementsXByX_def Let_def intro!: clean_bind)

lemma clean_Core [simp]: "clean_res (statusRequirementsCore v g l c leg)"
  by (auto simp: statusRequirementsCore_def Let_def intro!: clean_bind)

lemma clean_check [simp]: "clean_res (checkStatusRequirements x v g)"
  by (simp add: checkStatusRequirements_def statusRequirements_def)

lemma clean_climb [simp]: "clean_res (climb_status n x v g)"
  by (induction n arbitrary: x) (auto simp: Let_def intro!: clean_bind)

lemma clean_status_update [simp]: "clean (status_update a v st)"
  by (auto simp: status_update_def Let_def downgrade_later_def upgrade_now_def promote_def intro!: clean_and_then)

lemma clean_bu_update:
  assumes "clean (cb (Normalize (bu_get st acc)) st)"
  shows "clean (bu_update acc check cb st)"
  unfolding bu_update_def by (rule clean_recover) (auto intro!: clean_and_then assms)

section \<open>A changed balance\<close>

lemma quiet_on_ctx_Ok:
  assumes "on_ctx f st = (Ok x, st')" "\<And>s. ref_store (snd (f s)) = ref_store s"
  shows "quiet st st'" "\<exists>s'. f (fst st) = (Ok x, s') \<and> fst st' = s'"
proof -
  have "st' = snd (on_ctx f st)" using assms(1) by simp
  then show "quiet st st'" using quiet_on_ctx[of f st] assms(2) by simp
  show "\<exists>s'. f (fst st) = (Ok x, s') \<and> fst st' = s'"
    using assms(1) by (auto simp: on_ctx_def prod_eq_iff)
qed

lemma lift_res_Ok: "and_then (lift_res r st) f = (Ok w, st') \<longleftrightarrow> (\<exists>v. r = Ok v \<and> f v st = (Ok w, st'))"
  by (auto simp: lift_res_def and_then_Ok_iff)

lemma scheduleBanishment_Ok:
  assumes "on_ctx (scheduleBanishment acc v) st = (Ok w, st')"
  shows "(\<exists>t. w = v\<lparr>r_BanishmentAt := t\<rparr>) \<and> quiet st st'"
proof -
  have st: "ref_store (snd (scheduleBanishment acc v s)) = ref_store s" for s :: "'a ref_ctx_scheme"
    unfolding scheduleBanishment_def Let_def by (rule keeps_and_then) simp_all
  have "quiet st st'" by (rule quiet_on_ctx_Ok(1)[OF assms st])
  moreover obtain s' where "scheduleBanishment acc v (fst st) = (Ok w, s')"
    using quiet_on_ctx_Ok(2)[OF assms st] by blast
  then have "\<exists>t. w = v\<lparr>r_BanishmentAt := t\<rparr>"
    by (auto simp: scheduleBanishment_def Let_def and_then_Ok_iff)
  ultimately show ?thesis by simp
qed

lemma cancel_banishment_Ok:
  assumes "(case r_BanishmentAt value of
              None \<Rightarrow> (Ok value, st)
            | Some t \<Rightarrow> and_then (on_ctx (Delete t BanishHookName acc) st)
                (\<lambda>_ st. (Ok (value\<lparr>r_BanishmentAt := None\<rparr>), st))) = (Ok v, st')"
  shows "v = value\<lparr>r_BanishmentAt := None\<rparr> \<and> quiet st st'"
proof (cases "r_BanishmentAt value")
  case None
  then show ?thesis using assms by auto
next
  case (Some t)
  then obtain x where d: "on_ctx (Delete t BanishHookName acc) st = (Ok x, st')"
    and v: "v = value\<lparr>r_BanishmentAt := None\<rparr>"
    using assms by (auto simp: and_then_Ok_iff)
  show ?thesis using quiet_on_ctx_Ok(1)[OF d Delete_ref_store] v by simp
qed

lemma banishment_id: "\<exists>t. v = v\<lparr>r_BanishmentAt := t\<rparr>"
  by (rule exI[of _ "r_BanishmentAt v"]) simp

lemma obc_stake_Ok:
  assumes "obc_stake k acc nd value st = (Ok v, st')" "\<not> r_Banished value"
  shows "(\<exists>t. v = value\<lparr>r_BanishmentAt := t\<rparr>) \<and> quiet st st'"
proof (cases "r_Active value")
  case False
  define dust where "dust = (nd \<le> DustDelegation (bank_GetParams (fst st)))"
  define plan where "plan = (r_Referrer value \<noteq> [] \<and> \<not> r_Banished value \<and> r_BanishmentAt value = None
    \<and> (case r_CompressionAt value of None \<Rightarrow> True | Some c \<Rightarrow> block_time (fst st) > c))"
  define lift where "lift = (case r_BanishmentAt value of
              None \<Rightarrow> (Ok value, st)
            | Some t \<Rightarrow> and_then (on_ctx (Delete t BanishHookName acc) st)
                (\<lambda>_ st. (Ok (value\<lparr>r_BanishmentAt := None\<rparr>), st)))"
  have r: "(if dust then (if plan then on_ctx (scheduleBanishment acc value) st else (Ok value, st))
      else and_then lift (\<lambda>value st. if r_Banished value then obc_come_back k acc value st else (Ok value, st)))
      = (Ok v, st')"
  proof -
    have "\<exists>n. Int64 nd = Ok n \<and> (if n \<le> DustDelegation (bank_GetParams (fst st))
        then (if plan then on_ctx (scheduleBanishment acc value) st else (Ok value, st))
        else and_then lift (\<lambda>value st. if r_Banished value then obc_come_back k acc value st else (Ok value, st)))
        = (Ok v, st')"
      using assms(1) unfolding obc_stake_def if_not_P[OF False] lift_res_Ok plan_def lift_def .
    then show ?thesis by (auto simp: dust_def)
  qed
  show ?thesis
  proof (cases dust)
    case True
    show ?thesis
    proof (cases plan)
      case True
      then have "on_ctx (scheduleBanishment acc value) st = (Ok v, st')" using r \<open>dust\<close> by simp
      then show ?thesis by (rule scheduleBanishment_Ok)
    next
      case False
      then have "v = value" "st' = st" using r \<open>dust\<close> by auto
      then show ?thesis using banishment_id by simp
    qed
  next
    case False
    then obtain w st1 where l: "lift = (Ok w, st1)"
      and e: "(if r_Banished w then obc_come_back k acc w st1 else (Ok w, st1)) = (Ok v, st')"
      using r unfolding if_not_P[OF False] and_then_Ok_iff by blast
    have w: "w = value\<lparr>r_BanishmentAt := None\<rparr> \<and> quiet st st1"
      using l unfolding lift_def by (rule cancel_banishment_Ok)
    then have "v = w \<and> st' = st1" using e assms(2) by auto
    with w show ?thesis by blast
  qed
next
  case True
  then have "v = value" "st' = st" using assms(1) by (auto simp: obc_stake_def)
  then show ?thesis using banishment_id by simp
qed

lemma obc_self_Ok:
  assumes "obc_self k acc value st = (Ok ((rf, bn, dc, dd), v), st')" "\<not> r_Banished value"
    "getBalance k acc (fst st) = Ok b" "getDelegated k acc (fst st) = Ok d"
  shows "rf = r_Referrer value" "\<not> bn" "dc = b - r_Coins value ! 0" "dd = d - r_Delegated value ! 0"
    "\<exists>t. v = value\<lparr>r_BanishmentAt := t, r_Coins := (r_Coins value)[0 := b], r_Delegated := (r_Delegated value)[0 := d]\<rparr>"
    "quiet st st'"
proof -
  define dd' where "dd' = d - r_Delegated value ! 0"
  have ne: "\<not> IsEmpty value" using assms(1) by (auto simp: obc_self_def)
  have "and_then (if dd' = 0 then (Ok value, st)
      else obc_stake k acc d value (addCallback StakeChangedCallback acc st)) (\<lambda>v st.
        (Ok ((r_Referrer v, r_Banished v, b - r_Coins value ! 0, dd'),
             v\<lparr>r_Coins := (r_Coins v)[0 := b], r_Delegated := (r_Delegated v)[0 := d]\<rparr>), st))
      = (Ok ((rf, bn, dc, dd), v), st')"
    using assms(1) unfolding obc_self_def if_not_P[OF ne] Let_def lift_res_Ok assms(3,4) dd'_def
    by (simp only: res.inject simp_thms)
  then obtain w where r: "(if dd' = 0 then (Ok value, st)
      else obc_stake k acc d value (addCallback StakeChangedCallback acc st)) = (Ok w, st')"
    and e: "rf = r_Referrer w" "bn = r_Banished w" "dc = b - r_Coins value ! 0" "dd = dd'"
      "v = w\<lparr>r_Coins := (r_Coins w)[0 := b], r_Delegated := (r_Delegated w)[0 := d]\<rparr>"
    unfolding and_then_Ok_iff by auto
  have "(\<exists>t. w = value\<lparr>r_BanishmentAt := t\<rparr>) \<and> quiet st st'"
  proof (cases "dd' = 0")
    case False
    then have o: "obc_stake k acc d value (addCallback StakeChangedCallback acc st) = (Ok w, st')" using r by simp
    have "quiet st (addCallback StakeChangedCallback acc st)" by simp
    then show ?thesis using obc_stake_Ok[OF o assms(2)] quiet_trans by blast
  next
    case True
    then have "w = value" "st' = st" using r by auto
    then show ?thesis using banishment_id by simp
  qed
  then obtain t where w: "w = value\<lparr>r_BanishmentAt := t\<rparr>" and q: "quiet st st'" by blast
  show "rf = r_Referrer value" "\<not> bn" "dc = b - r_Coins value ! 0" "dd = d - r_Delegated value ! 0"
    "quiet st st'"
    using e assms(2) q by (simp_all add: w dd'_def)
  show "\<exists>t. v = value\<lparr>r_BanishmentAt := t, r_Coins := (r_Coins value)[0 := b],
      r_Delegated := (r_Delegated value)[0 := d]\<rparr>"
    unfolding e(5) w by (intro exI[of _ t]) simp
qed

text \<open>The level-zero amounts of a normalised record.\<close>

lemma own_Normalize: "r_Coins (Normalize v) ! 0 = coins_at v 0" "r_Delegated (Normalize v) ! 0 = delegated_at v 0"
  by (auto simp: Normalize_def coins_at_def delegated_at_def level_at_def pad_def nth_append)

lemma level_at_set0: "xs \<noteq> [] \<Longrightarrow> level_at (xs[0 := x]) j = (if j = 0 then x else level_at xs j)"
  by (auto simp: level_at_def nth_list_update)

lemma Normalize_nonempty: "r_Coins (Normalize v) \<noteq> []" "r_Delegated (Normalize v) \<noteq> []"
  by (simp_all add: Normalize_def pad_def)

context tree_callbacks
begin

text \<open>
  A change of the balance of an account in the tree: its own amounts are the new ones, and
  at each of the ten levels the ancestor there gains the difference.
\<close>

lemma OnBalanceChanged_Ok:
  assumes ok: "OnBalanceChanged k acc s = (Ok (), s')" and acc: "acc \<noteq> []"
    and nb: "\<not> r_Banished (ref_Get acc s)"
    and b: "getBalance k acc s = Ok b" and d: "getDelegated k acc s = Ok d"
    and nf: "\<And>st. bu_update acc True (obc_self k acc) (s, newBunchUpdater) \<noteq> (Err ref_ErrNotFound, st)"
  defines "dc \<equiv> b - coins_at (ref_Get acc s) 0" and "dd \<equiv> d - delegated_at (ref_Get acc s) 0"
    and "gain \<equiv> \<lambda>a j. j = 0 \<and> a = acc \<or> j \<noteq> 0 \<and> hits (\<lambda>a. ref_Get a s) 0 11 acc a j"
  shows "(\<exists>m. finite (dom m) \<and> ref_store s' = ref_store s ++ m)
    \<and> (\<forall>a. r_Referrer (ref_Get a s') = r_Referrer (ref_Get a s) \<and> r_Banished (ref_Get a s') = r_Banished (ref_Get a s)
        \<and> r_Referrals (ref_Get a s') = r_Referrals (ref_Get a s)
        \<and> (\<forall>j. coins_at (ref_Get a s') j = coins_at (ref_Get a s) j + (if gain a j then dc else 0))
        \<and> (\<forall>j. delegated_at (ref_Get a s') j = delegated_at (ref_Get a s) j + (if gain a j then dd else 0)))"
proof -
  let ?g = "\<lambda>a. ref_Get a s" and ?st = "(s, newBunchUpdater)"
  obtain rf bn c' d' st1 where u: "bu_update acc True (obc_self k acc) ?st = (Ok (rf, bn, c', d'), st1)"
    and c: "commit_after k (if bn then (Ok (), st1) else credit_levels (d' \<noteq> 0) c' d' [1..<11] rf st1) = (Ok (), s')"
    using ok nf unfolding OnBalanceChanged_def by (auto split: res_splits if_splits)
  obtain w v t1 where o: "obc_self k acc (Normalize (bu_get ?st acc)) ?st = (Ok ((rf, bn, c', d'), w), t1)"
    and wv: "same_tree w v" and g1: "bu_get st1 = (bu_get t1)(acc := v)" and i1: "bu_inv t1 \<Longrightarrow> bu_inv st1"
    and s1: "ref_store (fst st1) = ref_store (fst t1)"
    using bu_update_Ok[OF u] by metis
  let ?n = "Normalize (?g acc)"
  have o': "obc_self k acc ?n ?st = (Ok ((rf, bn, c', d'), w), t1)" using o by (simp add: bu_get_new)
  have nb': "\<not> r_Banished ?n" "getBalance k acc (fst ?st) = Ok b" "getDelegated k acc (fst ?st) = Ok d"
    using nb b d by simp_all
  note f = obc_self_Ok[OF o' nb']
  have q: "bu_get t1 = ?g" "bu_inv t1" "ref_store (fst t1) = ref_store s"
    using f(6) quiet_get[OF f(6)] by (simp_all add: bu_get_new quiet_def tree_view_def)
  obtain t where w: "w = ?n\<lparr>r_BanishmentAt := t, r_Coins := (r_Coins ?n)[0 := b], r_Delegated := (r_Delegated ?n)[0 := d]\<rparr>"
    using f(5) by blast
  have v: "r_Referrer v = r_Referrer (?g acc)" "r_Banished v = r_Banished (?g acc)" "r_Referrals v = r_Referrals (?g acc)"
    using same_treeD[OF wv] by (simp_all add: w)
  have vc: "coins_at v j = (if j = 0 then b else coins_at (?g acc) j)"
    "delegated_at v j = (if j = 0 then d else delegated_at (?g acc) j)" for j
    using level_at_set0[OF Normalize_nonempty(1), of "?g acc" b j] level_at_set0[OF Normalize_nonempty(2), of "?g acc" d j]
      measures_norm[of "?g acc"] measures_same[OF wv]
    by (simp_all add: w coins_at_def delegated_at_def)
  have dcd: "c' = dc" "d' = dd" "rf = r_Referrer (?g acc)" "\<not> bn"
    using f(1-4) own_Normalize[of "?g acc"] by (simp_all add: dc_def dd_def)
  have g1': "bu_get st1 = ?g(acc := v)" using g1 q by simp
  have up1: "up (bu_get st1) n a = up ?g n a" for n a
    by (rule up_cong) (simp add: g1' v)
  define st2 where "st2 = snd (credit_levels (dd \<noteq> 0) dc dd [1..<11] rf st1)"
  have c': "commit_after k (credit_levels (dd \<noteq> 0) dc dd [1..<11] rf st1) = (Ok (), s')"
    using c dcd by simp
  have cl: "credit_levels (dd \<noteq> 0) dc dd [1..<11] rf st1 = (Ok (), st2)"
    using commit_after_fst[OF c'] by (simp add: st2_def)
  have l: "(1::nat) \<le> 1" "(11::nat) \<le> 11" by simp_all
  note cs = credit_levels_spec[OF cl l]
  have i2: "bu_inv st2" using cs i1 q(2) by simp
  note fin = commit_after_Ok(2,3)[OF c'[unfolded cl] i2]
  have store: "ref_store s' = ref_store s ++ map_of (bu_data (snd st2))"
    using fin(1) cs s1 q(3) by simp
  have hit: "hits (bu_get st1) 1 11 rf a j = (j \<noteq> 0 \<and> hits ?g 0 11 acc a j)" for a j
  proof (cases j)
    case (Suc m)
    then show ?thesis using acc up1 by (simp add: hits_def dcd)
  qed (simp add: hits_def)
  have "r_Referrer (ref_Get a s') = r_Referrer (?g a) \<and> r_Banished (ref_Get a s') = r_Banished (?g a)
      \<and> r_Referrals (ref_Get a s') = r_Referrals (?g a)" for a
    using cs fin(2) v by (simp add: place_def g1')
  moreover have "coins_at (ref_Get a s') j = coins_at (?g a) j + (if gain a j then dc else 0)"
    "delegated_at (ref_Get a s') j = delegated_at (?g a) j + (if gain a j then dd else 0)" for a j
  proof -
    have "coins_at (ref_Get a s') j = coins_at (bu_get st1 a) j + (if j \<noteq> 0 \<and> hits ?g 0 11 acc a j then dc else 0)"
      "delegated_at (ref_Get a s') j = delegated_at (bu_get st1 a) j + (if j \<noteq> 0 \<and> hits ?g 0 11 acc a j then dd else 0)"
      using cs fin(2) unfolding hit by simp_all
    then show "coins_at (ref_Get a s') j = coins_at (?g a) j + (if gain a j then dc else 0)"
      "delegated_at (ref_Get a s') j = delegated_at (?g a) j + (if gain a j then dd else 0)"
      unfolding g1' gain_def dc_def dd_def by (simp_all add: vc)
  qed
  moreover have "\<exists>m. finite (dom m) \<and> ref_store s' = ref_store s ++ m"
    using store finite_dom_map_of by blast
  ultimately show ?thesis by simp
qed

end

section \<open>Operations that keep the sums\<close>

lemma clean_obc_stake:
  assumes "\<not> r_Banished v"
  shows "clean (obc_stake k acc nd v st)"
proof -
  have "\<not> r_Banished w" if "(case r_BanishmentAt v of
              None \<Rightarrow> (Ok v, st)
            | Some t \<Rightarrow> and_then (on_ctx (Delete t BanishHookName acc) st)
                (\<lambda>_ st. (Ok (v\<lparr>r_BanishmentAt := None\<rparr>), st))) = (Ok w, st1)" for w st and st1 :: "'a bu_st"
    using cancel_banishment_Ok[OF that] assms by simp
  then show ?thesis
    unfolding obc_stake_def
    by (auto intro!: clean_and_then split: option.split)
qed

lemma clean_obc_self:
  assumes "\<not> IsEmpty v" "\<not> r_Banished v" "getBalance k acc (fst st) = Ok b" "getDelegated k acc (fst st) = Ok d"
  shows "clean (obc_self k acc v st)"
  using assms by (auto simp: obc_self_def Let_def lift_res_def intro!: clean_and_then clean_obc_stake)

lemma not_empty_Normalize [simp]: "IsEmpty (Normalize v) = IsEmpty v"
  by (simp add: IsEmpty_def)

lemma obc_update_found:
  assumes "\<not> IsEmpty (ref_Get acc s)" "\<not> r_Banished (ref_Get acc s)"
    "getBalance k acc s = Ok b" "getDelegated k acc s = Ok d"
  shows "bu_update acc True (obc_self k acc) (s, newBunchUpdater) \<noteq> (Err ref_ErrNotFound, st)"
proof -
  have "clean (bu_update acc True (obc_self k acc) (s, newBunchUpdater))"
    by (rule clean_bu_update, rule clean_obc_self) (use assms in \<open>simp_all add: bu_get_new\<close>)
  then show ?thesis by (auto simp: clean_res_def)
qed

text \<open>What an account counts for at the levels above it.\<close>

definition counted :: "(info \<Rightarrow> int) \<Rightarrow> info \<Rightarrow> int" where
  "counted \<mu> v = (if r_Banished v then 0 else \<mu> v)"

text \<open>
  A step that changes what one account counts for and gives its ancestors at the ten levels
  the difference keeps the sums; records may come into being on the way.
\<close>

lemma sums_shift:
  assumes sums: "sums_of g D" and fin: "finite D'" "D \<subseteq> D'" and acc: "acc \<in> D'"
    and out: "\<And>a. a \<notin> D \<Longrightarrow> own_coins (g a) = 0 \<and> own_delegated (g a) = 0"
    and keep: "\<And>a. r_Referrer (h a) = r_Referrer (g a)"
      "\<And>a. a \<noteq> acc \<Longrightarrow> r_Banished (h a) = r_Banished (g a) \<and> own_coins (h a) = own_coins (g a)
        \<and> own_delegated (h a) = own_delegated (g a)"
    and c: "c = counted own_coins (h acc) - counted own_coins (g acc)"
    and d: "d = counted own_delegated (h acc) - counted own_delegated (g acc)"
    and co: "\<And>a j. 1 \<le> j \<Longrightarrow> coins_at (h a) j = coins_at (g a) j + (if hits g 0 11 acc a j then c else 0)"
    and de: "\<And>a j. 1 \<le> j \<Longrightarrow> delegated_at (h a) j = delegated_at (g a) j + (if hits g 0 11 acc a j then d else 0)"
  shows "sums_of h D'"
  unfolding sums_of_def
proof (intro allI impI)
  fix a :: string and l :: nat
  assume a: "a \<noteq> []" and l: "1 \<le> l" "l \<le> 10"
  have b: "b \<noteq> acc \<Longrightarrow> r_Banished (h b) = r_Banished (g b) \<and> own_coins (h b) = own_coins (g b)"
    "b \<noteq> acc \<Longrightarrow> r_Banished (h b) = r_Banished (g b) \<and> own_delegated (h b) = own_delegated (g b)" for b
    using keep(2)[of b] by auto
  have h: "hits g 0 11 acc a l \<longleftrightarrow> up g l acc = a" using a l by (auto simp: hits_def)
  have "level_sum own_coins h D' a l = level_sum own_coins g D a l + (if up g l acc = a then c else 0)"
    using level_sum_change[OF fin(1) acc b(1) keep(1), where a = a and l = l]
      level_sum_more[OF fin, where \<mu> = own_coins and g = g and a = a and l = l] out
    by (simp add: c counted_def)
  moreover have "level_sum own_delegated h D' a l = level_sum own_delegated g D a l + (if up g l acc = a then d else 0)"
    using level_sum_change[OF fin(1) acc b(2) keep(1), where a = a and l = l]
      level_sum_more[OF fin, where \<mu> = own_delegated and g = g and a = a and l = l] out
    by (simp add: d counted_def)
  ultimately show "coins_at (h a) l = level_sum own_coins h D' a l
      \<and> delegated_at (h a) l = level_sum own_delegated h D' a l"
    using sums_ofD[OF sums a l] co[OF l(1), of a] de[OF l(1), of a] h by simp
qed

text \<open>The tree after such a step, from the store it leaves.\<close>

lemma tree_sums_shift:
  assumes s: "tree_sums s" and m: "finite (dom m)" "ref_store s' = ref_store s ++ m"
    and acc: "acc \<in> dom (ref_store s)"
    and keep: "\<And>a. r_Referrer (ref_Get a s') = r_Referrer (ref_Get a s)"
      "\<And>a. a \<noteq> acc \<Longrightarrow> r_Banished (ref_Get a s') = r_Banished (ref_Get a s)
        \<and> own_coins (ref_Get a s') = own_coins (ref_Get a s) \<and> own_delegated (ref_Get a s') = own_delegated (ref_Get a s)"
    and c: "c = counted own_coins (ref_Get acc s') - counted own_coins (ref_Get acc s)"
    and d: "d = counted own_delegated (ref_Get acc s') - counted own_delegated (ref_Get acc s)"
    and co: "\<And>a j. 1 \<le> j \<Longrightarrow> coins_at (ref_Get a s') j = coins_at (ref_Get a s) j
      + (if hits (\<lambda>a. ref_Get a s) 0 11 acc a j then c else 0)"
    and de: "\<And>a j. 1 \<le> j \<Longrightarrow> delegated_at (ref_Get a s') j = delegated_at (ref_Get a s) j
      + (if hits (\<lambda>a. ref_Get a s) 0 11 acc a j then d else 0)"
  shows "tree_sums s'"
proof -
  have f: "finite (dom (ref_store s'))" "dom (ref_store s) \<subseteq> dom (ref_store s')"
    using s m by (auto simp: tree_sums_def)
  have su: "sums_of (\<lambda>a. ref_Get a s) (dom (ref_store s))" using s by (simp add: tree_sums_def)
  have acc': "acc \<in> dom (ref_store s')" using acc f(2) by blast
  have "sums_of (\<lambda>a. ref_Get a s') (dom (ref_store s'))"
    by (rule sums_shift[OF su f acc' absent_own keep c d co de])
  moreover have "r_Referrer (ref_Get b s') = [] \<or> r_Referrer (ref_Get b s') \<in> dom (ref_store s')" for b
    using s f(2) keep(1)[of b] unfolding tree_sums_def by (metis subsetD)
  ultimately show ?thesis using f(1) by (simp add: tree_sums_def)
qed

lemma found_in_store: "\<not> IsEmpty (ref_Get acc s) \<Longrightarrow> acc \<in> dom (ref_store s)"
  by (auto simp: domIff ref_Get_def IsEmpty_def zero_info_def STATUS_UNSPECIFIED_def split: option.splits)

context tree_callbacks
begin

lemma OnBalanceChanged_sums:
  assumes "OnBalanceChanged k acc s = (Ok (), s')" "acc \<noteq> []" "tree_sums s"
    "\<not> IsEmpty (ref_Get acc s)" "\<not> r_Banished (ref_Get acc s)"
    "getBalance k acc s = Ok b" "getDelegated k acc s = Ok d"
  shows "tree_sums s' \<and> coins_at (ref_Get acc s') 0 = b \<and> delegated_at (ref_Get acc s') 0 = d"
proof -
  note ob = OnBalanceChanged_Ok[OF assms(1,2,5,6,7) obc_update_found[OF assms(4,5,6,7)]]
  obtain m where m: "finite (dom m)" "ref_store s' = ref_store s ++ m" using ob by blast
  have own: "coins_at (ref_Get acc s') 0 = b \<and> delegated_at (ref_Get acc s') 0 = d" using ob by simp
  have "tree_sums s'"
    by (rule tree_sums_shift[OF assms(3) m found_in_store[OF assms(4)],
          where c = "b - coins_at (ref_Get acc s) 0" and d = "d - delegated_at (ref_Get acc s) 0"])
      (use ob own assms(5) in \<open>auto simp: counted_def own_coins_def own_delegated_def\<close>)
  with own show ?thesis by simp
qed

end

end
