(* ===== verification/Referral_Moves.thy ===== *)
theory Referral_Moves
  imports Referral_Sums
begin

text \<open>
  Joining and leaving the tree: a new child, a banishment and a transition keep the amounts
  of the levels sums over the descendants.
\<close>

section \<open>Steps\<close>

text \<open>An update whose callback always succeeds.\<close>

lemma bu_update_pure:
  assumes "bu_update p check (\<lambda>value st. (Ok (X value st, f value), nt st)) st = (Ok x, st')"
    and "\<And>st. quiet st (nt st)"
  obtains v where "x = X (Normalize (bu_get st p)) st" "same_tree (f (Normalize (bu_get st p))) v"
    "bu_get st' = (bu_get st)(p := v)" "bu_inv st \<Longrightarrow> bu_inv st'"
    "ref_store (fst st') = ref_store (fst st)"
proof -
  obtain w v t1 where cb: "(Ok (X (Normalize (bu_get st p)) st, f (Normalize (bu_get st p))), nt st) = (Ok (x, w), t1)"
    and st1: "same_tree w v" "bu_get st' = (bu_get t1)(p := v)" "bu_inv t1 \<Longrightarrow> bu_inv st'"
    "ref_store (fst st') = ref_store (fst t1)"
    using bu_update_Ok[OF assms(1)] by metis
  have q: "quiet st t1" using cb assms(2)[of st] by simp
  have "x = X (Normalize (bu_get st p)) st" "w = f (Normalize (bu_get st p))" using cb by auto
  then show ?thesis
    using that st1 q quiet_get[OF q] by (simp add: quiet_def tree_view_def)
qed

lemma hits_here: "hits g i n p a i \<longleftrightarrow> i < n \<and> a \<noteq> [] \<and> p = a"
  by (auto simp: hits_def)

lemma hits_above:
  assumes "p \<noteq> []" "i < j"
  shows "hits g i n p a j \<longleftrightarrow> hits g (Suc i) n (r_Referrer (g p)) a j"
proof -
  have "j - i = Suc (j - Suc i)" using assms(2) by simp
  then show ?thesis using assms by (simp add: hits_def)
qed

lemma hits_cong:
  "(\<And>a. r_Referrer (g a) = r_Referrer (h a)) \<Longrightarrow> hits g i n p a j = hits h i n p a j"
  by (simp add: hits_def up_cong[of g h])

lemma hits_nil [simp]: "\<not> hits g i n [] a j"
  by (auto simp: hits_def)

lemma credit_at:
  assumes "1 \<le> l" "l \<le> 10"
  shows "coins_at (credit l c d (Normalize v)) j = coins_at v j + (if j = l then c else 0)"
    "delegated_at (credit l c d (Normalize v)) j = delegated_at v j + (if j = l then d else 0)"
  using coins_credit.measure_step[OF assms] delegated_credit.measure_step[OF assms] by simp_all

section \<open>A new child\<close>

lemma NewInfo_sel:
  "r_Referrer (NewInfo p c d) = p" "r_Banished (NewInfo p c d) = False"
  "coins_at (NewInfo p c d) j = (if j = 0 then c else 0)"
  "delegated_at (NewInfo p c d) j = (if j = 0 then d else 0)"
  "r_Referrals (NewInfo p c d) = []" "r_Status (NewInfo p c d) = STATUS_LUCKY"
  by (auto simp: NewInfo_def zero_info_def coins_at_def delegated_at_def level_at_def nth_Cons split: nat.split)

text \<open>A place for an account nobody is below changes no walk but its own.\<close>

lemma up_join:
  assumes "\<And>b. r_Referrer (g b) \<noteq> n" "b \<noteq> n"
  shows "up (g(n := v)) l b = up g l b"
  using assms(2) by (induction l arbitrary: b) (use assms(1) in auto)

lemma up_avoids:
  assumes "\<And>b. r_Referrer (g b) \<noteq> n" "n \<noteq> []" "b \<noteq> n"
  shows "up g l b \<noteq> n"
  using assms(3) by (induction l arbitrary: b) (use assms(1,2) in auto)

lemma sums_join:
  assumes sums: "sums_of g D" and n: "n \<notin> D" "n \<noteq> []" "\<And>b. r_Referrer (g b) \<noteq> n"
    and v: "\<And>j. 1 \<le> j \<Longrightarrow> coins_at v j = 0 \<and> delegated_at v j = 0"
  shows "sums_of (g(n := v)) D"
  unfolding sums_of_def
proof (intro allI impI)
  fix a :: string and l :: nat
  assume a: "a \<noteq> []" and l: "1 \<le> l" "l \<le> 10"
  have e: "level_sum \<mu> (g(n := v)) D a l = level_sum \<mu> g D a l" for \<mu>
    unfolding level_sum_def
  proof (rule sum.cong)
    fix b assume "b \<in> D"
    then have "b \<noteq> n" using n(1) by auto
    then show "(if \<not> r_Banished ((g(n := v)) b) \<and> up (g(n := v)) l b = a then \<mu> ((g(n := v)) b) else 0) =
        (if \<not> r_Banished (g b) \<and> up g l b = a then \<mu> (g b) else 0)"
      using up_join[where g = g, OF n(3)] by simp
  qed simp
  have z: "level_sum \<mu> g D n l = 0" for \<mu>
    unfolding level_sum_def
  proof (rule sum.neutral, rule ballI)
    fix b assume "b \<in> D"
    then have "b \<noteq> n" using n(1) by auto
    then show "(if \<not> r_Banished (g b) \<and> up g l b = n then \<mu> (g b) else 0) = 0"
      using up_avoids[where g = g, OF n(3) n(2)] by simp
  qed
  show "coins_at ((g(n := v)) a) l = level_sum own_coins (g(n := v)) D a l \<and>
      delegated_at ((g(n := v)) a) l = level_sum own_delegated (g(n := v)) D a l"
    using sums_ofD[OF sums a l] v[OF l(1)] z by (simp add: e)
qed

lemma appendChild_core_Ok:
  assumes "appendChild_core p n skip c d item st = (Ok (), st')" "p \<noteq> n" "p \<noteq> []" "n \<noteq> []"
    "r_Referrer item = p"
  defines "g \<equiv> (bu_get st)(n := item)"
  shows "(\<forall>a. r_Referrer (bu_get st' a) = r_Referrer (g a) \<and> r_Banished (bu_get st' a) = r_Banished (g a)
      \<and> r_Referrals (bu_get st' a) = (if a = p then r_Referrals (g p) @ [n] else r_Referrals (g a))
      \<and> coins_at (bu_get st' a) 0 = coins_at (g a) 0 \<and> delegated_at (bu_get st' a) 0 = delegated_at (g a) 0
      \<and> (\<forall>j \<ge> 1. coins_at (bu_get st' a) j = coins_at (g a) j + (if hits g 0 11 n a j then c else 0))
      \<and> (\<forall>j \<ge> 1. delegated_at (bu_get st' a) j = delegated_at (g a) j + (if hits g 0 11 n a j then d else 0)))
    \<and> (bu_inv st \<longrightarrow> bu_inv st') \<and> ref_store (fst st') = ref_store (fst st)"
proof -
  let ?f = "\<lambda>value. credit 1 c d value\<lparr>r_Referrals := r_Referrals (credit 1 c d value) @ [n]\<rparr>"
  define st0 where "st0 = bu_set n item st"
  have g: "bu_get st0 = g" "bu_inv st \<Longrightarrow> bu_inv st0" "ref_store (fst st0) = ref_store (fst st)"
    by (simp_all add: st0_def g_def)
  obtain x st1 where u: "bu_update p True (\<lambda>value st. (Ok ((r_Referrer (?f value),
        \<not> skip \<and> RegistrationClosed (?f value) (fst st)), ?f value), addCallback StakeChangedCallback p st)) st0
        = (Ok x, st1)"
    and cl: "credit_levels True c d [2..<11] (fst x) st1 = (Ok (), st')"
    using assms(1) unfolding appendChild_core_def Let_def st0_def[symmetric] and_then_Ok_iff
    by (auto split: if_splits)
  obtain v where x: "fst x = r_Referrer (g p)" and v: "same_tree (?f (Normalize (g p))) v"
    and g1: "bu_get st1 = g(p := v)" "bu_inv st0 \<Longrightarrow> bu_inv st1" "ref_store (fst st1) = ref_store (fst st0)"
    by (rule bu_update_pure[OF u]) (simp_all add: g credit_def)
  have vf: "r_Referrer v = r_Referrer (g p)" "r_Banished v = r_Banished (g p)" "r_Referrals v = r_Referrals (g p) @ [n]"
    using same_treeD[OF v] by (simp_all add: credit_def)
  have vc: "coins_at v j = coins_at (g p) j + (if j = 1 then c else 0)"
    "delegated_at v j = delegated_at (g p) j + (if j = 1 then d else 0)" for j
    using measures_same[OF v] credit_at[of 1 c d "g p" j] by (simp_all add: coins_at_def delegated_at_def)
  have l: "(1::nat) \<le> 2" "(11::nat) \<le> 11" by simp_all
  note cs = credit_levels_spec[OF cl l]
  have r1: "r_Referrer (bu_get st1 a) = r_Referrer (g a)" for a by (simp add: g1 vf)
  have hj: "hits g 0 11 n a j \<longleftrightarrow> (if j = 1 then a = p else hits (bu_get st1) 2 11 (fst x) a j)" if "1 \<le> j" for a j
  proof -
    have "hits g 0 11 n a j = hits g 1 11 p a j"
      using hits_above[of n 0 j g 11 a] that assms(4,5) by (simp add: g_def)
    also have "\<dots> = (if j = 1 then a = p else hits g 2 11 (fst x) a j)"
      using hits_above[of p 1 j g 11 a] that assms(3) by (auto simp: hits_here x numeral_2_eq_2)
    finally show ?thesis using hits_cong[of "bu_get st1" g, OF r1] by simp
  qed
  have no: "\<not> hits (bu_get st1) 2 11 (fst x) a 1" "\<not> hits (bu_get st1) 2 11 (fst x) a 0" for a
    by (simp_all add: hits_def)
  have "r_Referrer (bu_get st' a) = r_Referrer (g a) \<and> r_Banished (bu_get st' a) = r_Banished (g a)
      \<and> r_Referrals (bu_get st' a) = (if a = p then r_Referrals (g p) @ [n] else r_Referrals (g a))
      \<and> coins_at (bu_get st' a) 0 = coins_at (g a) 0 \<and> delegated_at (bu_get st' a) 0 = delegated_at (g a) 0" for a
  proof -
    have "place (bu_get st' a) = place (bu_get st1 a)" using cs by blast
    then show ?thesis using vf vc[of 0] by (cases "a = p") (simp_all add: place_def g1(1))
  qed
  moreover have "coins_at (bu_get st' a) j = coins_at (g a) j + (if hits g 0 11 n a j then c else 0)"
    "delegated_at (bu_get st' a) j = delegated_at (g a) j + (if hits g 0 11 n a j then d else 0)" if "1 \<le> j" for a j
  proof -
    have "coins_at (bu_get st' a) j = coins_at (bu_get st1 a) j + (if hits (bu_get st1) 2 11 (fst x) a j then c else 0)"
      "delegated_at (bu_get st' a) j = delegated_at (bu_get st1 a) j + (if hits (bu_get st1) 2 11 (fst x) a j then d else 0)"
      using cs by blast+
    then show "coins_at (bu_get st' a) j = coins_at (g a) j + (if hits g 0 11 n a j then c else 0)"
      "delegated_at (bu_get st' a) j = delegated_at (g a) j + (if hits g 0 11 n a j then d else 0)"
      unfolding hj[OF that] using no(1)[of a] vc[of j] by (auto simp: g1(1))
  qed
  ultimately show ?thesis using cs g1 g by simp
qed

lemma Get_dom: "ref_Get a s \<noteq> zero_info \<Longrightarrow> a \<in> dom (ref_store s)"
  by (auto simp: domIff ref_Get_def split: option.splits)

context tree_callbacks
begin

lemma with_bu_Ok:
  assumes "with_bu k f s = (Ok v, s')"
    and "\<And>st'. f (s, newBunchUpdater) = (Ok v, st') \<Longrightarrow> bu_inv st'"
  obtains st' m where "f (s, newBunchUpdater) = (Ok v, st')" "\<And>a. ref_Get a s' = bu_get st' a"
    "finite (dom m)" "ref_store s' = ref_store (fst st') ++ m"
proof -
  define st' where "st' = snd (f (s, newBunchUpdater))"
  have c: "commit_after k (f (s, newBunchUpdater)) = (Ok v, s')" using assms(1) by (simp add: with_bu_def)
  then have f: "f (s, newBunchUpdater) = (Ok v, st')" using commit_after_fst by (simp add: st'_def)
  note fin = commit_after_Ok(2,3)[OF c[unfolded f] assms(2)[OF f]]
  show ?thesis by (rule that[OF f _ finite_dom_map_of fin(1)]) (use fin(2) in blast)
qed

text \<open>
  A new child comes with its own amounts, its ancestors gain them, and it is the last of its
  parent's referrals.
\<close>

lemma appendChild_sums:
  assumes ok: "appendChild k p n skip setc s = (Ok (), s')" and s: "tree_sums s"
    and n: "n \<noteq> []" "n \<noteq> p" and c: "getBalance k n s = Ok c" and d: "getDelegated k n s = Ok d"
  shows "tree_sums s' \<and> r_Referrer (ref_Get n s') = p \<and> coins_at (ref_Get n s') 0 = c
    \<and> delegated_at (ref_Get n s') 0 = d \<and> r_Referrals (ref_Get p s') = r_Referrals (ref_Get p s) @ [n]
    \<and> (\<forall>a. a \<noteq> n \<longrightarrow> r_Referrer (ref_Get a s') = r_Referrer (ref_Get a s))"
proof -
  let ?g = "\<lambda>a. ref_Get a s" and ?h = "\<lambda>a. ref_Get a s'"
  define item where "item = (NewInfo p c d)\<lparr>r_CompressionAt :=
      (if setc then Some (block_time s + CompressionPeriod s) else None)\<rparr>"
  have p: "p \<noteq> []" and ex: "\<not> ref_exists n s"
    using ok by (auto simp: appendChild_def split: if_splits)
  have w: "with_bu k (appendChild_core p n skip c d item) s = (Ok (), s')"
    using ok unfolding appendChild_def if_not_P[OF p] if_not_P[OF ex] lift_res_Ok c d Let_def item_def
    by (simp only: res.inject simp_thms)
  have it: "r_Referrer item = p" "r_Banished item = False" "coins_at item j = (if j = 0 then c else 0)"
    "delegated_at item j = (if j = 0 then d else 0)" for j
    using NewInfo_sel[of p c d] by (simp_all add: item_def coins_at_def delegated_at_def)
  have core: "appendChild_core p n skip c d item (s, newBunchUpdater) = (Ok (), st) \<Longrightarrow> bu_inv st" for st
    using appendChild_core_Ok[of p n skip c d item "(s, newBunchUpdater)" st] n p it(1) by simp
  obtain st m where a: "appendChild_core p n skip c d item (s, newBunchUpdater) = (Ok (), st)"
    and h: "\<And>a. ?h a = bu_get st a" and m: "finite (dom m)" "ref_store s' = ref_store (fst st) ++ m"
    using with_bu_Ok[OF w core] by metis
  have "p \<noteq> n" using n(2) by simp
  note A = appendChild_core_Ok[OF a this p n(1) it(1), unfolded bu_get_new]
  let ?gi = "?g(n := item)"
  have K: "r_Referrer (?h a) = r_Referrer (?gi a)" "r_Banished (?h a) = r_Banished (?gi a)"
    "coins_at (?h a) 0 = coins_at (?gi a) 0" "delegated_at (?h a) 0 = delegated_at (?gi a) 0" for a
    using A h[of a] by simp_all
  have L: "coins_at (?h a) j = coins_at (?gi a) j + (if hits ?gi 0 11 n a j then c else 0)"
    "delegated_at (?h a) j = delegated_at (?gi a) j + (if hits ?gi 0 11 n a j then d else 0)" if "1 \<le> j" for a j
    using A h[of a] that by simp_all
  have f: "finite (dom (ref_store s'))" "dom (ref_store s) \<subseteq> dom (ref_store s')"
    using s m A by (auto simp: tree_sums_def)
  have nd: "n \<notin> dom (ref_store s)" using ex by (auto simp: ref_exists_def domIff)
  have nr: "r_Referrer (?g b) \<noteq> n" for b using s nd n(1) unfolding tree_sums_def by metis
  have np: "ref_Get n s' \<noteq> zero_info" using K(1)[of n] it(1) p by (auto simp: zero_info_def)
  have refs: "r_Referrals (?h p) = r_Referrals (?g p) @ [n]" using A h[of p] n(2) by simp
  then have pp: "ref_Get p s' \<noteq> zero_info" by (auto simp: zero_info_def)
  let ?z = "?g(n := NewInfo p 0 0)"
  have zs: "sums_of ?z (dom (ref_store s))"
    using s by (intro sums_join nd n(1) nr) (simp_all add: NewInfo_sel tree_sums_def)
  have zi: "r_Referrer (?z a) = r_Referrer (?gi a)" for a by (simp add: NewInfo_sel it)
  have "sums_of ?h (dom (ref_store s'))"
  proof (rule sums_shift[OF zs f Get_dom[OF np], where c = c and d = d])
    show "own_coins (?z a) = 0 \<and> own_delegated (?z a) = 0" if "a \<notin> dom (ref_store s)" for a
      using absent_own[OF that] by (simp add: own_coins_def own_delegated_def NewInfo_sel)
    show "r_Referrer (?h a) = r_Referrer (?z a)" for a using K(1)[of a] zi[of a] by simp
    show "r_Banished (?h a) = r_Banished (?z a) \<and> own_coins (?h a) = own_coins (?z a)
        \<and> own_delegated (?h a) = own_delegated (?z a)" if "a \<noteq> n" for a
      using K(2-4)[of a] that by (simp add: own_coins_def own_delegated_def)
    show "c = counted own_coins (?h n) - counted own_coins (?z n)"
      "d = counted own_delegated (?h n) - counted own_delegated (?z n)"
      using K(2-4)[of n] by (simp_all add: counted_def own_coins_def own_delegated_def NewInfo_sel it)
    show "coins_at (?h a) j = coins_at (?z a) j + (if hits ?z 0 11 n a j then c else 0)"
      "delegated_at (?h a) j = delegated_at (?z a) j + (if hits ?z 0 11 n a j then d else 0)" if "1 \<le> j" for a j
      using L[OF that, of a] hits_cong[of ?z ?gi, OF zi] that by (simp_all add: NewInfo_sel it)
  qed
  moreover have "r_Referrer (?h b) = [] \<or> r_Referrer (?h b) \<in> dom (ref_store s')" for b
  proof (cases "b = n")
    case False
    then have "r_Referrer (?h b) = r_Referrer (?g b)" using K(1)[of b] by simp
    then show ?thesis using s f(2) unfolding tree_sums_def by (metis subsetD)
  qed (use K(1)[of n] it(1) Get_dom[OF pp] in simp)
  ultimately show ?thesis using f(1) refs K n it by (simp add: tree_sums_def)
qed

end

section \<open>A banishment\<close>

lemma Banish_self_Ok:
  assumes "Banish_self k value st = (Ok (old, w), st')"
  shows "old = value \<and> st' = st \<and> r_Referrer value \<noteq> [] \<and> \<not> r_Active value
    \<and> r_Delegated value ! 0 \<le> DustDelegation (bank_GetParams (fst st))
    \<and> w = value\<lparr>r_Banished := True, r_Status := STATUS_UNSPECIFIED, r_CompressionAt := None,
        r_StatusDowngradeAt := None, r_BanishmentAt := None\<rparr>"
  using assms by (auto simp: Banish_self_def lift_res_Ok split: if_splits)

text \<open>Taking an account away from its ancestors.\<close>

lemma detach_Ok:
  assumes "detach acc p c d st = (Ok (), st')" "p \<noteq> []"
  defines "g \<equiv> bu_get st"
  shows "(\<forall>a. r_Referrer (bu_get st' a) = r_Referrer (g a) \<and> r_Banished (bu_get st' a) = r_Banished (g a)
      \<and> r_Referrals (bu_get st' a) = (if a = p then fst (RemoveStringFast (r_Referrals (g p)) acc) else r_Referrals (g a))
      \<and> coins_at (bu_get st' a) 0 = coins_at (g a) 0 \<and> delegated_at (bu_get st' a) 0 = delegated_at (g a) 0
      \<and> (\<forall>j \<ge> 1. coins_at (bu_get st' a) j = coins_at (g a) j - (if hits g 1 11 p a j then c else 0))
      \<and> (\<forall>j \<ge> 1. delegated_at (bu_get st' a) j = delegated_at (g a) j - (if hits g 1 11 p a j then d else 0)))
    \<and> (bu_inv st \<longrightarrow> bu_inv st') \<and> ref_store (fst st') = ref_store (fst st)"
proof -
  let ?f = "\<lambda>value. credit 1 (- c) (- d) (value\<lparr>r_Referrals := fst (RemoveStringFast (r_Referrals value) acc)\<rparr>)"
  obtain x st1 where u: "bu_update p True (\<lambda>value st. (Ok (r_Referrer value, ?f value), st)) st = (Ok x, st1)"
    and cl: "(if x = [] \<or> c = 0 \<and> d = 0 then (Ok (), st1) else credit_levels False (- c) (- d) [2..<11] x st1) = (Ok (), st')"
    using assms(1) unfolding detach_def Let_def if_not_P[OF assms(2)] and_then_Ok_iff by blast
  obtain v where x: "x = r_Referrer (g p)" and v: "same_tree (?f (Normalize (g p))) v"
    and g1: "bu_get st1 = g(p := v)" "bu_inv st \<Longrightarrow> bu_inv st1" "ref_store (fst st1) = ref_store (fst st)"
    by (rule bu_update_pure[where nt = "\<lambda>st. st", OF u]) (simp_all add: g_def)
  have vf: "r_Referrer v = r_Referrer (g p)" "r_Banished v = r_Banished (g p)"
    "r_Referrals v = fst (RemoveStringFast (r_Referrals (g p)) acc)"
    using same_treeD[OF v] by (simp_all add: credit_def)
  have vc: "coins_at v j = coins_at (g p) j - (if j = 1 then c else 0)"
    "delegated_at v j = delegated_at (g p) j - (if j = 1 then d else 0)" for j
    using measures_same[OF v] credit_at[of 1 "- c" "- d" "g p" j]
    by (simp_all add: coins_at_def delegated_at_def credit_def)
  have r1: "r_Referrer (bu_get st1 a) = r_Referrer (g a)" for a by (simp add: g1 vf)
  have rest: "place (bu_get st' a) = place (bu_get st1 a) \<and> (bu_inv st1 \<longrightarrow> bu_inv st')
    \<and> ref_store (fst st') = ref_store (fst st1)
    \<and> coins_at (bu_get st' a) j = coins_at (bu_get st1 a) j - (if hits (bu_get st1) 2 11 x a j then c else 0)
    \<and> delegated_at (bu_get st' a) j = delegated_at (bu_get st1 a) j - (if hits (bu_get st1) 2 11 x a j then d else 0)" for a j
  proof (cases "x = [] \<or> c = 0 \<and> d = 0")
    case True
    then have "st' = st1" using cl by simp
    then show ?thesis using True by auto
  next
    case False
    have cl': "credit_levels False (- c) (- d) [2..<11] x st1 = (Ok (), st')"
      using cl unfolding if_not_P[OF False] .
    have l: "(1::nat) \<le> 2" "(11::nat) \<le> 11" by simp_all
    show ?thesis using credit_levels_spec[OF cl' l] by simp
  qed
  have hj: "hits g 1 11 p a j \<longleftrightarrow> (if j = 1 then a = p else hits (bu_get st1) 2 11 x a j)" if "1 \<le> j" for a j
    using hits_above[of p 1 j g 11 a] that assms(2) hits_cong[of "bu_get st1" g, OF r1]
    by (auto simp: hits_here x numeral_2_eq_2)
  have "r_Referrer (bu_get st' a) = r_Referrer (g a) \<and> r_Banished (bu_get st' a) = r_Banished (g a)
      \<and> r_Referrals (bu_get st' a) = (if a = p then fst (RemoveStringFast (r_Referrals (g p)) acc) else r_Referrals (g a))
      \<and> coins_at (bu_get st' a) 0 = coins_at (g a) 0 \<and> delegated_at (bu_get st' a) 0 = delegated_at (g a) 0" for a
  proof -
    have "place (bu_get st' a) = place (bu_get st1 a)" using rest by blast
    then show ?thesis using vf vc[of 0] by (cases "a = p") (simp_all add: place_def g1(1))
  qed
  moreover have "coins_at (bu_get st' a) j = coins_at (g a) j - (if hits g 1 11 p a j then c else 0)"
    "delegated_at (bu_get st' a) j = delegated_at (g a) j - (if hits g 1 11 p a j then d else 0)" if "1 \<le> j" for a j
  proof -
    have no: "\<not> hits (bu_get st1) 2 11 x a 1" by (simp add: hits_def)
    show "coins_at (bu_get st' a) j = coins_at (g a) j - (if hits g 1 11 p a j then c else 0)"
      "delegated_at (bu_get st' a) j = delegated_at (g a) j - (if hits g 1 11 p a j then d else 0)"
      using rest[of a j] no vc[of j] unfolding hj[OF that] g1(1) by (auto split: if_splits)
  qed
  ultimately show ?thesis using rest g1 by simp
qed

context tree_callbacks
begin

text \<open>
  What a banishment hands to the callbacks of banished accounts: an account that had a
  referrer, was not active and delegated no more than the dust has left its parent's
  referrals and is not counted any more.
\<close>

text \<open>The account itself, and what is left to take from its ancestors.\<close>

lemma banish_core_Ok:
  assumes b: "banish_core k acc (s, newBunchUpdater) = (Ok (), st)"
  defines "r \<equiv> ref_Get acc s"
  shows "(r_Referrer r) \<noteq> [] \<and> \<not> r_Active r \<and> \<not> r_Banished r \<and> delegated_at r 0 \<le> DustDelegation (bank_GetParams s)
    \<and> (\<exists>v st1. same_tree ((Normalize r)\<lparr>r_Banished := True, r_Status := STATUS_UNSPECIFIED, r_CompressionAt := None,
        r_StatusDowngradeAt := None, r_BanishmentAt := None\<rparr>) v
      \<and> bu_get st1 = (\<lambda>a. ref_Get a s)(acc := v) \<and> bu_inv st1 \<and> ref_store (fst st1) = ref_store s
      \<and> detach acc (r_Referrer r) (coins_at r 0) (delegated_at r 0) st1 = (Ok (), st))"
proof -
  let ?g = "\<lambda>a. ref_Get a s" and ?st = "(s, newBunchUpdater)" and ?n = "Normalize r" and ?p = "r_Referrer r"
  obtain old st1 where u: "bu_update acc False (Banish_self k) ?st = (Ok old, st1)"
    and de: "(if r_Banished old then (Err (Text ''already banished''), st1)
      else detach acc (r_Referrer old) (r_Coins old ! 0) (r_Delegated old ! 0) st1) = (Ok (), st)"
    using b unfolding banish_core_def and_then_Ok_iff by blast
  obtain w v t1 where o: "Banish_self k (Normalize (bu_get ?st acc)) ?st = (Ok (old, w), t1)"
    and v: "same_tree w v" "bu_get st1 = (bu_get t1)(acc := v)" "bu_inv t1 \<Longrightarrow> bu_inv st1"
      "ref_store (fst st1) = ref_store (fst t1)"
    using bu_update_Ok[OF u] by metis
  have o': "Banish_self k ?n ?st = (Ok (old, w), t1)" using o by (simp add: bu_get_new r_def)
  note B = Banish_self_Ok[OF o']
  have nb: "\<not> r_Banished r" using de B by (auto split: if_splits)
  have "detach acc ?p (coins_at r 0) (delegated_at r 0) st1 = (Ok (), st)"
    using de B nb own_Normalize[of r] by simp
  moreover have "bu_get st1 = ?g(acc := v)" "bu_inv st1" "ref_store (fst st1) = ref_store s"
    using B v by (simp_all add: bu_get_new)
  moreover have "same_tree (?n\<lparr>r_Banished := True, r_Status := STATUS_UNSPECIFIED, r_CompressionAt := None,
      r_StatusDowngradeAt := None, r_BanishmentAt := None\<rparr>) v"
    using B v(1) by simp
  moreover have "?p \<noteq> []" "\<not> r_Active r" "delegated_at r 0 \<le> DustDelegation (bank_GetParams s)"
    using B own_Normalize[of r] by simp_all
  ultimately show ?thesis using nb by blast
qed

lemma banish_core_sums:
  assumes ok: "with_bu k (banish_core k acc) s = (Ok (), s')" and s: "tree_sums s" and acc: "acc \<noteq> []"
  defines "r \<equiv> ref_Get acc s"
  shows "tree_sums s' \<and> r_Referrer r \<noteq> [] \<and> \<not> r_Active r \<and> \<not> r_Banished r
    \<and> delegated_at r 0 \<le> DustDelegation (bank_GetParams s) \<and> r_Banished (ref_Get acc s')
    \<and> (r_Referrer r \<noteq> acc \<longrightarrow> r_Referrals (ref_Get (r_Referrer r) s')
        = fst (RemoveStringFast (r_Referrals (ref_Get (r_Referrer r) s)) acc))"
proof -
  let ?g = "\<lambda>a. ref_Get a s" and ?h = "\<lambda>a. ref_Get a s'" and ?st = "(s, newBunchUpdater)"
  let ?n = "Normalize r" and ?p = "r_Referrer r"
  note core = banish_core_Ok[where acc = acc and s = s, folded r_def]
  have inv: "banish_core k acc ?st = (Ok (), st) \<Longrightarrow> bu_inv st" for st
    using core detach_Ok by blast
  obtain st m where b: "banish_core k acc ?st = (Ok (), st)"
    and h: "\<And>a. ?h a = bu_get st a" and m: "finite (dom m)" "ref_store s' = ref_store (fst st) ++ m"
    using with_bu_Ok[OF ok inv] by metis
  obtain v st1 where f: "?p \<noteq> []" "\<not> r_Active r" "\<not> r_Banished r"
      "delegated_at r 0 \<le> DustDelegation (bank_GetParams s)"
    and v: "same_tree (?n\<lparr>r_Banished := True, r_Status := STATUS_UNSPECIFIED, r_CompressionAt := None,
        r_StatusDowngradeAt := None, r_BanishmentAt := None\<rparr>) v"
    and g1: "bu_get st1 = ?g(acc := v)" "ref_store (fst st1) = ref_store s"
    and de: "detach acc ?p (coins_at r 0) (delegated_at r 0) st1 = (Ok (), st)"
    using core[OF b] by blast
  have vf: "r_Referrer v = ?p" "r_Banished v" "r_Referrals v = r_Referrals r"
    "coins_at v j = coins_at r j" "delegated_at v j = delegated_at r j" for j
    using same_treeD[OF v] measures_same[OF v] measures_norm[of r] by (simp_all add: coins_at_def delegated_at_def)
  note D = detach_Ok[OF de f(1), unfolded g1(1)]
  have ref1: "r_Referrer ((?g(acc := v)) a) = r_Referrer (?g a)" for a by (simp add: vf r_def)
  have hit: "hits (?g(acc := v)) 1 11 ?p a j = hits ?g 0 11 acc a j" if "1 \<le> j" for a j
    using hits_above[OF acc, of 0 j ?g 11 a] that hits_cong[of "?g(acc := v)" ?g, OF ref1] by (simp add: r_def)
  have K: "r_Referrer (?h a) = r_Referrer (?g a)" "r_Banished (?h a) = r_Banished ((?g(acc := v)) a)"
    "coins_at (?h a) 0 = coins_at (?g a) 0" "delegated_at (?h a) 0 = delegated_at (?g a) 0" for a
    using D h[of a] vf by (simp_all add: r_def)
  have L: "coins_at (?h a) j = coins_at (?g a) j + (if hits ?g 0 11 acc a j then - coins_at r 0 else 0)"
    "delegated_at (?h a) j = delegated_at (?g a) j + (if hits ?g 0 11 acc a j then - delegated_at r 0 else 0)"
    if "1 \<le> j" for a j
  proof -
    have "coins_at (?h a) j = coins_at ((?g(acc := v)) a) j - (if hits (?g(acc := v)) 1 11 ?p a j then coins_at r 0 else 0)"
      "delegated_at (?h a) j = delegated_at ((?g(acc := v)) a) j - (if hits (?g(acc := v)) 1 11 ?p a j then delegated_at r 0 else 0)"
      using spec[OF conjunct1[OF D], of a] that unfolding h by blast+
    then show "coins_at (?h a) j = coins_at (?g a) j + (if hits ?g 0 11 acc a j then - coins_at r 0 else 0)"
      "delegated_at (?h a) j = delegated_at (?g a) j + (if hits ?g 0 11 acc a j then - delegated_at r 0 else 0)"
      unfolding hit[OF that] using vf(4,5)[of j] by (cases "a = acc"; simp add: r_def)+
  qed
  have "ref_Get acc s \<noteq> zero_info" using f(1) by (auto simp: r_def zero_info_def)
  note dom = Get_dom[OF this]
  have m': "ref_store s' = ref_store s ++ m" using m(2) D g1(2) by simp
  have "tree_sums s'"
  proof (rule tree_sums_shift[OF s m(1) m' dom K(1), where c = "- coins_at r 0" and d = "- delegated_at r 0"])
    show "r_Banished (?h a) = r_Banished (?g a) \<and> own_coins (?h a) = own_coins (?g a)
        \<and> own_delegated (?h a) = own_delegated (?g a)" if "a \<noteq> acc" for a
      using K(2-4)[of a] that by (simp add: own_coins_def own_delegated_def)
    show "- coins_at r 0 = counted own_coins (?h acc) - counted own_coins (?g acc)"
      "- delegated_at r 0 = counted own_delegated (?h acc) - counted own_delegated (?g acc)"
      using K(2)[of acc] vf(2) f(3) by (simp_all add: counted_def own_coins_def own_delegated_def r_def)
  qed (use L in blast)+
  moreover have "r_Banished (?h acc)" using K(2)[of acc] vf(2) by simp
  moreover have "r_Referrals (?h ?p) = fst (RemoveStringFast (r_Referrals (?g ?p)) acc)" if "?p \<noteq> acc"
    using D h[of ?p] that by simp
  ultimately show ?thesis using f by simp
qed

end

end
