(* ===== verification/Referral_Activity.thy ===== *)
theory Referral_Activity
  imports Referral_Moves
begin

text \<open>
  The counters of active referrals: at every level an account's counter is the number of
  active accounts that many levels below, modulo two to the 64, and switching an account's
  activity keeps it so.
\<close>

definition active_total :: "(string \<Rightarrow> info) \<Rightarrow> string set \<Rightarrow> string \<Rightarrow> nat \<Rightarrow> 64 word" where
  "active_total g D a l = (\<Sum>b\<in>D. if r_Active (g b) \<and> up g l b = a then 1 else 0)"

definition active_sums :: "'s ref_ctx_scheme \<Rightarrow> bool" where
  "active_sums s \<longleftrightarrow> finite (dom (ref_store s)) \<and> (\<forall>a l. a \<noteq> [] \<longrightarrow> l \<le> 10 \<longrightarrow>
     active_at (ref_Get a s) l = active_total (\<lambda>a. ref_Get a s) (dom (ref_store s)) a l)"

lemma active_sumsD:
  "active_sums s \<Longrightarrow> a \<noteq> [] \<Longrightarrow> l \<le> 10 \<Longrightarrow>
    active_at (ref_Get a s) l = active_total (\<lambda>a. ref_Get a s) (dom (ref_store s)) a l"
  by (simp add: active_sums_def)

lemma active_total_change:
  assumes "finite D'" "D \<subseteq> D'" "c \<in> D'" "\<And>b. b \<notin> D \<Longrightarrow> \<not> r_Active (g b)"
    and "\<And>b. b \<noteq> c \<Longrightarrow> r_Active (h b) = r_Active (g b)" "\<And>b. r_Referrer (h b) = r_Referrer (g b)"
  shows "active_total h D' a l = active_total g D a l + (if up g l c = a
    then of_bool (r_Active (h c)) - of_bool (r_Active (g c)) else 0)"
proof -
  have u: "up h l b = up g l b" for b using assms(6) by (rule up_cong)
  have "active_total g D' a l = active_total g D a l"
    unfolding active_total_def by (rule sum.mono_neutral_right) (use assms(1,2,4) in auto)
  moreover have "(\<Sum>b\<in>D' - {c}. if r_Active (h b) \<and> up h l b = a then 1 else 0 :: 64 word)
      = (\<Sum>b\<in>D' - {c}. if r_Active (g b) \<and> up g l b = a then 1 else 0)"
    by (rule sum.cong) (auto simp: u assms(5))
  then have "active_total h D' a l = active_total g D' a l + (if up g l c = a
      then of_bool (r_Active (h c)) - of_bool (r_Active (g c)) else 0)"
    unfolding active_total_def sum.remove[OF assms(1,3)] by (simp add: u)
  ultimately show ?thesis by simp
qed

lemma active_at_add0: "1 \<le> l \<Longrightarrow> active_at (active_level acc b l v) 0 = active_at v 0"
  by (cases l) (simp_all add: active_at_def active_level_def Let_def level_at_add0)

definition active_place :: "info \<Rightarrow> string \<times> bool \<times> 64 word" where
  "active_place v = (r_Referrer v, r_Active v, active_at v 0)"

lemma set_active_levels_spec:
  assumes "set_active_levels acc b check [1..<11] anc st = (Ok (), st')"
  shows "(\<forall>a. active_place (bu_get st' a) = active_place (bu_get st a)) \<and> (bu_inv st \<longrightarrow> bu_inv st')
    \<and> ref_store (fst st') = ref_store (fst st)
    \<and> (\<forall>a j. active_at (bu_get st' a) j = active_at (bu_get st a) j
        + (if hits (bu_get st) 1 11 anc a j then (if b then 1 else - 1) else 0))"
proof -
  let ?f = "\<lambda>l. if 1 \<le> l then active_level acc b l else (\<lambda>v. v)"
  have w: "walk_up (active_level acc b) check (\<lambda>anc st. st) [1..<11] anc st = (Ok (), st')"
    using assms unfolding set_active_levels_def .
  have "walk_up ?f check (\<lambda>anc st. st) [1..<11] anc st
      = walk_up (active_level acc b) check (\<lambda>anc st. st) [1..<11] anc st"
    by (rule walk_up_cong) simp
  then have wf: "walk_up ?f check (\<lambda>anc st. st) [1..<11] anc st = (Ok (), st')" using w by simp
  have sel: "active_level acc b l v = v\<lparr>r_ActiveReferrals := r_ActiveReferrals (active_level acc b l v),
      r_ActiveRefCounts := r_ActiveRefCounts (active_level acc b l v)\<rparr>" for l v
    by (simp add: active_level_def Let_def)
  have "r_Referrer (active_level acc b l v) = r_Referrer v" "r_Active (active_level acc b l v) = r_Active v" for l v
    by (subst sel, simp)+
  then have "active_place (bu_get st' a) = active_place (bu_get st a)" for a
    by (intro walk_up_field[OF wf])
      (simp_all add: active_place_def active_at_add0 same_treeD measures_same)
  moreover have l: "(1::nat) \<le> 1" "(11::nat) \<le> 11" by simp_all
  note active_count.walk_up_measure[OF w l quiet_refl]
  ultimately show ?thesis by (simp add: hits_def)
qed

lemma set_active_self_Ok:
  assumes "set_active_self acc b x st = (Ok ((already, p), v), st')"
  shows "quiet st st' \<and> (if r_Active x = b then already \<and> v = x \<and> st' = st
    else \<not> already \<and> p = r_Referrer x \<and> r_Referrer v = r_Referrer x \<and> r_Active v = b
      \<and> r_ActiveRefCounts v = add_at 0 (if b then 1 else - 1) (r_ActiveRefCounts x))"
proof (cases "r_Active x = b")
  case False
  define x1 where "x1 = x\<lparr>r_Active := b,
      r_ActiveRefCounts := add_at 0 (if b then 1 else - 1) (r_ActiveRefCounts x),
      r_CompressionAt := (if b then None else Some (block_time (fst st) + CompressionPeriod (fst st)))\<rparr>"
  have r: "(case (b, r_BanishmentAt x1) of
        (True, Some t) \<Rightarrow> and_then (on_ctx (Delete t BanishHookName acc) st)
          (\<lambda>_ st. (Ok ((False, r_Referrer x1), x1\<lparr>r_BanishmentAt := None\<rparr>), st))
      | _ \<Rightarrow> (Ok ((False, r_Referrer x1), x1), st)) = (Ok ((already, p), v), st')"
    using assms unfolding set_active_self_def if_not_P[OF False] Let_def x1_def[symmetric] .
  show ?thesis
  proof (cases "b \<and> (\<exists>t. r_BanishmentAt x1 = Some t)")
    case True
    then obtain t u where d: "on_ctx (Delete t BanishHookName acc) st = (Ok u, st')"
      and v: "\<not> already" "p = r_Referrer x1" "v = x1\<lparr>r_BanishmentAt := None\<rparr>"
      using r by (auto simp: and_then_Ok_iff)
    then show ?thesis using quiet_on_ctx_Ok(1)[OF d Delete_ref_store] False by (simp add: x1_def)
  next
    case no: False
    then have "\<not> already" "p = r_Referrer x1" "v = x1" "st' = st"
      using r by (auto split: bool.splits option.splits)
    then show ?thesis using False by (simp add: x1_def)
  qed
qed (use assms in \<open>simp add: set_active_self_def\<close>)

context tree_callbacks
begin

text \<open>The walk over the ancestors, and what its commit leaves in the store.\<close>

lemma SetActive_commit:
  assumes c: "commit_after k (and_then (set_active_levels acc b check [1..<11] p st1) (\<lambda>_ st.
        if p \<noteq> [] \<and> \<not> b
        then on_ctx (\<lambda>s. ScheduleCompression acc (block_time s + CompressionPeriod s) s) st
        else (Ok (), st))) = (Ok (), s')" and inv: "bu_inv st1"
  obtains st2 where "set_active_levels acc b check [1..<11] p st1 = (Ok (), st2)" "\<And>a. ref_Get a s' = bu_get st2 a"
    "\<exists>m. finite (dom m) \<and> ref_store s' = ref_store (fst st1) ++ m"
proof -
  let ?fin = "\<lambda>st. if p \<noteq> [] \<and> \<not> b
    then on_ctx (\<lambda>s. ScheduleCompression acc (block_time s + CompressionPeriod s) s) st else (Ok (), st)"
  let ?run = "and_then (set_active_levels acc b check [1..<11] p st1) (\<lambda>_ st. ?fin st)"
  have "?run = (Ok (), snd ?run)" by (rule commit_after_fst[OF c])
  then obtain x st2 where l: "set_active_levels acc b check [1..<11] p st1 = (Ok x, st2)" and f: "?fin st2 = (Ok (), snd ?run)"
    unfolding and_then_Ok_iff by blast
  have qf: "quiet st2 (snd ?run)"
  proof (cases "p \<noteq> [] \<and> \<not> b")
    case True
    then have d: "on_ctx (\<lambda>s. ScheduleCompression acc (block_time s + CompressionPeriod s) s) st2 = (Ok (), snd ?run)"
      using f by simp
    show ?thesis by (rule quiet_on_ctx_Ok(1)[OF d]) (simp add: ScheduleCompression_def)
  qed (use f in auto)
  have l': "set_active_levels acc b check [1..<11] p st1 = (Ok (), st2)" using l by simp
  note W = set_active_levels_spec[OF l']
  have i: "bu_inv (snd ?run)" using qf W inv by (simp add: quiet_def)
  have cc: "commit_after k (Ok (), snd ?run) = (Ok (), s')" using c commit_after_fst[OF c] by simp
  note F = commit_after_Ok(2,3)[OF cc i]
  have "ref_store s' = ref_store (fst st1) ++ map_of (bu_data (snd (snd ?run)))"
    using F(1) qf W by (simp add: quiet_def tree_view_def)
  then have "\<exists>m. finite (dom m) \<and> ref_store s' = ref_store (fst st1) ++ m" using finite_dom_map_of by blast
  moreover have "ref_Get a s' = bu_get st2 a" for a using F(2) quiet_get[OF qf] by simp
  ultimately show thesis using that[OF l'] by blast
qed

lemma SetActive_Ok:
  assumes ok: "SetActive k acc b check s = (Ok (), s')" and acc: "acc \<noteq> []"
  defines "delta \<equiv> (if r_Active (ref_Get acc s) = b then 0 else if b then 1 else - 1)"
  shows "(\<exists>m. finite (dom m) \<and> ref_store s' = ref_store s ++ m)
    \<and> (\<forall>a. r_Referrer (ref_Get a s') = r_Referrer (ref_Get a s)
      \<and> r_Active (ref_Get a s') = (if a = acc then b else r_Active (ref_Get a s))
      \<and> (\<forall>j. active_at (ref_Get a s') j = active_at (ref_Get a s) j
          + (if j = 0 \<and> a = acc \<or> j \<noteq> 0 \<and> hits (\<lambda>a. ref_Get a s) 0 11 acc a j then delta else 0)))"
proof -
  let ?g = "\<lambda>a. ref_Get a s" and ?st = "(s, newBunchUpdater)" and ?n = "Normalize (ref_Get acc s)"
  obtain already p st1 where u: "bu_update acc False (set_active_self acc b) ?st = (Ok (already, p), st1)"
    and c: "(if already then (Ok (), fst st1) else commit_after k
        (and_then (set_active_levels acc b check [1..<11] p st1) (\<lambda>_ st.
          if p \<noteq> [] \<and> \<not> b
          then on_ctx (\<lambda>s. ScheduleCompression acc (block_time s + CompressionPeriod s) s) st
          else (Ok (), st)))) = (Ok (), s')"
    using ok unfolding SetActive_def by (auto split: res_splits)
  obtain w v t1 where o: "set_active_self acc b (Normalize (bu_get ?st acc)) ?st = (Ok ((already, p), w), t1)"
    and wv: "same_tree w v" "bu_get st1 = (bu_get t1)(acc := v)" "bu_inv t1 \<Longrightarrow> bu_inv st1"
      "ref_store (fst st1) = ref_store (fst t1)"
    using bu_update_Ok[OF u] by metis
  have o': "set_active_self acc b ?n ?st = (Ok ((already, p), w), t1)" using o by (simp add: bu_get_new)
  note S = set_active_self_Ok[OF o']
  have q: "bu_get t1 = ?g" "bu_inv t1" "ref_store (fst t1) = ref_store s"
    using S quiet_get[of ?st t1] by (simp_all add: bu_get_new quiet_def tree_view_def)
  show ?thesis
  proof (cases "r_Active (?g acc) = b")
    case True
    then have "ref_store s' = ref_store s" using c S q(3) wv(4) by simp
    then have "ref_Get a s' = ?g a" for a by (simp add: ref_Get_def)
    moreover have "\<exists>m. finite (dom m) \<and> ref_store s' = ref_store s ++ m"
      using \<open>ref_store s' = ref_store s\<close> by (intro exI[of _ Map.empty]) simp
    ultimately show ?thesis using True by (simp add: delta_def)
  next
    case False
    have w: "\<not> already" "p = r_Referrer (?g acc)" "r_Referrer w = r_Referrer (?g acc)" "r_Active w = b"
      "r_ActiveRefCounts w = add_at 0 (if b then 1 else - 1) (r_ActiveRefCounts ?n)"
      using S False by simp_all
    obtain st2 where l: "set_active_levels acc b check [1..<11] p st1 = (Ok (), st2)" and g2: "\<And>a. ref_Get a s' = bu_get st2 a"
      and store: "\<exists>m. finite (dom m) \<and> ref_store s' = ref_store s ++ m"
      using SetActive_commit[of acc b check p st1 s'] c w(1) wv(3,4) q(2,3) by auto
    note L = set_active_levels_spec[OF l]
    have g1: "bu_get st1 = ?g(acc := v)" using wv(2) q(1) by simp
    have v: "r_Referrer v = r_Referrer (?g acc)" "r_Active v = b"
      using same_treeD[OF wv(1)] w by simp_all
    have va: "active_at v j = active_at (?g acc) j + (if j = 0 then delta else 0)" for j
      using level_at_add[of 0 "r_ActiveRefCounts ?n" "if b then 1 else - 1" j] measures_same(3)[OF wv(1)]
        measures_norm(3)[of "?g acc"] False Normalize_length(3)[of 0]
      by (simp add: active_at_def w delta_def)
    have ref1: "r_Referrer (bu_get st1 a) = r_Referrer (?g a)" for a by (simp add: g1 v)
    have hit: "hits (bu_get st1) 1 11 p a j = (j \<noteq> 0 \<and> hits ?g 0 11 acc a j)" for a j
      using hits_above[OF acc, of 0 j ?g 11 a] hits_cong[of "bu_get st1" ?g, OF ref1]
      by (cases j) (simp_all add: w(2) hits_def[of _ _ _ _ _ 0])
    have "r_Referrer (ref_Get a s') = r_Referrer (?g a) \<and> r_Active (ref_Get a s') = (if a = acc then b else r_Active (?g a))" for a
      using L v unfolding g2 by (cases "a = acc") (simp_all add: active_place_def g1)
    moreover have "active_at (ref_Get a s') j = active_at (?g a) j
        + (if j = 0 \<and> a = acc \<or> j \<noteq> 0 \<and> hits ?g 0 11 acc a j then delta else 0)" for a j
    proof -
      have "active_at (ref_Get a s') j = active_at (bu_get st1 a) j
          + (if j \<noteq> 0 \<and> hits ?g 0 11 acc a j then (if b then 1 else - 1) else 0)"
        using L unfolding g2 hit by blast
      then show ?thesis using va[of j] False by (cases "a = acc"; cases "j = 0") (simp_all add: g1 delta_def)
    qed
    ultimately show ?thesis using store by blast
  qed
qed

text \<open>So the counters stay what they should be.\<close>

lemma SetActive_sums:
  assumes ok: "SetActive k acc b check s = (Ok (), s')" and acc: "acc \<noteq> []" and s: "active_sums s"
    and e: "r_Referrer (ref_Get acc s) \<noteq> []"
  shows "active_sums s' \<and> r_Active (ref_Get acc s') = b"
proof -
  let ?g = "\<lambda>a. ref_Get a s" and ?h = "\<lambda>a. ref_Get a s'"
  note A = SetActive_Ok[OF ok acc]
  obtain m where m: "finite (dom m)" "ref_store s' = ref_store s ++ m" using A by blast
  have f: "finite (dom (ref_store s'))" "dom (ref_store s) \<subseteq> dom (ref_store s')"
    using s m by (auto simp: active_sums_def)
  have "ref_Get acc s \<noteq> zero_info" using e by (auto simp: zero_info_def)
  then have d: "acc \<in> dom (ref_store s')" using Get_dom f(2) by blast
  have out: "b \<notin> dom (ref_store s) \<Longrightarrow> \<not> r_Active (?g b)" for b
    by (simp add: domIff ref_Get_def zero_info_def)
  have "active_at (?h a) l = active_total ?h (dom (ref_store s')) a l" if a: "a \<noteq> []" and l: "l \<le> 10" for a l
  proof -
    have K: "r_Active (?h x) = (if x = acc then b else r_Active (?g x))" "r_Referrer (?h x) = r_Referrer (?g x)" for x
      using A by blast+
    have "active_total ?h (dom (ref_store s')) a l = active_total ?g (dom (ref_store s)) a l
        + (if up ?g l acc = a then of_bool b - of_bool (r_Active (?g acc)) else 0)"
      using active_total_change[OF f(1,2) d out, where h = ?h and a = a and l = l] K by simp
    moreover have "active_at (?h a) l = active_at (?g a) l + (if l = 0 \<and> a = acc \<or> l \<noteq> 0 \<and> hits ?g 0 11 acc a l
        then if r_Active (?g acc) = b then 0 else if b then 1 else - 1 else 0)"
      using A by blast
    moreover have "(l = 0 \<and> a = acc \<or> l \<noteq> 0 \<and> hits ?g 0 11 acc a l) \<longleftrightarrow> up ?g l acc = a"
      using a l by (cases l) (auto simp: hits_def)
    ultimately show ?thesis using active_sumsD[OF s a l] by (cases b; cases "r_Active (?g acc)"; simp)
  qed
  moreover have "r_Active (?h acc) = b" using A by simp
  ultimately show ?thesis using f(1) by (simp add: active_sums_def)
qed

end

end
