(* ===== verification/Referral_Transition.thy ===== *)
theory Referral_Transition
  imports Referral_Activity
begin

text \<open>
  A transition moves an account with everything below it under another parent. The loops of
  \<open>AffirmTransition\<close> take the account's levels from its old ancestors and give them to the
  new ones; on a tree without cycles that keeps every amount the sum over its level, and the
  check of \<open>validateTransition\<close> keeps the tree free of cycles.
\<close>

section \<open>Chains that end\<close>

definition rooted :: "(string \<Rightarrow> info) \<Rightarrow> bool" where
  "rooted g \<longleftrightarrow> (\<forall>a. \<exists>n. up g n a = [])"

lemma up_add: "up g (m + n) a = up g n (up g m a)"
  by (induction m arbitrary: a) auto

lemma up_Suc_end: "up g (Suc n) a = (if up g n a = [] then [] else r_Referrer (g (up g n a)))"
  using up_add[of g n 1 a] by simp

lemma up_cycle: "up g p a = a \<Longrightarrow> up g (k * p) a = a"
  by (induction k) (simp_all add: up_add)

lemma rooted_no_cycle:
  assumes "rooted g" "a \<noteq> []" "0 < p"
  shows "up g p a \<noteq> a"
proof
  assume c: "up g p a = a"
  obtain n where n: "up g n a = []" using assms(1) by (auto simp: rooted_def)
  have "n \<le> n * p" using assms(3) by simp
  then have "up g (n * p) a = []" using up_add[of g n "n * p - n" a] n by simp
  then show False using up_cycle[OF c, of n] assms(2) by simp
qed

lemma rooted_meets_once:
  assumes "rooted g" "x \<noteq> []" "up g m b = x" "up g n b = x"
  shows "m = n"
proof (rule ccontr)
  assume "m \<noteq> n"
  then consider d where "n = m + d" "0 < d" | d where "m = n + d" "0 < d"
    by (metis less_imp_add_positive linorder_neqE_nat)
  then show False
    by cases (use assms rooted_no_cycle[OF assms(1,2)] up_add in \<open>metis\<close>)+
qed

text \<open>Walks that do not pass through \<open>x\<close> do not see what is above \<open>x\<close>.\<close>

lemma up_other:
  assumes "\<And>a. a \<noteq> x \<Longrightarrow> r_Referrer (h a) = r_Referrer (g a)" "\<forall>m < n. up g m b \<noteq> x"
  shows "up h n b = up g n b"
  using assms(2)
proof (induction n)
  case (Suc n)
  then show ?case using assms(1)[of "up g n b"] by (simp add: up_Suc_end del: up.simps(2))
qed simp

lemma up_through:
  assumes "\<And>a. a \<noteq> x \<Longrightarrow> r_Referrer (h a) = r_Referrer (g a)" "x \<noteq> []"
    "up g m b = x" "\<forall>i < m. up g i b \<noteq> x"
  shows "up h (m + Suc n) b = up h n (r_Referrer (h x))"
proof -
  have "up h m b = x" using up_other[of x h g, OF assms(1,4)] assms(3) by simp
  then show ?thesis unfolding up_add using assms(2) by simp
qed

lemma walk_to_root_avoids:
  "walk_to_root n g x a = Ok () \<Longrightarrow> x \<noteq> [] \<Longrightarrow> up g m a \<noteq> x"
proof (induction n g x a arbitrary: m rule: walk_to_root.induct)
  case (3 n get subject c cs)
  then show ?case by (cases m) (auto split: if_splits)
qed auto

text \<open>Enough fuel: the bound of the walk plays no role once the chain ends within it.\<close>

lemma walk_to_root_fuel:
  assumes "up g m a = []" "m \<le> n"
  shows "walk_to_root n g x a = (if \<exists>i < m. up g i a = x \<and> x \<noteq> [] then Err (Text ''cycles are not allowed'') else Ok ())"
  using assms
proof (induction n g x a arbitrary: m rule: walk_to_root.induct)
  case (2 get subject c cs)
  then show ?case by simp
next
  case (3 n get subject c cs)
  obtain m' where m: "m = Suc m'" using 3(2) by (cases m) auto
  show ?case
  proof (cases "c # cs = subject")
    case True
    then have "\<exists>i < m. up get i (c # cs) = subject \<and> subject \<noteq> []"
      using m by (intro exI[of _ 0]) auto
    moreover have "walk_to_root (Suc n) get subject (c # cs) = Err (Text ''cycles are not allowed'')"
      by (subst walk_to_root.simps) (rule if_P[OF True])
    ultimately show ?thesis by simp
  next
    case False
    have "(\<exists>i < m. up get i (c # cs) = subject \<and> subject \<noteq> []) \<longleftrightarrow>
        (\<exists>i < m'. up get i (r_Referrer (get (c # cs))) = subject \<and> subject \<noteq> [])"
      using False unfolding m by (auto simp: less_Suc_eq_0_disj)
    then show ?thesis using False 3(1)[OF False, of m'] 3(2,3) m by simp
  qed
qed auto

section \<open>Where a walk passes the moved account\<close>

lemma moved_walks:
  fixes g h :: "string \<Rightarrow> info"
  assumes h: "\<And>a. a \<noteq> x \<Longrightarrow> r_Referrer (h a) = r_Referrer (g a)" and x: "x \<noteq> []"
    and r: "rooted g" and new: "\<And>m. up g m (r_Referrer (h x)) \<noteq> x" and a: "a \<noteq> []"
  shows "(of_bool (up h l b = a) :: int) - of_bool (up g l b = a) =
    (\<Sum>m<l. if up g m b = x then of_bool (up g (l - Suc m) (r_Referrer (h x)) = a)
      - of_bool (up g (l - Suc m) (r_Referrer (g x)) = a) else 0)"
proof (cases "\<exists>m<l. up g m b = x")
  case False
  then have "up h l b = up g l b" by (intro up_other[of x h g, OF h]) auto
  moreover have "(\<Sum>m<l. if up g m b = x then of_bool (up g (l - Suc m) (r_Referrer (h x)) = a)
      - of_bool (up g (l - Suc m) (r_Referrer (g x)) = a) else 0) = (0 :: int)"
    using False by (intro sum.neutral) auto
  ultimately show ?thesis by simp
next
  case True
  then obtain m where m: "m < l" "up g m b = x" by blast
  have once: "i = m" if "up g i b = x" for i by (rule rooted_meets_once[OF r x that m(2)])
  obtain n where l: "l = m + Suc n" using m(1) less_iff_Suc_add by auto
  have "up h l b = up h n (r_Referrer (h x))"
    unfolding l by (rule up_through[of x h g, OF h x m(2)]) (use once in auto)
  also have "\<dots> = up g n (r_Referrer (h x))" by (rule up_other[of x h g, OF h]) (use new in auto)
  finally have uh: "up h l b = up g n (r_Referrer (h x))" .
  have ug: "up g l b = up g n (r_Referrer (g x))"
    unfolding l up_add m(2) using x by simp
  have "(\<Sum>i<l. if up g i b = x then of_bool (up g (l - Suc i) (r_Referrer (h x)) = a)
      - of_bool (up g (l - Suc i) (r_Referrer (g x)) = a) else 0)
    = (\<Sum>i<l. if i = m then of_bool (up g n (r_Referrer (h x)) = a) - of_bool (up g n (r_Referrer (g x)) = a) else (0 :: int))"
  proof (rule sum.cong[OF refl])
    fix i
    show "(if up g i b = x then of_bool (up g (l - Suc i) (r_Referrer (h x)) = a)
        - of_bool (up g (l - Suc i) (r_Referrer (g x)) = a) else 0)
      = (if i = m then of_bool (up g n (r_Referrer (h x)) = a) - of_bool (up g n (r_Referrer (g x)) = a) else (0 :: int))"
    proof (cases "i = m")
      case True
      then show ?thesis by (simp add: m(2) l)
    next
      case False
      then have "up g i b \<noteq> x" using once by blast
      then show ?thesis using False by simp
    qed
  qed
  also have "\<dots> = of_bool (up g n (r_Referrer (h x)) = a) - of_bool (up g n (r_Referrer (g x)) = a)"
    using m(1) by simp
  finally show ?thesis by (simp add: uh ug)
qed

text \<open>What the level \<open>l\<close> of \<open>a\<close> gains from the chain above \<open>p\<close>: the levels of the moved account.\<close>

definition lent :: "(nat \<Rightarrow> int) \<Rightarrow> (string \<Rightarrow> info) \<Rightarrow> nat \<Rightarrow> string \<Rightarrow> string \<Rightarrow> nat \<Rightarrow> int" where
  "lent \<mu> g i p a l = (\<Sum>k\<in>{i..l}. if a \<noteq> [] \<and> up g (k - i) p = a then \<mu> (l - k) else 0)"

lemma level_sum_moved:
  assumes h: "\<And>a. a \<noteq> x \<Longrightarrow> r_Referrer (h a) = r_Referrer (g a)" and x: "x \<noteq> []"
    and r: "rooted g" and new: "\<And>m. up g m (r_Referrer (h x)) \<noteq> x" and a: "a \<noteq> []"
    and keep: "\<And>a. r_Banished (h a) = r_Banished (g a)" "\<And>a. \<mu> (h a) = \<mu> (g a)"
  shows "level_sum \<mu> h D a l = level_sum \<mu> g D a l
    + lent (level_sum \<mu> g D x) g 1 (r_Referrer (h x)) a l - lent (level_sum \<mu> g D x) g 1 (r_Referrer (g x)) a l"
proof -
  define w where "w b = (if r_Banished (g b) then 0 else \<mu> (g b))" for b
  have ls: "level_sum \<mu> f D y j = (\<Sum>b\<in>D. w b * of_bool (up f j b = y))"
    if "f = g \<or> f = h" for f y j
    unfolding level_sum_def using that keep by (intro sum.cong) (auto simp: w_def)
  have mv: "w b * (of_bool (up h l b = a) - of_bool (up g l b = a))
      = (\<Sum>m<l. w b * of_bool (up g m b = x) *
      (of_bool (up g (l - Suc m) (r_Referrer (h x)) = a) - of_bool (up g (l - Suc m) (r_Referrer (g x)) = a)))" for b
  proof -
    have "w b * (of_bool (up h l b = a) - of_bool (up g l b = a)) =
      w b * (\<Sum>m<l. if up g m b = x then of_bool (up g (l - Suc m) (r_Referrer (h x)) = a)
        - of_bool (up g (l - Suc m) (r_Referrer (g x)) = a) else 0)"
      by (subst moved_walks[of x h g, OF h x r new a]) (assumption | rule refl)+
    also have "\<dots> = (\<Sum>m<l. w b * of_bool (up g m b = x) *
      (of_bool (up g (l - Suc m) (r_Referrer (h x)) = a) - of_bool (up g (l - Suc m) (r_Referrer (g x)) = a)))"
      unfolding sum_distrib_left by (rule sum.cong) simp_all
    finally show ?thesis .
  qed
  have "level_sum \<mu> h D a l - level_sum \<mu> g D a l
      = (\<Sum>b\<in>D. w b * (of_bool (up h l b = a) - of_bool (up g l b = a)))"
    by (simp add: ls sum_subtractf right_diff_distrib)
  also have "\<dots> = (\<Sum>b\<in>D. \<Sum>m<l. w b * of_bool (up g m b = x) *
      (of_bool (up g (l - Suc m) (r_Referrer (h x)) = a) - of_bool (up g (l - Suc m) (r_Referrer (g x)) = a)))"
    unfolding mv ..
  also have "\<dots> = (\<Sum>m<l. level_sum \<mu> g D x m *
      (of_bool (up g (l - Suc m) (r_Referrer (h x)) = a) - of_bool (up g (l - Suc m) (r_Referrer (g x)) = a)))"
    by (subst sum.swap) (simp add: ls sum_distrib_right)
  also have "\<dots> = (\<Sum>k\<in>{1..l}. level_sum \<mu> g D x (l - k) *
      (of_bool (up g (k - 1) (r_Referrer (h x)) = a) - of_bool (up g (k - 1) (r_Referrer (g x)) = a)))"
    by (rule sum.reindex_bij_witness[of _ "\<lambda>k. l - k" "\<lambda>m. l - m"]) auto
  also have "\<dots> = lent (level_sum \<mu> g D x) g 1 (r_Referrer (h x)) a l - lent (level_sum \<mu> g D x) g 1 (r_Referrer (g x)) a l"
    unfolding lent_def sum_subtractf[symmetric] using a by (intro sum.cong) auto
  finally show ?thesis by simp
qed

section \<open>The updates of a transition\<close>

lemma bu_update_lift:
  assumes "bu_update p True (\<lambda>value st. and_then (lift_res (F value) st)
      (\<lambda>v st. (Ok (r_Referrer value, v), st))) st = (Ok x, st')"
  obtains w v where "F (Normalize (bu_get st p)) = Ok w" "x = r_Referrer (bu_get st p)" "same_tree w v"
    "bu_get st' = (bu_get st)(p := v)" "bu_inv st \<Longrightarrow> bu_inv st'"
    "ref_store (fst st') = ref_store (fst st)"
proof -
  define cb where "cb = (\<lambda>value (st :: 'a bu_st). and_then (lift_res (F value) st) (\<lambda>v st. (Ok (r_Referrer value, v), st)))"
  have u: "bu_update p True cb st = (Ok x, st')" using assms by (simp add: cb_def)
  obtain w v t1 where c: "cb (Normalize (bu_get st p)) st = (Ok (x, w), t1)"
    and st1: "same_tree w v" "bu_get st' = (bu_get t1)(p := v)" "bu_inv t1 \<Longrightarrow> bu_inv st'"
    "ref_store (fst st') = ref_store (fst t1)"
    using bu_update_Ok[OF u] by metis
  have "F (Normalize (bu_get st p)) = Ok w" "x = r_Referrer (bu_get st p)" "t1 = st"
    using c by (auto simp: cb_def lift_res_Ok)
  then show ?thesis using that st1 by simp
qed

lemma from_level_at:
  assumes "1 \<le> lvl" "11 \<le> length xs" "11 - lvl \<le> length ys"
  shows "level_at (from_level lvl f xs ys) j =
    (if lvl \<le> j \<and> j \<le> 10 then f (level_at xs j) (level_at ys (j - lvl)) else level_at xs j)"
  using assms by (auto simp: level_at_def from_level_def)

definition turn :: "bool \<Rightarrow> int \<Rightarrow> int" where
  "turn gain x = (if gain then x else - x)"

lemma graft_Ok:
  assumes "graft lvl gain r v = Ok w" "1 \<le> lvl" "11 \<le> length (r_Coins v)" "11 \<le> length (r_Delegated v)"
  shows "r_Referrer w = r_Referrer v" "r_Banished w = r_Banished v" "r_Referrals w = r_Referrals v"
    "coins_at w j = coins_at v j + (if lvl \<le> j \<and> j \<le> 10 then turn gain (coins_at r (j - lvl)) else 0)"
    "delegated_at w j = delegated_at v j + (if lvl \<le> j \<and> j \<le> 10 then turn gain (delegated_at r (j - lvl)) else 0)"
proof -
  let ?f = "if gain then (+) else (-)"
  have w: "w = v\<lparr>r_Coins := from_level lvl ?f (r_Coins v) (r_Coins r),
      r_Delegated := from_level lvl ?f (r_Delegated v) (r_Delegated r),
      r_ActiveRefCounts := from_level lvl (if gain then (+) else (-)) (r_ActiveRefCounts v) (r_ActiveRefCounts r)\<rparr>"
    and l: "11 - lvl \<le> length (r_Coins r)" "11 - lvl \<le> length (r_Delegated r)"
    using assms(1) by (simp_all add: graft_def not_less split: if_splits)
  have t: "?f x y = x + turn gain y" for x y :: int by (simp add: turn_def)
  show "r_Referrer w = r_Referrer v" "r_Banished w = r_Banished v" "r_Referrals w = r_Referrals v"
    by (simp_all add: w)
  show "coins_at w j = coins_at v j + (if lvl \<le> j \<and> j \<le> 10 then turn gain (coins_at r (j - lvl)) else 0)"
    using from_level_at[OF assms(2,3) l(1), of ?f j] by (simp add: w coins_at_def t)
  show "delegated_at w j = delegated_at v j + (if lvl \<le> j \<and> j \<le> 10 then turn gain (delegated_at r (j - lvl)) else 0)"
    using from_level_at[OF assms(2,4) l(2), of ?f j] by (simp add: w delegated_at_def t)
qed

lemma Normalize_long [simp]: "11 \<le> length (r_Coins (Normalize v))" "11 \<le> length (r_Delegated (Normalize v))"
  by (simp_all add: Normalize_def)

text \<open>
  The part of a record these updates leave alone, and what one update of a level does.
\<close>

definition seat :: "info \<Rightarrow> string \<times> bool \<times> int \<times> int" where
  "seat v = (r_Referrer v, r_Banished v, coins_at v 0, delegated_at v 0)"

definition seat_refs :: "info \<Rightarrow> (string \<times> bool \<times> int \<times> int) \<times> string list" where
  "seat_refs v = (seat v, r_Referrals v)"

lemma graft_at_spec:
  assumes "graft_at anc lvl gain r st = (Ok nxt, st')" "1 \<le> lvl"
  shows "nxt = (if anc = [] then [] else r_Referrer (bu_get st anc))
    \<and> (\<forall>a. seat_refs (bu_get st' a) = seat_refs (bu_get st a)
      \<and> (\<forall>j\<le>10. coins_at (bu_get st' a) j = coins_at (bu_get st a) j
        + (if a \<noteq> [] \<and> a = anc \<and> lvl \<le> j then turn gain (coins_at r (j - lvl)) else 0))
      \<and> (\<forall>j\<le>10. delegated_at (bu_get st' a) j = delegated_at (bu_get st a) j
        + (if a \<noteq> [] \<and> a = anc \<and> lvl \<le> j then turn gain (delegated_at r (j - lvl)) else 0)))
    \<and> (bu_inv st \<longrightarrow> bu_inv st') \<and> ref_store (fst st') = ref_store (fst st)"
proof (cases "anc = []")
  case False
  then have u: "bu_update anc True (\<lambda>value st. and_then (lift_res (graft lvl gain r value) st)
      (\<lambda>v st. (Ok (r_Referrer value, v), st))) st = (Ok nxt, st')"
    using assms(1) by (simp add: graft_at_def)
  obtain w v where w: "graft lvl gain r (Normalize (bu_get st anc)) = Ok w" and x: "nxt = r_Referrer (bu_get st anc)"
    and v: "same_tree w v" and st': "bu_get st' = (bu_get st)(anc := v)" "bu_inv st \<Longrightarrow> bu_inv st'"
      "ref_store (fst st') = ref_store (fst st)"
    using bu_update_lift[OF u] by metis
  note G = graft_Ok[OF w assms(2) Normalize_long]
  have vf: "r_Referrer v = r_Referrer (bu_get st anc)" "r_Banished v = r_Banished (bu_get st anc)"
    "r_Referrals v = r_Referrals (bu_get st anc)"
    using same_treeD[OF v] G by simp_all
  have vc: "coins_at v j = coins_at (bu_get st anc) j + (if lvl \<le> j \<and> j \<le> 10 then turn gain (coins_at r (j - lvl)) else 0)"
    "delegated_at v j = delegated_at (bu_get st anc) j + (if lvl \<le> j \<and> j \<le> 10 then turn gain (delegated_at r (j - lvl)) else 0)" for j
    using measures_same[OF v] G(4,5)[of j] by simp_all
  show ?thesis
    using st' x False vf vc[of 0] assms(2) by (auto simp: seat_def seat_refs_def vc)
qed (use assms in \<open>auto simp: graft_at_def\<close>)

lemma lent_Suc:
  assumes "i \<le> j"
  shows "lent \<mu> g i p a j = (if a \<noteq> [] \<and> p = a then \<mu> (j - i) else 0)
    + lent \<mu> g (Suc i) (if p = [] then [] else r_Referrer (g p)) a j"
proof -
  have "{i..j} = insert i {Suc i..j}" using assms by auto
  then have "lent \<mu> g i p a j = (if a \<noteq> [] \<and> p = a then \<mu> (j - i) else 0)
      + (\<Sum>k\<in>{Suc i..j}. if a \<noteq> [] \<and> up g (k - i) p = a then \<mu> (j - k) else 0)"
    by (simp add: lent_def)
  also have "(\<Sum>k\<in>{Suc i..j}. if a \<noteq> [] \<and> up g (k - i) p = a then \<mu> (j - k) else 0)
      = lent \<mu> g (Suc i) (if p = [] then [] else r_Referrer (g p)) a j"
    unfolding lent_def
  proof (rule sum.cong[OF refl])
    fix k assume "k \<in> {Suc i..j}"
    then have "k - i = Suc (k - Suc i)" by auto
    then have "up g (k - i) p = up g (k - Suc i) (if p = [] then [] else r_Referrer (g p))"
      by simp
    then show "(if a \<noteq> [] \<and> up g (k - i) p = a then \<mu> (j - k) else 0) = (if a \<noteq> []
        \<and> up g (k - Suc i) (if p = [] then [] else r_Referrer (g p)) = a then \<mu> (j - k) else 0)"
      by (simp only:)
  qed
  finally show ?thesis .
qed

lemma lent_none [simp]: "j < i \<Longrightarrow> lent \<mu> g i p a j = 0"
  by (simp add: lent_def)

lemma lent_cong: "(\<And>a. r_Referrer (g a) = r_Referrer (h a)) \<Longrightarrow> lent \<mu> g i p a j = lent \<mu> h i p a j"
  by (simp add: lent_def up_cong[of g h])

lemma graft_levels_spec:
  assumes "graft_levels r [i..<11] q p st = (Ok (), st')" "1 \<le> i"
  shows "(\<forall>a. seat_refs (bu_get st' a) = seat_refs (bu_get st a)
      \<and> (\<forall>j\<le>10. coins_at (bu_get st' a) j = coins_at (bu_get st a) j
        - lent (coins_at r) (bu_get st) i q a j + lent (coins_at r) (bu_get st) i p a j)
      \<and> (\<forall>j\<le>10. delegated_at (bu_get st' a) j = delegated_at (bu_get st a) j
        - lent (delegated_at r) (bu_get st) i q a j + lent (delegated_at r) (bu_get st) i p a j))
    \<and> (bu_inv st \<longrightarrow> bu_inv st') \<and> ref_store (fst st') = ref_store (fst st)"
  using assms
proof (induction "11 - i" arbitrary: i q p st)
  case 0
  then show ?case by simp
next
  case (Suc n)
  then have i: "i < 11" by simp
  show ?case
  proof (cases "q = p")
    case True
    then have "st' = st" using Suc.prems(1) i by (simp add: upt_conv_Cons)
    then show ?thesis using True by simp
  next
    case False
    obtain q' st1 p' st2 where a1: "graft_at q i False r st = (Ok q', st1)"
      and a2: "graft_at p i True r st1 = (Ok p', st2)"
      and r: "graft_levels r [Suc i..<11] q' p' st2 = (Ok (), st')"
      using Suc.prems(1) i False by (auto simp: upt_conv_Cons and_then_Ok_iff)
    note S1 = graft_at_spec[OF a1 Suc.prems(2)] and S2 = graft_at_spec[OF a2 Suc.prems(2)]
    have seat1: "seat_refs (bu_get st1 a) = seat_refs (bu_get st a)" "seat_refs (bu_get st2 a) = seat_refs (bu_get st a)" for a
      using S1 S2 by metis+
    have ref: "r_Referrer (bu_get st1 a) = r_Referrer (bu_get st a)" "r_Referrer (bu_get st2 a) = r_Referrer (bu_get st a)" for a
      using seat1[of a] by (simp_all add: seat_def seat_refs_def)
    have nx: "q' = (if q = [] then [] else r_Referrer (bu_get st q))" "p' = (if p = [] then [] else r_Referrer (bu_get st p))"
      using S1 S2 ref(1)[of p] by simp_all
    have n: "n = 11 - Suc i" "1 \<le> Suc i" using Suc.hyps(2) by simp_all
    note IH = Suc.hyps(1)[OF n(1) r n(2)]
    have lc: "lent \<mu> (bu_get st2) l x a j = lent \<mu> (bu_get st) l x a j" for \<mu> l x a j
      by (rule lent_cong) (rule ref(2))
    have step: "lent \<mu> (bu_get st) i x a j = (if a \<noteq> [] \<and> a = x \<and> i \<le> j then \<mu> (j - i) else 0)
        + lent \<mu> (bu_get st) (Suc i) (if x = [] then [] else r_Referrer (bu_get st x)) a j" for \<mu> x a j
      using lent_Suc[of i j \<mu> "bu_get st" x a] by (cases "i \<le> j") auto
    have "coins_at (bu_get st' a) j = coins_at (bu_get st a) j
        - lent (coins_at r) (bu_get st) i q a j + lent (coins_at r) (bu_get st) i p a j"
      "delegated_at (bu_get st' a) j = delegated_at (bu_get st a) j
        - lent (delegated_at r) (bu_get st) i q a j + lent (delegated_at r) (bu_get st) i p a j" if j: "j \<le> 10" for a j
    proof -
      have "coins_at (bu_get st1 a) j = coins_at (bu_get st a) j + (if a \<noteq> [] \<and> a = q \<and> i \<le> j then turn False (coins_at r (j - i)) else 0)"
        "coins_at (bu_get st2 a) j = coins_at (bu_get st1 a) j + (if a \<noteq> [] \<and> a = p \<and> i \<le> j then turn True (coins_at r (j - i)) else 0)"
        "delegated_at (bu_get st1 a) j = delegated_at (bu_get st a) j + (if a \<noteq> [] \<and> a = q \<and> i \<le> j then turn False (delegated_at r (j - i)) else 0)"
        "delegated_at (bu_get st2 a) j = delegated_at (bu_get st1 a) j + (if a \<noteq> [] \<and> a = p \<and> i \<le> j then turn True (delegated_at r (j - i)) else 0)"
        using S1 S2 j by blast+
      moreover have "coins_at (bu_get st' a) j = coins_at (bu_get st2 a) j
          - lent (coins_at r) (bu_get st) (Suc i) q' a j + lent (coins_at r) (bu_get st) (Suc i) p' a j"
        "delegated_at (bu_get st' a) j = delegated_at (bu_get st2 a) j
          - lent (delegated_at r) (bu_get st) (Suc i) q' a j + lent (delegated_at r) (bu_get st) (Suc i) p' a j"
        using IH j unfolding lc by blast+
      ultimately show "coins_at (bu_get st' a) j = coins_at (bu_get st a) j
          - lent (coins_at r) (bu_get st) i q a j + lent (coins_at r) (bu_get st) i p a j"
        "delegated_at (bu_get st' a) j = delegated_at (bu_get st a) j
          - lent (delegated_at r) (bu_get st) i q a j + lent (delegated_at r) (bu_get st) i p a j"
        unfolding step[of _ q] step[of _ p] nx turn_def by auto
    qed
    moreover have "seat_refs (bu_get st' a) = seat_refs (bu_get st a)" for a using IH seat1(2)[of a] by metis
    ultimately show ?thesis using IH S1 S2 by simp
  qed
qed

section \<open>The whole transition\<close>

text \<open>A record that lost or gained the levels of \<open>r\<close> from level one on, and nothing else that counts.\<close>

definition grafted :: "bool \<Rightarrow> info \<Rightarrow> info \<Rightarrow> info \<Rightarrow> bool" where
  "grafted gain r v w \<longleftrightarrow> r_Referrer w = r_Referrer v \<and> r_Banished w = r_Banished v
    \<and> (\<forall>j. coins_at w j = coins_at v j + (if 1 \<le> j \<and> j \<le> 10 then turn gain (coins_at r (j - 1)) else 0))
    \<and> (\<forall>j. delegated_at w j = delegated_at v j + (if 1 \<le> j \<and> j \<le> 10 then turn gain (delegated_at r (j - 1)) else 0))"

lemma graft_grafted:
  assumes "graft 1 gain r (Normalize v\<lparr>r_Referrals := x, r_ActiveReferrals := y\<rparr>) = Ok w"
  shows "grafted gain r v w"
proof -
  let ?v = "Normalize v\<lparr>r_Referrals := x, r_ActiveReferrals := y\<rparr>"
  have l: "(1::nat) \<le> 1" "11 \<le> length (r_Coins ?v)" "11 \<le> length (r_Delegated ?v)" by simp_all
  have m: "coins_at ?v j = coins_at v j" "delegated_at ?v j = delegated_at v j" for j
    using measures_norm[of v] by (simp_all add: coins_at_def delegated_at_def)
  show ?thesis
    using graft_Ok[OF assms l] m by (simp add: grafted_def)
qed

lemma cut_graft:
  assumes "bind_res (cut_referral subject r (Normalize v)) (graft 1 False r) = Ok w"
  shows "grafted False r v w"
proof -
  obtain c where c: "cut_referral subject r (Normalize v) = Ok c" and g: "graft 1 False r c = Ok w"
    using assms by (auto simp: bind_res_Ok_iff)
  obtain x y where "c = Normalize v\<lparr>r_Referrals := x, r_ActiveReferrals := y\<rparr>"
    using c by (auto simp: cut_referral_def Let_def split: option.splits)
  then show ?thesis using g graft_grafted by simp
qed

lemma update_graft:
  assumes u: "bu_update p True (\<lambda>value st. and_then (lift_res (F value) st)
      (\<lambda>v st. (Ok (r_Referrer value, v), st))) st = (Ok x, st')" and p: "p \<noteq> []"
    and F: "\<forall>w. F (Normalize (bu_get st p)) = Ok w \<longrightarrow> grafted gain r (bu_get st p) w"
  shows "x = r_Referrer (bu_get st p)
    \<and> (\<forall>a. seat (bu_get st' a) = seat (bu_get st a)
      \<and> (\<forall>j\<le>10. coins_at (bu_get st' a) j = coins_at (bu_get st a) j
        + (if a \<noteq> [] \<and> p = a \<and> 1 \<le> j then turn gain (coins_at r (j - 1)) else 0))
      \<and> (\<forall>j\<le>10. delegated_at (bu_get st' a) j = delegated_at (bu_get st a) j
        + (if a \<noteq> [] \<and> p = a \<and> 1 \<le> j then turn gain (delegated_at r (j - 1)) else 0)))
    \<and> (bu_inv st \<longrightarrow> bu_inv st') \<and> ref_store (fst st') = ref_store (fst st)
    \<and> (\<exists>w. F (Normalize (bu_get st p)) = Ok w \<and> r_Referrals (bu_get st' p) = r_Referrals w)"
proof -
  obtain w v where w: "F (Normalize (bu_get st p)) = Ok w" and x: "x = r_Referrer (bu_get st p)"
    and v: "same_tree w v" and st': "bu_get st' = (bu_get st)(p := v)" "bu_inv st \<Longrightarrow> bu_inv st'"
      "ref_store (fst st') = ref_store (fst st)"
    using bu_update_lift[OF u] by metis
  note G = F[rule_format, OF w, unfolded grafted_def]
  have vf: "r_Referrer v = r_Referrer (bu_get st p)" "r_Banished v = r_Banished (bu_get st p)"
    using same_treeD[OF v] G by simp_all
  have vc: "coins_at v j = coins_at (bu_get st p) j + (if 1 \<le> j \<and> j \<le> 10 then turn gain (coins_at r (j - 1)) else 0)"
    "delegated_at v j = delegated_at (bu_get st p) j + (if 1 \<le> j \<and> j \<le> 10 then turn gain (delegated_at r (j - 1)) else 0)" for j
    using measures_same[OF v] G by simp_all
  have "r_Referrals v = r_Referrals w" using same_treeD[OF v] by simp
  then show ?thesis
    using w st' x p vf vc[of 0] by (auto simp: seat_def vc)
qed

lemma affirm_core_spec:
  assumes ok: "affirm_core subject r old new st = (Ok (), st')" and ne: "old \<noteq> []" "new \<noteq> []"
  shows "(\<forall>a. seat (bu_get st' a) = seat (bu_get st a)
      \<and> (\<forall>j\<le>10. coins_at (bu_get st' a) j = coins_at (bu_get st a) j
        - lent (coins_at r) (bu_get st) 1 old a j + lent (coins_at r) (bu_get st) 1 new a j)
      \<and> (\<forall>j\<le>10. delegated_at (bu_get st' a) j = delegated_at (bu_get st a) j
        - lent (delegated_at r) (bu_get st) 1 old a j + lent (delegated_at r) (bu_get st) 1 new a j))
    \<and> (bu_inv st \<longrightarrow> bu_inv st') \<and> ref_store (fst st') = ref_store (fst st)
    \<and> r_Referrals (bu_get st' new) \<noteq> []"
proof -
  let ?refs = "\<lambda>value. value\<lparr>r_Referrals := r_Referrals value @ [subject],
      r_ActiveReferrals := (if r_Active r then r_ActiveReferrals value @ [subject] else r_ActiveReferrals value)\<rparr>"
  obtain q st1 p st2 where
    u1: "bu_update old True (\<lambda>value st. and_then (lift_res (bind_res (cut_referral subject r value) (graft 1 False r)) st)
           (\<lambda>v st. (Ok (r_Referrer value, v), st))) st = (Ok q, st1)"
    and u2: "bu_update new True (\<lambda>value st. and_then (lift_res (graft 1 True r (?refs value)) st)
           (\<lambda>v st. (Ok (r_Referrer value, v), st))) st1 = (Ok p, st2)"
    and gl: "graft_levels r [2..<11] q p st2 = (Ok (), st')"
    using ok unfolding affirm_core_def Let_def and_then_Ok_iff[of "bu_update _ _ _ _"] by blast
  have G1: "\<forall>w. bind_res (cut_referral subject r (Normalize (bu_get st old))) (graft 1 False r) = Ok w
      \<longrightarrow> grafted False r (bu_get st old) w"
    by (intro allI impI) (rule cut_graft)
  have G2: "\<forall>w. graft 1 True r (?refs (Normalize (bu_get st1 new))) = Ok w
      \<longrightarrow> grafted True r (bu_get st1 new) w"
    by (intro allI impI) (rule graft_grafted)
  note S1 = update_graft[where F = "\<lambda>value. bind_res (cut_referral subject r value) (graft 1 False r)",
      OF u1 ne(1) G1]
  note S2 = update_graft[where F = "\<lambda>value. graft 1 True r (?refs value)", OF u2 ne(2) G2]
  have l: "(1::nat) \<le> 2" by simp
  note S3 = graft_levels_spec[OF gl l]
  have seat1: "seat (bu_get st1 a) = seat (bu_get st a)" "seat (bu_get st2 a) = seat (bu_get st a)" for a
    using S1 S2 by metis+
  have ref: "r_Referrer (bu_get st1 a) = r_Referrer (bu_get st a)" "r_Referrer (bu_get st2 a) = r_Referrer (bu_get st a)" for a
    using seat1[of a] by (simp_all add: seat_def)
  have qp: "q = r_Referrer (bu_get st old)" "p = r_Referrer (bu_get st new)" using S1 S2 ref(1)[of new] by simp_all
  have lc: "lent \<mu> (bu_get st2) i y a j = lent \<mu> (bu_get st) i y a j" for \<mu> i y a j
    by (rule lent_cong) (rule ref(2))
  have step: "lent \<mu> (bu_get st) 1 y a j = (if a \<noteq> [] \<and> y = a \<and> 1 \<le> j then \<mu> (j - 1) else 0)
      + lent \<mu> (bu_get st) 2 (r_Referrer (bu_get st y)) a j" if "y \<noteq> []" for \<mu> y a j
    using lent_Suc[of 1 j \<mu> "bu_get st" y a] that by (cases "1 \<le> j") (auto simp: numeral_2_eq_2)
  have "coins_at (bu_get st' a) j = coins_at (bu_get st a) j
      - lent (coins_at r) (bu_get st) 1 old a j + lent (coins_at r) (bu_get st) 1 new a j"
    "delegated_at (bu_get st' a) j = delegated_at (bu_get st a) j
      - lent (delegated_at r) (bu_get st) 1 old a j + lent (delegated_at r) (bu_get st) 1 new a j" if j: "j \<le> 10" for a j
  proof -
    have "coins_at (bu_get st1 a) j = coins_at (bu_get st a) j + (if a \<noteq> [] \<and> old = a \<and> 1 \<le> j then turn False (coins_at r (j - 1)) else 0)"
      "coins_at (bu_get st2 a) j = coins_at (bu_get st1 a) j + (if a \<noteq> [] \<and> new = a \<and> 1 \<le> j then turn True (coins_at r (j - 1)) else 0)"
      "delegated_at (bu_get st1 a) j = delegated_at (bu_get st a) j + (if a \<noteq> [] \<and> old = a \<and> 1 \<le> j then turn False (delegated_at r (j - 1)) else 0)"
      "delegated_at (bu_get st2 a) j = delegated_at (bu_get st1 a) j + (if a \<noteq> [] \<and> new = a \<and> 1 \<le> j then turn True (delegated_at r (j - 1)) else 0)"
      using S1 S2 j by blast+
    moreover have "coins_at (bu_get st' a) j = coins_at (bu_get st2 a) j
        - lent (coins_at r) (bu_get st) 2 q a j + lent (coins_at r) (bu_get st) 2 p a j"
      "delegated_at (bu_get st' a) j = delegated_at (bu_get st2 a) j
        - lent (delegated_at r) (bu_get st) 2 q a j + lent (delegated_at r) (bu_get st) 2 p a j"
      using S3 j unfolding lc by blast+
    ultimately show "coins_at (bu_get st' a) j = coins_at (bu_get st a) j
        - lent (coins_at r) (bu_get st) 1 old a j + lent (coins_at r) (bu_get st) 1 new a j"
      "delegated_at (bu_get st' a) j = delegated_at (bu_get st a) j
        - lent (delegated_at r) (bu_get st) 1 old a j + lent (delegated_at r) (bu_get st) 1 new a j"
      unfolding step[OF ne(1)] step[OF ne(2)] qp turn_def by auto
  qed
  moreover have "seat (bu_get st' a) = seat (bu_get st a)" for a
  proof -
    have "seat_refs (bu_get st' a) = seat_refs (bu_get st2 a)" using S3 by blast
    then show ?thesis using seat1(2)[of a] by (simp add: seat_refs_def)
  qed
  moreover have "r_Referrals (bu_get st' new) \<noteq> []"
  proof -
    obtain w where w: "graft 1 True r (?refs (Normalize (bu_get st1 new))) = Ok w"
      and rw: "r_Referrals (bu_get st2 new) = r_Referrals w"
      using S2 by blast
    have "r_Referrals w = r_Referrals (?refs (Normalize (bu_get st1 new)))"
      using w by (auto simp: graft_def split: if_splits)
    moreover have "r_Referrals (bu_get st' new) = r_Referrals (bu_get st2 new)"
      using S3 unfolding seat_refs_def by blast
    ultimately show ?thesis using rw by simp
  qed
  ultimately show ?thesis using S1 S2 S3 by simp
qed

lemma lent_levels:
  assumes "\<forall>j < l. \<mu> j = \<nu> j"
  shows "lent \<mu> g 1 p a l = lent \<nu> g 1 p a l"
  unfolding lent_def by (rule sum.cong[OF refl]) (use assms in auto)

lemma lent_other:
  assumes "\<And>a. a \<noteq> x \<Longrightarrow> r_Referrer (h a) = r_Referrer (g a)" "\<And>m. up g m p \<noteq> x"
  shows "lent \<mu> h i p a l = lent \<mu> g i p a l"
proof -
  have "up h n p = up g n p" for n using up_other[of x h g n p, OF assms(1)] assms(2) by simp
  then show ?thesis by (simp add: lent_def)
qed

lemma rooted_moved:
  assumes h: "\<And>a. a \<noteq> x \<Longrightarrow> r_Referrer (h a) = r_Referrer (g a)" and x: "x \<noteq> []"
    and r: "rooted g" and new: "\<And>m. up g m (r_Referrer (h x)) \<noteq> x"
  shows "rooted h"
  unfolding rooted_def
proof
  fix a
  show "\<exists>n. up h n a = []"
  proof (cases "\<exists>m. up g m a = x")
    case False
    then have "up h n a = up g n a" for n using up_other[of x h g n a, OF h] by simp
    then show ?thesis using r by (simp add: rooted_def)
  next
    case True
    then obtain m where m: "up g m a = x" by blast
    have before: "\<forall>i < m. up g i a \<noteq> x" using rooted_meets_once[OF r x _ m] by blast
    obtain n where n: "up g n (r_Referrer (h x)) = []" using r by (auto simp: rooted_def)
    have "up h (m + Suc n) a = up h n (r_Referrer (h x))"
      using up_through[of x h g m a n, OF h x m before] by simp
    also have "\<dots> = []" using up_other[of x h g n, OF h] new n by simp
    finally show ?thesis by blast
  qed
qed

lemma validateTransition_Ok:
  assumes "validateTransition k subject new fresh s = Ok ()" "subject \<noteq> []"
  shows "subject \<noteq> new \<and> r_Referrer (ref_Get subject s) \<noteq> new \<and> (\<forall>m. up (\<lambda>a. ref_Get a s) m new \<noteq> subject)
    \<and> AccAddressFromBech32 (rk_sdk k) new \<noteq> None"
proof -
  have n: "subject \<noteq> new" "r_Referrer (ref_Get subject s) \<noteq> new" "AccAddressFromBech32 (rk_sdk k) new \<noteq> None"
    and w: "walk_to_root (rk_fuel k) (\<lambda>a. ref_Get a s) subject (r_Referrer (ref_Get new s)) = Ok ()"
    using assms(1) by (auto simp: validateTransition_def Let_def split: if_splits)
  have "up (\<lambda>a. ref_Get a s) m new \<noteq> subject" for m
    using walk_to_root_avoids[OF w assms(2)] n(1) assms(2) by (cases m) auto
  with n show ?thesis by simp
qed

text \<open>
  The levels of \<open>x\<close> taken from the ancestors of \<open>old\<close> and given to those of \<open>new\<close>: the amounts are
  sums again, in a store that may have grown.
\<close>

lemma sums_of_moved:
  assumes su: "sums_of g D" and ro: "rooted g" and x: "x \<noteq> []" "x \<in> D" "\<not> r_Banished (g x)" and D: "finite D'" "D \<subseteq> D'"
    and hx: "\<And>a. a \<noteq> x \<Longrightarrow> r_Referrer (h a) = r_Referrer (g a)"
    and avoid: "\<And>m. up g m (r_Referrer (h x)) \<noteq> x" "\<And>m. up g m (r_Referrer (g x)) \<noteq> x"
    and K: "\<And>a. r_Banished (h a) = r_Banished (g a)" "\<And>a. own_coins (h a) = own_coins (g a)"
      "\<And>a. own_delegated (h a) = own_delegated (g a)"
    and outside: "\<And>b. b \<notin> D \<Longrightarrow> own_coins (g b) = 0 \<and> own_delegated (g b) = 0"
    and moved: "\<And>a l. l \<le> 10 \<Longrightarrow> coins_at (h a) l = coins_at (g a) l
        - lent (coins_at (g x)) g 1 (r_Referrer (g x)) a l + lent (coins_at (g x)) g 1 (r_Referrer (h x)) a l"
      "\<And>a l. l \<le> 10 \<Longrightarrow> delegated_at (h a) l = delegated_at (g a) l
        - lent (delegated_at (g x)) g 1 (r_Referrer (g x)) a l + lent (delegated_at (g x)) g 1 (r_Referrer (h x)) a l"
  shows "sums_of h D'"
proof -
  have fD: "finite D" using D by (rule finite_subset[rotated])
  have zero: "level_sum \<mu> g D x 0 = \<mu> (g x)" for \<mu>
  proof -
    have "level_sum \<mu> g D x 0 = (\<Sum>b\<in>D. if b = x then \<mu> (g x) else 0)"
      unfolding level_sum_def by (rule sum.cong) (use x(3) in auto)
    then show ?thesis using fD x(2) by simp
  qed
  have lev: "level_sum own_coins g D x j = coins_at (g x) j" "level_sum own_delegated g D x j = delegated_at (g x) j" if "j \<le> 10" for j
    using zero[of own_coins] zero[of own_delegated] sums_ofD[OF su x(1), of j] that x(3)
    by (cases j; simp add: own_coins_def own_delegated_def)+
  show ?thesis
    unfolding sums_of_def
  proof (intro allI impI)
    fix a :: string and l :: nat
    assume a: "a \<noteq> []" and l: "1 \<le> l" "l \<le> 10"
    have more: "level_sum own_coins h D' a l = level_sum own_coins h D a l"
      "level_sum own_delegated h D' a l = level_sum own_delegated h D a l"
      by (rule level_sum_more[OF D]; use outside K in auto)+
    have mv: "level_sum \<mu> h D a l = level_sum \<mu> g D a l
        + lent (level_sum \<mu> g D x) g 1 (r_Referrer (h x)) a l - lent (level_sum \<mu> g D x) g 1 (r_Referrer (g x)) a l"
      if "\<And>a. \<mu> (h a) = \<mu> (g a)" for \<mu>
      using level_sum_moved[of x h g a \<mu> D l, OF hx x(1) ro _ a K(1) that] avoid(1) by simp
    have le: "lent (level_sum own_coins g D x) g 1 p a l = lent (coins_at (g x)) g 1 p a l"
      "lent (level_sum own_delegated g D x) g 1 p a l = lent (delegated_at (g x)) g 1 p a l" for p
      by (rule lent_levels, use lev l in simp)+
    show "coins_at (h a) l = level_sum own_coins h D' a l \<and> delegated_at (h a) l = level_sum own_delegated h D' a l"
      using more mv[OF K(2)] mv[OF K(3)] sums_ofD[OF su a l] le moved[OF l(2)] by simp
  qed
qed

context tree_callbacks
begin

lemma AffirmTransition_sums:
  assumes ok: "AffirmTransition k x s = (Ok (), s')" and s: "tree_sums s" and ro: "rooted (\<lambda>a. ref_Get a s)"
    and x: "x \<noteq> []" "\<not> r_Banished (ref_Get x s)" "r_Referrer (ref_Get x s) \<noteq> []"
    and nil: "AccAddressFromBech32 (rk_sdk k) [] = None"
  shows "tree_sums s' \<and> rooted (\<lambda>a. ref_Get a s') \<and> r_Referrer (ref_Get x s') = r_Transition (ref_Get x s)
    \<and> r_Transition (ref_Get x s) \<noteq> []
    \<and> (\<forall>a. a \<noteq> x \<longrightarrow> r_Referrer (ref_Get a s') = r_Referrer (ref_Get a s))"
proof -
  let ?g = "\<lambda>a. ref_Get a s" and ?h = "\<lambda>a. ref_Get a s'"
  define old where "old = r_Referrer (?g x)"
  define new where "new = r_Transition (?g x)"
  define r where "r = (?g x)\<lparr>r_Referrer := new, r_Transition := []\<rparr>"
  obtain s1 where v: "validateTransition k x new False s = Ok ()"
    and w: "with_bu k (affirm_core x r old new) (ref_set x r s) = (Ok (), s1)" and st: "ref_store s' = ref_store s1"
    using ok unfolding AffirmTransition_def Let_def lift_res_Ok old_def[symmetric] new_def[symmetric] r_def[symmetric]
    by (auto simp: and_then_Ok_iff emit_def)
  note V = validateTransition_Ok[OF v x(1)]
  have ne: "old \<noteq> []" "new \<noteq> []" using x(3) V nil by (auto simp: old_def)
  let ?sx = "ref_set x r s"
  have core: "affirm_core x r old new (?sx, newBunchUpdater) = (Ok (), st) \<Longrightarrow> bu_inv st" for st
    using affirm_core_spec[OF _ ne, of x r "(?sx, newBunchUpdater)" st] by simp
  obtain st m where a: "affirm_core x r old new (?sx, newBunchUpdater) = (Ok (), st)"
    and h1: "\<And>a. ref_Get a s1 = bu_get st a" and m: "finite (dom m)" "ref_store s1 = ref_store (fst st) ++ m"
    using with_bu_Ok[OF w core] by metis
  have h: "?h a = bu_get st a" for a using h1[of a] st by (simp add: ref_Get_def)
  have gx: "bu_get (?sx, newBunchUpdater) = ?g(x := r)"
    by (rule ext) (simp add: bu_get_new ref_Get_def ref_set_def)
  note A = affirm_core_spec[OF a ne, unfolded gx]
  have seat: "seat (?h a) = seat ((?g(x := r)) a)" for a using A h[of a] by simp
  have rc: "coins_at r j = coins_at (?g x) j" "delegated_at r j = delegated_at (?g x) j"
    "r_Banished r = r_Banished (?g x)" "r_Referrer r = new" for j
    by (simp_all add: r_def coins_at_def delegated_at_def)
  have rcf: "coins_at r = coins_at (?g x)" "delegated_at r = delegated_at (?g x)" using rc by (simp_all add: fun_eq_iff)
  have K: "r_Referrer (?h a) = (if a = x then new else r_Referrer (?g a))" "r_Banished (?h a) = r_Banished (?g a)"
    "own_coins (?h a) = own_coins (?g a)" "own_delegated (?h a) = own_delegated (?g a)" for a
    using seat[of a] rc by (auto simp: seat_def own_coins_def own_delegated_def split: if_splits)
  have avoid: "up ?g m new \<noteq> x" "up ?g m old \<noteq> x" for m
  proof -
    show "up ?g m new \<noteq> x" using V by blast
    show "up ?g m old \<noteq> x"
      using rooted_no_cycle[OF ro x(1), of "Suc m"] x(1) by (simp add: old_def)
  qed
  have hx: "a \<noteq> x \<Longrightarrow> r_Referrer (?h a) = r_Referrer (?g a)" "a \<noteq> x \<Longrightarrow> r_Referrer ((?g(x := r)) a) = r_Referrer (?g a)" for a
    using K(1)[of a] by simp_all
  have newh: "r_Referrer (?h x) = new" using K(1)[of x] by simp
  have root: "rooted ?h"
    by (rule rooted_moved[of x ?h ?g, OF hx(1) x(1) ro]) (use newh avoid in simp_all)
  have D: "finite (dom (ref_store s'))" "dom (ref_store s) \<subseteq> dom (ref_store s')"
    using s m A st by (auto simp: tree_sums_def ref_set_def)
  have "?g x \<noteq> zero_info" using x(3) by (auto simp: zero_info_def)
  then have xd: "x \<in> dom (ref_store s)" by (rule Get_dom)
  have su: "sums_of ?g (dom (ref_store s))" using s by (simp add: tree_sums_def)
  have lo: "lent \<mu> (?g(x := r)) 1 p a l = lent \<mu> ?g 1 p a l" if "\<And>m. up ?g m p \<noteq> x" for \<mu> p a l
    using lent_other[of x "?g(x := r)" ?g, OF hx(2)] that by blast
  have "coins_at (?h a) l = coins_at (?g a) l - lent (coins_at (?g x)) ?g 1 old a l + lent (coins_at (?g x)) ?g 1 new a l
    \<and> delegated_at (?h a) l = delegated_at (?g a) l - lent (delegated_at (?g x)) ?g 1 old a l + lent (delegated_at (?g x)) ?g 1 new a l"
    if "l \<le> 10" for a l
    using A that unfolding h lo[OF avoid(1)] lo[OF avoid(2)] by (auto simp: rcf)
  moreover have out: "own_coins (?g b) = 0" "own_delegated (?g b) = 0" if "ref_store s b = None" for b
    using absent_own[of b s] that by auto
  ultimately have "sums_of ?h (dom (ref_store s'))"
    using newh old_def K(2-4) avoid out
    by (intro sums_of_moved[OF su ro x(1) xd x(2) D hx(1)]) auto
  moreover have "r_Referrer (?h b) = [] \<or> r_Referrer (?h b) \<in> dom (ref_store s')" for b
  proof (cases "b = x")
    case True
    have "?h new \<noteq> zero_info" using A h[of new] by (auto simp: zero_info_def)
    then have "new \<in> dom (ref_store s')" by (rule Get_dom)
    then show ?thesis using True newh by simp
  next
    case False
    have "r_Referrer (?g b) = [] \<or> r_Referrer (?g b) \<in> dom (ref_store s)"
      using s unfolding tree_sums_def by blast
    then show ?thesis using D(2) hx(1)[OF False] by auto
  qed
  ultimately show ?thesis using D(1) root newh ne(2) hx(1) by (simp add: tree_sums_def new_def)
qed

end

end
