(* ===== verification/Referral_Props.thy ===== *)
theory Referral_Props
  imports Referral_Transition
begin

text \<open>
  The properties of \<open>x/referral\<close>, with a keeper and a small tree on which their hypotheses
  hold.
\<close>

section \<open>An example\<close>

definition ex_ref_bank :: "(unit ref_ctx_ext) bank_keeper" where
  "ex_ref_bank = \<lparr>bk_sdk = ref_sdk, bk_module_addr = Map.empty, bk_perm = (\<lambda>m p. True),
     bk_blockedAddrs = (\<lambda>a. False), bk_setCoinHooks = []\<rparr>"

definition ex_ref :: "unit ref_keeper" where
  "ex_ref = \<lparr>rk_bank = ex_ref_bank,
     rk_hooks = [(StakeChangedCallback, \<lambda>a s. (Ok (), emit (''stake'', [AStr a]) s)),
                 (StatusUpdatedCallback, \<lambda>a s. (Ok (), emit (''status'', [AStr a]) s))],
     rk_IsActiveValidator = (\<lambda>a s. Ok (a = ''r'')), rk_fuel = 100\<rparr>"

text \<open>
  Two top level accounts and one below the first. The coins in the bank are newer than the
  amounts recorded for \<open>artr1a\<close>.
\<close>

definition ex_info :: "string \<Rightarrow> string list \<Rightarrow> int list \<Rightarrow> info" where
  "ex_info p kids cs = (NewInfo p 0 0)\<lparr>r_Referrals := kids, r_Coins := pad 11 0 cs\<rparr>"

definition ex_tree :: ref_ctx where
  "ex_tree = \<lparr>block_time = 1000, block_height = 7, events = [],
     sched_params_store = None, sched_store = Map.empty,
     accounts = {''a'', ''r'', ''q''},
     balances = [''a'' \<mapsto> [(ConfigMainDenom, 50)], ''r'' \<mapsto> [(ConfigMainDenom, 10)]],
     total_supply = Some [(ConfigMainDenom, 60)], bank_params_store = None, denom_metadata = Map.empty,
     ref_store = [''artr1r'' \<mapsto> ex_info [] [''artr1a''] [10, 30],
                  ''artr1q'' \<mapsto> ex_info [] [] [],
                  ''artr1a'' \<mapsto> ex_info ''artr1r'' [] [30]],
     ref_index = {}, ref_params_store = None\<rparr>"

lemma ex_ref_sel [simp]:
  "rk_bank ex_ref = ex_ref_bank" "bk_sdk ex_ref_bank = ref_sdk" "rk_fuel ex_ref = 100"
  "rk_hooks ex_ref = [(StakeChangedCallback, \<lambda>a s. (Ok (), emit (''stake'', [AStr a]) s)),
                 (StatusUpdatedCallback, \<lambda>a s. (Ok (), emit (''status'', [AStr a]) s))]"
  "rk_IsActiveValidator ex_ref a s = Ok (a = ''r'')"
  "AccAddressFromBech32 ref_sdk a = (if take 5 a = ''artr1'' \<and> 5 < length a then Some (drop 5 a) else None)"
  by (simp_all add: ex_ref_def ex_ref_bank_def ref_sdk_def)

lemma ex_tree_sel [simp]:
  "block_time ex_tree = 1000" "events ex_tree = []" "ref_index ex_tree = {}" "ref_params_store ex_tree = None"
  "bank_params_store ex_tree = None" "sched_params_store ex_tree = None" "sched_store ex_tree = Map.empty"
  "ref_store ex_tree = [''artr1r'' \<mapsto> ex_info [] [''artr1a''] [10, 30],
                  ''artr1q'' \<mapsto> ex_info [] [] [], ''artr1a'' \<mapsto> ex_info ''artr1r'' [] [30]]"
  by (simp_all add: ex_tree_def)

lemma ex_balances [simp]:
  "getBalance ex_ref ''artr1a'' ex_tree = Ok 50" "getDelegated ex_ref ''artr1a'' ex_tree = Ok 0"
  "getBalance ex_ref ''artr1b'' ex_tree = Ok 0" "getDelegated ex_ref ''artr1b'' ex_tree = Ok 0"
  by code_simp+

text \<open>Unfolding rules to run the operations on the example.\<close>

lemmas update_run = bu_update_def status_update_def downgrade_later_def cancel_downgrade_def upgrade_now_def
  promote_def change_status_def setStatus_def lift_res_def commit_after_def bu_commit_def credit_levels_def
  credit_def note_stake_def addCallback_def bu_set_def bu_get_def put_data_def newBunchUpdater_def write_data_def
  callback_def with_bu_def on_ctx_def IsEmpty_def

lemmas status_run = checkStatusRequirements_def statusRequirements_def statusRequirementsXByX_def coins_criterion_def
  DelegatedAtLevelsUpTo_def sum_upto_def LinesOpened_def status_defs MaximumStatus_def minIndexedStatus_def
  Uint64_def in_uint64_def Int64_def in_int64_def

lemmas record_run = ref_Get_def ref_set_def ref_exists_def Normalize_def pad_def add_at_def emit_def EventStatusUpdated_def
  ex_info_def NewInfo_def zero_info_def StakeChangedCallback_def StatusUpdatedCallback_def upt_rec numeral_eq_Suc

lemma ex_runs:
  "fst (OnBalanceChanged ex_ref ''artr1a'' ex_tree) = Ok ()"
  "fst (appendChild ex_ref ''artr1r'' ''artr1b'' True True ex_tree) = Ok ()"
  by (simp_all add: OnBalanceChanged_def obc_self_def appendChild_def appendChild_core_def
      CompressionPeriod_def OneMonth_def OneDay_def sched_GetParams_def DefaultParameters_def
      update_run status_run record_run cong: run_congs)

lemma ex_banish: "fst (with_bu ex_ref (banish_core ex_ref ''artr1a'') ex_tree) = Ok ()"
  by (simp add: banish_core_def Banish_self_def detach_def bank_GetParams_def zero_bank_params_def RemoveStringFast_def
      update_run status_run record_run cong: run_congs)

lemma ex_active: "fst (SetActive ex_ref ''artr1a'' True True ex_tree) = Ok ()"
  by (simp add: SetActive_def set_active_self_def set_active_levels_def active_level_def nth_res_def
      CompressionPeriod_def
      update_run status_run record_run cong: run_congs)

text \<open>The same tree with a transition requested, the price of it not asked for.\<close>

definition ex_moving :: ref_ctx where
  "ex_moving = ex_tree\<lparr>ref_store := (ref_store ex_tree)(''artr1a'' \<mapsto>
     (ex_info ''artr1r'' [] [30])\<lparr>r_Transition := ''artr1q''\<rparr>)\<rparr>"

lemma ex_moving_sel [simp]:
  "block_time ex_moving = 1000" "events ex_moving = []" "ref_index ex_moving = {}"
  "sched_params_store ex_moving = None" "sched_store ex_moving = Map.empty"
  "ref_store ex_moving = [''artr1r'' \<mapsto> ex_info [] [''artr1a''] [10, 30],
      ''artr1q'' \<mapsto> ex_info [] [] [], ''artr1a'' \<mapsto> (ex_info ''artr1r'' [] [30])\<lparr>r_Transition := ''artr1q''\<rparr>]"
  by (simp_all add: ex_moving_def)

lemma ex_affirm: "fst (AffirmTransition ex_ref ''artr1a'' ex_moving) = Ok ()"
  by (simp add: AffirmTransition_def validateTransition_def RegistrationClosed_def affirm_core_def cut_referral_def
      graft_def from_level_def index_of.simps RemoveStringFast_def
      update_run status_run record_run cong: run_congs) (simp add: Let_def)


text \<open>The hypotheses of the properties, on these two trees.\<close>

lemma ex_callbacks: "tree_callbacks ex_ref"
  by (rule tree_callbacks.intro) (auto simp: emit_def)

interpretation exr: tree_callbacks ex_ref
  by (rule ex_callbacks)

lemma ex_Get:
  "ref_Get a ex_tree = (if a = ''artr1r'' then ex_info [] [''artr1a''] [10, 30]
     else if a = ''artr1q'' then ex_info [] [] [] else if a = ''artr1a'' then ex_info ''artr1r'' [] [30] else zero_info)"
  "ref_Get a ex_moving = (if a = ''artr1a'' then (ex_info ''artr1r'' [] [30])\<lparr>r_Transition := ''artr1q''\<rparr>
     else ref_Get a ex_tree)"
  by (simp_all add: ref_Get_def)

lemma ex_info_sel [simp]:
  "r_Referrer (ex_info p kids cs) = p" "r_Referrals (ex_info p kids cs) = kids" "r_Coins (ex_info p kids cs) = pad 11 0 cs"
  "r_Banished (ex_info p kids cs) = False" "r_Active (ex_info p kids cs) = False" "r_Transition (ex_info p kids cs) = []"
  "r_Delegated (ex_info p kids cs) = replicate 11 0" "r_ActiveRefCounts (ex_info p kids cs) = replicate 11 0"
  by (simp_all add: ex_info_def NewInfo_sel record_run)

lemma ex_Referrer:
  "r_Referrer (ref_Get a ex_tree) = (if a = ''artr1a'' then ''artr1r'' else [])"
  "r_Referrer (ref_Get a ex_moving) = (if a = ''artr1a'' then ''artr1r'' else [])"
  by (simp_all add: ex_Get zero_info_def)

lemma ex_up:
  assumes "1 \<le> l"
  shows "up (\<lambda>a. ref_Get a ex_tree) l b = (if l = 1 \<and> b = ''artr1a'' then ''artr1r'' else [])"
    "up (\<lambda>a. ref_Get a ex_moving) l b = (if l = 1 \<and> b = ''artr1a'' then ''artr1r'' else [])"
proof -
  have "l = 1 \<or> (\<exists>m. l = Suc (Suc m))" using assms by (cases l; cases "l - 1") auto
  then show "up (\<lambda>a. ref_Get a ex_tree) l b = (if l = 1 \<and> b = ''artr1a'' then ''artr1r'' else [])"
    "up (\<lambda>a. ref_Get a ex_moving) l b = (if l = 1 \<and> b = ''artr1a'' then ''artr1r'' else [])"
    by (auto simp: ex_Referrer split: if_splits)
qed

lemma ex_rooted: "rooted (\<lambda>a. ref_Get a ex_tree)" "rooted (\<lambda>a. ref_Get a ex_moving)"
  unfolding rooted_def by (auto simp: ex_up intro!: exI[of _ "2::nat"])


lemma ex_not_banished: "r_Banished (ref_Get a ex_tree) = False" "r_Banished (ref_Get a ex_moving) = False"
  by (simp_all add: ex_Get zero_info_def)

lemma ex_level_sum:
  assumes "1 \<le> l" "a \<noteq> []"
  shows "level_sum \<mu> (\<lambda>a. ref_Get a ex_tree) {''artr1r'', ''artr1q'', ''artr1a''} a l
      = (if l = 1 \<and> a = ''artr1r'' then \<mu> (ref_Get ''artr1a'' ex_tree) else 0)"
    "level_sum \<mu> (\<lambda>a. ref_Get a ex_moving) {''artr1r'', ''artr1q'', ''artr1a''} a l
      = (if l = 1 \<and> a = ''artr1r'' then \<mu> (ref_Get ''artr1a'' ex_moving) else 0)"
  using assms by (auto simp: level_sum_def ex_up ex_not_banished)

lemma ex_dom:
  "dom (ref_store ex_tree) = {''artr1r'', ''artr1q'', ''artr1a''}"
  "dom (ref_store ex_moving) = {''artr1r'', ''artr1q'', ''artr1a''}"
  by auto

lemma ex_amounts:
  "coins_at (ex_info p kids cs) j = (if j < length cs then cs ! j else 0)" "delegated_at (ex_info p kids cs) j = 0"
  "coins_at zero_info j = 0" "delegated_at zero_info j = 0" "active_at (ex_info p kids cs) j = 0" "active_at zero_info j = 0"
  "r_Active zero_info = False"
  "coins_at (x\<lparr>r_Transition := t\<rparr>) j = coins_at x j" "delegated_at (x\<lparr>r_Transition := t\<rparr>) j = delegated_at x j"
  "active_at (x\<lparr>r_Transition := t\<rparr>) j = active_at x j"
  by (simp_all add: coins_at_def delegated_at_def active_at_def level_at_def zero_info_def pad_def nth_append)

lemma ex_own:
  assumes "1 \<le> l"
  shows "coins_at (ref_Get a ex_tree) l = (if l = 1 \<and> a = ''artr1r'' then 30 else 0)"
    "coins_at (ref_Get a ex_moving) l = (if l = 1 \<and> a = ''artr1r'' then 30 else 0)"
  using assms by (auto simp: ex_Get ex_amounts nth_Cons split: nat.splits)

lemma ex_own_0:
  "coins_at (ref_Get ''artr1a'' ex_tree) 0 = 30" "coins_at (ref_Get ''artr1a'' ex_moving) 0 = 30"
  "delegated_at (ref_Get a ex_tree) j = 0" "delegated_at (ref_Get a ex_moving) j = 0"
  by (auto simp: ex_Get ex_amounts)

lemma ex_sums: "tree_sums ex_tree" "tree_sums ex_moving"
  unfolding tree_sums_def sums_of_def ex_dom
  by (simp_all add: ex_level_sum ex_Referrer ex_own ex_own_0 own_coins_def own_delegated_def)

lemma ex_active_sums: "active_sums ex_tree"
  unfolding active_sums_def ex_dom by (simp add: active_total_def) (simp add: ex_Get ex_amounts)


section \<open>Properties\<close>



text \<open>C10. A new account joins where it is put: appendChild gives it the named referrer and its
  balance, adds it to the end of the referrer's list, moves nobody else, and keeps every
  amount of the tree the sum over its level.\<close>

theorem new_account_keeps_sums:
  assumes "tree_callbacks k" "appendChild k p n skip setc s = (Ok (), s')" "tree_sums s" "n \<noteq> []" "n \<noteq> p"
    "getBalance k n s = Ok c" "getDelegated k n s = Ok d"
  shows "tree_sums s' \<and> r_Referrer (ref_Get n s') = p \<and> coins_at (ref_Get n s') 0 = c
    \<and> delegated_at (ref_Get n s') 0 = d \<and> r_Referrals (ref_Get p s') = r_Referrals (ref_Get p s) @ [n]
    \<and> (\<forall>a. a \<noteq> n \<longrightarrow> r_Referrer (ref_Get a s') = r_Referrer (ref_Get a s))"
  by (rule tree_callbacks.appendChild_sums[OF assms])

theorem new_account_keeps_sums_witness:
  "tree_sums (snd (appendChild ex_ref ''artr1r'' ''artr1b'' True True ex_tree))"
  using new_account_keeps_sums[OF ex_callbacks pair_of_fst[OF ex_runs(2)] ex_sums(1) _ _ ex_balances(3,4)] by simp





text \<open>C2. A transition moves a whole subtree and stays a forest: after AffirmTransition the account's
  referrer is the requested one, nobody else's changes, every amount of the tree is again the
  sum over its level, and from every account the referrers still lead to a top level one.\<close>

theorem transition_keeps_forest:
  assumes "tree_callbacks k" "AffirmTransition k x s = (Ok (), s')" "tree_sums s" "rooted (\<lambda>a. ref_Get a s)"
    "x \<noteq> []" "\<not> r_Banished (ref_Get x s)" "r_Referrer (ref_Get x s) \<noteq> []"
    "AccAddressFromBech32 (rk_sdk k) [] = None"
  shows "tree_sums s' \<and> rooted (\<lambda>a. ref_Get a s') \<and> r_Referrer (ref_Get x s') = r_Transition (ref_Get x s)
    \<and> r_Transition (ref_Get x s) \<noteq> []
    \<and> (\<forall>a. a \<noteq> x \<longrightarrow> r_Referrer (ref_Get a s') = r_Referrer (ref_Get a s))"
  by (rule tree_callbacks.AffirmTransition_sums[OF assms])

theorem transition_keeps_forest_witness:
  "rooted (\<lambda>a. ref_Get a (snd (AffirmTransition ex_ref ''artr1a'' ex_moving)))"
  using transition_keeps_forest[OF ex_callbacks pair_of_fst[OF ex_affirm] ex_sums(2) ex_rooted(2)]
  by (simp add: ex_Referrer ex_not_banished)



definition ex_callback :: "info \<Rightarrow> unit bu_st \<Rightarrow> (unit \<times> info) res \<times> unit bu_st" where
  "ex_callback v st = (Ok ((), v\<lparr>r_Status := STATUS_LUCKY\<rparr>), st)"


text \<open>The fees of the ancestor validators: row by row, only the difference to the best row so far.\<close>

lemma toValidators_val:
  "j < 6 \<Longrightarrow> wf_frac (sh_Ratio (toValidators ! j)) \<and> frac_val (sh_Ratio (toValidators ! j)) = (of_nat j + 1) / 1000"
  by (auto simp: toValidators_def less_Suc_eq numeral_eq_Suc Permille_def)

lemma share_row_bounds:
  "share_row toValidators st lvl = - 1 \<or> (0 \<le> share_row toValidators st lvl \<and> share_row toValidators st lvl \<le> 5)"
proof -
  let ?js = "filter (\<lambda>j. st \<ge> sh_Status (toValidators ! j) \<and> lvl < sh_MaxLevel (toValidators ! j)) (rev [0..<length toValidators])"
  have "set ?js \<subseteq> {0..<6}" by (auto simp: toValidators_def)
  then show ?thesis unfolding share_row_def by (cases ?js) auto
qed

definition row_val :: "int \<Rightarrow> rat" where "row_val b = (of_int b + 1) / 1000"

lemma validator_fees_sum:
  assumes "validator_fees k toValidators s is anc best result = Ok fees" "- 1 \<le> best" "best \<le> 5"
  shows "\<exists>b rest. fees = result @ rest \<and> best \<le> b \<and> b \<le> 5 \<and> length rest \<le> nat (b - best)
    \<and> (\<Sum>f\<leftarrow>rest. frac_val (snd f)) = row_val b - row_val best \<and> (\<forall>f\<in>set rest. 0 < frac_val (snd f))"
  using assms
proof (induction "is" arbitrary: anc best result)
  case Nil
  then show ?case by auto
next
  case (Cons i "is")
  show ?case
  proof (cases "anc = []")
    case True
    then show ?thesis using Cons.prems by auto
  next
    case False
    then obtain a act where r: "AccAddressFromBech32 (rk_sdk k) anc = Some a" "rk_IsActiveValidator k a s = Ok act"
      using Cons.prems(1) by (auto simp: Let_def bind_res_Ok_iff split: option.splits)
    define j where "j = (if act then share_row toValidators (r_Status (ref_Get anc s)) i else - 1)"
    have j: "- 1 \<le> j" "j \<le> 5" using share_row_bounds[of "r_Status (ref_Get anc s)" i] by (auto simp: j_def)
    show ?thesis
    proof (cases "best < j")
      case False
      then have "validator_fees k toValidators s is (r_Referrer (ref_Get anc s)) best result = Ok fees"
        using Cons.prems(1) r \<open>anc \<noteq> []\<close> by (simp add: Let_def j_def[symmetric])
      then show ?thesis using Cons.IH Cons.prems(2,3) by blast
    next
      case True
      let ?old = "if best = - 1 then FractionZero else sh_Ratio (toValidators ! nat best)"
      have new: "wf_frac (sh_Ratio (toValidators ! nat j))" "frac_val (sh_Ratio (toValidators ! nat j)) = row_val j"
        using toValidators_val[of "nat j"] j True Cons.prems(2) by (simp_all add: row_val_def)
      have old: "wf_frac ?old" "frac_val ?old = row_val best"
        using toValidators_val[of "nat best"] Cons.prems(2,3) by (auto simp: row_val_def FractionZero_def)
      obtain q where q: "Sub (sh_Ratio (toValidators ! nat j)) ?old = Ok q" "frac_val q = row_val j - row_val best"
        using Sub_val[OF new(1) old(1)] new(2) old(2) by auto
      have "validator_fees k toValidators s is (r_Referrer (ref_Get anc s)) j (result @ [(anc, q)]) = Ok fees"
        using Cons.prems(1) r \<open>anc \<noteq> []\<close> True q(1) by (simp add: Let_def j_def[symmetric])
      from Cons.IH[OF this j] obtain b rest where b: "fees = (result @ [(anc, q)]) @ rest" "j \<le> b" "b \<le> 5"
        "length rest \<le> nat (b - j)" "(\<Sum>f\<leftarrow>rest. frac_val (snd f)) = row_val b - row_val j"
        "\<forall>f\<in>set rest. 0 < frac_val (snd f)" by blast
      have "0 < frac_val q" using True q(2) by (simp add: row_val_def)
      then show ?thesis using b q(2) True
        by (intro exI[of _ b] exI[of _ "(anc, q) # rest"]) auto
    qed
  qed
qed

lemma validator_fee_bounds:
  assumes "GetReferralValidatorFeesForDelegating k acc s = Ok fees"
  shows "length fees \<le> 6 \<and> (\<forall>f\<in>set fees. 0 < frac_val (snd f))
    \<and> (\<exists>n. n \<le> 6 \<and> (\<Sum>f\<leftarrow>fees. frac_val (snd f)) = of_nat n / 1000)"
proof -
  have "validator_fees k toValidators s [0..19] (r_Referrer (ref_Get acc s)) (- 1) [] = Ok fees"
    using assms by (simp add: GetReferralValidatorFeesForDelegating_def getReferralValidatorFeesCore_def toValidators_def)
  from validator_fees_sum[OF this] obtain b where b: "- 1 \<le> b" "b \<le> 5" "length fees \<le> nat (b + 1)"
    "(\<Sum>f\<leftarrow>fees. frac_val (snd f)) = row_val b - row_val (- 1)" "\<forall>f\<in>set fees. 0 < frac_val (snd f)"
    by auto
  moreover have "row_val b - row_val (- 1) = of_nat (nat (b + 1)) / 1000" using b(1) by (simp add: row_val_def)
  moreover have "nat (b + 1) \<le> 6" using b(2) by simp
  ultimately show ?thesis by (intro conjI exI[of _ "nat (b + 1)"]) auto
qed


definition ex_champion :: ref_ctx where
  "ex_champion = ex_tree\<lparr>ref_store := (ref_store ex_tree)(''artr1r'' \<mapsto>
     (ex_info [] [''artr1a''] [10, 30])\<lparr>r_Status := STATUS_CHAMPION\<rparr>)\<rparr>"

lemma ex_fees: "GetReferralValidatorFeesForDelegating ex_ref ''artr1a'' ex_champion = Ok [(''artr1r'', mk_frac 2 1000)]"
proof -
  have "Sub (Permille 2) FractionZero = Ok (mk_frac 2 1000)" by code_simp
  moreover have "[0..19::int] = 0 # 1 # [2..19]" by (simp add: upto_rec1)
  ultimately show ?thesis
    by (simp add: GetReferralValidatorFeesForDelegating_def getReferralValidatorFeesCore_def toValidators_def
        ex_champion_def share_row_def ref_Get_def upt_rec numeral_eq_Suc status_defs)
qed


section \<open>Compression\<close>

lemma shift_levels:
  assumes "\<forall>i\<in>set is. lvl + i < length ys" "distinct is" "j < length ys"
  shows "fold (\<lambda>i ys. ys[lvl + i := ys ! (lvl + i) + old ! (i + 1) - old ! i]) is ys ! j
    = (if \<exists>i\<in>set is. j = lvl + i then ys ! j + old ! (j - lvl + 1) - old ! (j - lvl) else ys ! j)"
  using assms
proof (induction "is" arbitrary: ys)
  case (Cons i "is")
  have "fold (\<lambda>i ys. ys[lvl + i := ys ! (lvl + i) + old ! (i + 1) - old ! i]) is
      (ys[lvl + i := ys ! (lvl + i) + old ! (i + 1) - old ! i]) ! j
    = (if \<exists>i\<in>set is. j = lvl + i then ys[lvl + i := ys ! (lvl + i) + old ! (i + 1) - old ! i] ! j
         + old ! (j - lvl + 1) - old ! (j - lvl) else ys[lvl + i := ys ! (lvl + i) + old ! (i + 1) - old ! i] ! j)"
    by (rule Cons.IH) (use Cons.prems in auto)
  then show ?case using Cons.prems by (auto simp: nth_list_update)
qed simp



section \<open>The check of a transition ends\<close>

lemma up_prefix: "up g n a \<noteq> [] \<Longrightarrow> i \<le> n \<Longrightarrow> up g i a \<noteq> []"
  using up_add[of g i "n - i" a] by auto

lemma chain_short:
  assumes "finite (dom (ref_store s))" "rooted (\<lambda>a. ref_Get a s)"
  shows "up (\<lambda>a. ref_Get a s) (Suc (card (dom (ref_store s)))) a = []"
proof (rule ccontr)
  let ?up = "\<lambda>i. up (\<lambda>a. ref_Get a s) i a" and ?c = "card (dom (ref_store s))"
  assume "?up (Suc ?c) \<noteq> []"
  then have nonempty: "?up i \<noteq> []" if "i \<le> Suc ?c" for i using up_prefix that by blast
  have "?up i \<in> dom (ref_store s)" if "i \<le> ?c" for i
  proof (rule ccontr)
    assume "?up i \<notin> dom (ref_store s)"
    then have "?up (Suc i) = []" by (simp add: up_Suc_end ref_Get_def domIff zero_info_def del: up.simps(2))
    then show False using nonempty[of "Suc i"] that by simp
  qed
  then have "?up ` {..?c} \<subseteq> dom (ref_store s)" by auto
  moreover have "inj_on ?up {..?c}"
    using rooted_meets_once[OF assms(2)] nonempty by (intro inj_onI) (metis atMost_iff le_SucI)
  ultimately have "card {..?c} \<le> ?c" using card_inj_on_le assms(1) by blast
  then show False by simp
qed

text \<open>C23. The check of a requested transition ends and never panics. On a tree whose chains end, a walk
  bound above the number of stored accounts is always enough: the loop of validateTransition
  reaches the top level or the subject, every answer is a plain one, and it does not depend on
  the bound.\<close>

theorem transition_check_terminates:
  assumes "finite (dom (ref_store s))" "rooted (\<lambda>a. ref_Get a s)"
    and "card (dom (ref_store s)) < rk_fuel k" "card (dom (ref_store s)) < rk_fuel k'" "rk_bank k' = rk_bank k"
  shows "(\<forall>e. validateTransition k x new fresh s \<noteq> Panic e)
    \<and> validateTransition k' x new fresh s = validateTransition k x new fresh s"
proof -
  note walk = walk_to_root_fuel[OF chain_short[OF assms(1,2)]]
  have "walk_to_root (rk_fuel k') (\<lambda>a. ref_Get a s) x b = walk_to_root (rk_fuel k) (\<lambda>a. ref_Get a s) x b" for b
    using walk[of "rk_fuel k"] walk[of "rk_fuel k'"] assms(3,4) by simp
  moreover have "walk_to_root (rk_fuel k) (\<lambda>a. ref_Get a s) x b \<noteq> Panic e" for b e
    using walk[of "rk_fuel k"] assms(3) by simp
  ultimately show ?thesis using assms(5) by (simp add: validateTransition_def Let_def)
qed

theorem transition_check_terminates_witness:
  "\<forall>e. validateTransition ex_ref ''artr1a'' ''artr1b'' True ex_tree \<noteq> Panic e"
proof -
  have "dom (ref_store ex_tree) = {''artr1r'', ''artr1q'', ''artr1a''}" by (auto split: if_splits)
  then have c: "finite (dom (ref_store ex_tree))" "card (dom (ref_store ex_tree)) < rk_fuel ex_ref" by simp_all
  show ?thesis using transition_check_terminates[OF c(1) ex_rooted(1) c(2) c(2) refl] by blast
qed

end
