(* ===== verification/Noding_Updates.thy ===== *)
theory Noding_Updates
  imports Noding
begin

text \<open>
  The rest of the keeper of \<open>x/noding\<close>: the validator updates of a block, the proposer's
  reward, staff and amnesty, genesis, messages, queries and the block handlers.
\<close>

section \<open>Validator updates\<close>

text \<open>
  An ABCI key is a struct around an interface that holds a pointer; every conversion allocates
  a new one. \<open>au_ptr\<close> is that pointer: the updates of one call are numbered as they are made.
\<close>

record abci_update =
  au_ptr :: nat
  au_PubKey :: string
  au_Power :: int

definition push_update :: "'s nod_keeper \<Rightarrow> string \<Rightarrow> int \<Rightarrow> abci_update list \<Rightarrow> abci_update list res" where
  "push_update k bech32 pw result =
     bind_res (parse_key k bech32) (\<lambda>key.
       case ToTmProtoPublicKey (nk_keys k) key of
         None \<Rightarrow> Panic (Text ''cannot convert the key'')
       | Some ck \<Rightarrow> Ok (result @ [\<lparr>au_ptr = length result, au_PubKey = ck, au_Power = pw\<rparr>]))"

text \<open>
  First pass, over the records as they were when it began: active ones are collected and put
  into the index, the others lose their power.
\<close>

definition lose_power :: "addr \<Rightarrow> 's nod_op" where
  "lose_power acc s = nod_update acc (\<lambda>d s. (Ok (True, d\<lparr>n_LastPower := 0, n_LastPubKey := []\<rparr>), s)) s"

fun gather_scan :: "'s nod_keeper \<Rightarrow> (addr \<times> nod_info) list \<Rightarrow> abci_update list \<Rightarrow> (addr \<times> nod_info) list \<Rightarrow>
    's nod_ctx_scheme \<Rightarrow> (abci_update list \<times> (addr \<times> nod_info) list) res \<times> 's nod_ctx_scheme" where
  "gather_scan k [] result active s = (Ok (result, active), s)"
| "gather_scan k ((acc, data) # items) result active s =
     (if IsActive data then
        and_then (lift_res (parse_key k (n_PubKey data)) s) (\<lambda>key s.
        gather_scan k items result (active @ [(acc, data)])
          (addNodeOperatorToIndex (ConsAddress (nk_keys k) key) acc s))
      else if n_LastPower data = 0 then gather_scan k items result active s
      else if n_LastPubKey data = [] then (Panic (Text ''non-zero LastPower is impossible without LastPubKey''), s)
      else
        and_then (lift_res (push_update k (n_LastPubKey data) 0 result) s) (\<lambda>result s.
        and_then (lose_power acc s) (\<lambda>_ s.
        gather_scan k items result active s)))"

definition ranks_before :: "addr \<times> nod_info \<Rightarrow> addr \<times> nod_info \<Rightarrow> bool" where
  "ranks_before x y =
     (if n_Score (snd x) \<noteq> n_Score (snd y) then n_Score (snd x) > n_Score (snd y)
      else n_OkBlocksInRow (snd x) > n_OkBlocksInRow (snd y))"

text \<open>A validator's new key replaces the one CometBFT knows.\<close>

definition retire_key :: "'s nod_keeper \<Rightarrow> nod_info \<Rightarrow> abci_update list \<Rightarrow> abci_update list res" where
  "retire_key k data result =
     (if n_PubKey data \<noteq> n_LastPubKey data \<and> n_LastPubKey data \<noteq> []
      then push_update k (n_LastPubKey data) 0 result else Ok result)"

text \<open>Second pass: the top validators.\<close>

fun gather_top :: "'s nod_keeper \<Rightarrow> vp_generator \<Rightarrow> (addr \<times> nod_info) list \<Rightarrow> abci_update list \<Rightarrow>
    's nod_ctx_scheme \<Rightarrow> (abci_update list \<times> vp_generator) res \<times> 's nod_ctx_scheme" where
  "gather_top k vpg [] result s = (Ok (result, vpg), s)"
| "gather_top k vpg ((acc, data) # xs) result s =
     (if n_PubKey data = [] then (Panic (Text ''validator cannot be active without PubKey''), s)
      else
        and_then (lift_res (GetVotingPower vpg (n_Score data)) s) (\<lambda>(pw, vpg) s.
        and_then (lift_res (retire_key k data result) s) (\<lambda>result s.
        let updated = (n_LastPower data \<noteq> pw \<or> n_PubKey data \<noteq> n_LastPubKey data)
        in and_then (lift_res (if updated then push_update k (n_PubKey data) pw result else Ok result) s) (\<lambda>result s.
           and_then (when_queued lotteryExclude data s) (\<lambda>data' s.
           and_then (if updated \<or> n_LotteryNo data \<noteq> 0
             then nod_update acc (\<lambda>d s. (Ok (True, d\<lparr>n_LastPower := pw, n_LastPubKey := n_PubKey d,
                    n_LotteryNo := n_LotteryNo data'\<rparr>), s)) s
             else (Ok (), s)) (\<lambda>_ s.
           gather_top k vpg xs result s))))))"

text \<open>Third pass: the lucky ones of the lottery, and those left without power.\<close>

fun gather_rest :: "'s nod_keeper \<Rightarrow> 64 word \<Rightarrow> vp_generator \<Rightarrow> (addr \<times> nod_info) list \<Rightarrow> abci_update list \<Rightarrow>
    's nod_ctx_scheme \<Rightarrow> abci_update list res \<times> 's nod_ctx_scheme" where
  "gather_rest k maxLotNo vpg [] result s = (Ok result, s)"
| "gather_rest k maxLotNo vpg ((acc, data) # xs) result s =
     (if n_LotteryNo data \<noteq> 0 \<and> n_LotteryNo data \<le> maxLotNo then
        and_then (lift_res (GetVotingPower vpg (n_Score data)) s) (\<lambda>(pw, vpg) s.
        if n_PubKey data = n_LastPubKey data \<and> n_LastPower data = pw
        then gather_rest k maxLotNo vpg xs result s
        else
          and_then (lift_res (retire_key k data result) s) (\<lambda>result s.
          and_then (lift_res (push_update k (n_PubKey data) pw result) s) (\<lambda>result s.
          and_then (nod_update acc (\<lambda>d s. (Ok (True, d\<lparr>n_LastPower := pw, n_LastPubKey := n_PubKey d\<rparr>), s)) s) (\<lambda>_ s.
          gather_rest k maxLotNo vpg xs result s))))
      else
        and_then (lift_res (if n_LastPower data \<noteq> 0 then push_update k (n_LastPubKey data) 0 result else Ok result) s)
          (\<lambda>result s.
        and_then (if n_LotteryNo data = 0 then must (lotteryAddNew acc data s) else (Ok data, s)) (\<lambda>data' s.
        and_then (if n_LastPower data \<noteq> 0 \<or> n_LotteryNo data = 0
          then nod_update acc (\<lambda>d s. (Ok (True, d\<lparr>n_LastPower := 0, n_LastPubKey := [],
                 n_LotteryNo := n_LotteryNo data'\<rparr>), s)) s
          else (Ok (), s)) (\<lambda>_ s.
        gather_rest k maxLotNo vpg xs result s))))"

text \<open>\<open>x.PubKey == y.PubKey\<close> compares the pointers.\<close>

definition same_key :: "abci_update \<Rightarrow> abci_update \<Rightarrow> bool" where
  "same_key x y \<longleftrightarrow> au_ptr x = au_ptr y"

fun replace_first :: "abci_update \<Rightarrow> abci_update list \<Rightarrow> abci_update list \<times> bool" where
  "replace_first x [] = ([], False)"
| "replace_first x (y # ys) =
     (if same_key x y then (x # ys, True)
      else (y # fst (replace_first x ys), snd (replace_first x ys)))"

definition unique_updates :: "abci_update list \<Rightarrow> abci_update list" where
  "unique_updates result = fold (\<lambda>x ys. if snd (replace_first x ys) then fst (replace_first x ys) else ys @ [x]) result []"

text \<open>How many of the \<open>n\<close> active validators are on top, and how many of the others are lucky.\<close>

definition top_count :: "nod_params \<Rightarrow> nat \<Rightarrow> nat" where
  "top_count p n = (if int n > MaxValidators p then nat (MaxValidators p) else n)"

definition lucky_count :: "nod_params \<Rightarrow> nat \<Rightarrow> nat" where
  "lucky_count p n =
     (if int n > MaxValidators p then
        (if int n > MaxValidators p + LotteryValidators p then nat (LotteryValidators p) else n - top_count p n)
      else 0)"

definition GatherValidatorUpdates :: "'s nod_keeper \<Rightarrow> 's nod_ctx_scheme \<Rightarrow> abci_update list res \<times> 's nod_ctx_scheme" where
  "GatherValidatorUpdates k s =
     and_then (gather_scan k (store_items (nod_store s)) [] [] s) (\<lambda>(result, active) s.
     let p = nod_GetParams s; n1 = top_count p (length active); n2 = lucky_count p (length active);
         ranked = nk_sort k ranks_before active
     in and_then (gather_top k (NewVotingPowerGenerator p) (take n1 ranked) result s) (\<lambda>(result, vpg) s.
        and_then (gather_rest k (lotteryLastNo n2 s) vpg (drop n1 ranked) result s) (\<lambda>result s.
        (Ok (unique_updates result), s))))"

section \<open>Proposers\<close>

text \<open>\<open>if splittable.LT(part)\<close>: the shortage is logged, with both amounts as \<open>int64\<close>.\<close>

definition capped :: "int \<Rightarrow> int \<Rightarrow> int res" where
  "capped splittable part =
     (if splittable < part then bind_res (Int64 splittable) (\<lambda>_. bind_res (Int64 part) (\<lambda>_. Ok splittable))
      else Ok part)"

definition pay_part :: "'s nod_keeper \<Rightarrow> (coins \<Rightarrow> 's nod_op) \<Rightarrow> int \<Rightarrow> 's nod_op" where
  "pay_part k send part s =
     and_then (lift_res (one_coin (nk_sdk k) ConfigMainDenom part) s) (\<lambda>amount s.
     if IsZeroCoins (nk_sdk k) amount then (Ok (), s) else send amount s)"

text \<open>What is left when the proposer and the company have been paid is burnt, whatever the shares say.\<close>

definition split_rewards :: "'s nod_keeper \<Rightarrow> addr \<Rightarrow> addr \<Rightarrow> 's nod_op" where
  "split_rewards k acc collector s =
     and_then (lift_res (GetBalance (nk_bank k) collector s) s) (\<lambda>balance s.
     let splittable = AmountOf (nk_sdk k) balance ConfigMainDenom;
         ratios = TransactionFeeSplitRatios (bank_GetParams s)
     in and_then (lift_res (SplitFee splittable (ForProposer ratios) (ForCompany ratios)) s) (\<lambda>(fp, fc, fb) s.
        and_then (lift_res (capped splittable fp) s) (\<lambda>fp s.
        and_then (pay_part k (SendCoinsFromModuleToAccount (nk_bank k) (nk_splittableFeeCollectorName k) acc) fp s) (\<lambda>_ s.
        and_then (lift_res (capped (splittable - fp) fc) s) (\<lambda>fc s.
        and_then (pay_part k (\<lambda>amount s.
            case AccAddressFromBech32 (nk_sdk k) (CompanyAccount (bank_GetParams s)) of
              None \<Rightarrow> (Err ErrInvalidAddress, s)
            | Some company \<Rightarrow>
                SendCoinsFromModuleToAccount (nk_bank k) (nk_splittableFeeCollectorName k) company amount s) fc s) (\<lambda>_ s.
        let left = splittable - fp - fc
        in and_then (lift_res (if left \<noteq> fb then bind_res (Int64 left) (\<lambda>_. bind_res (Int64 fb) (\<lambda>_. Ok left)) else Ok fb) s) (\<lambda>fb s.
           pay_part k (\<lambda>amount s. BurnAccCoins (nk_bank k) collector amount
             (emit (''burn'', [AStr (AccString (nk_sdk k) collector), AInts (map snd amount)]) s)) fb s)))))))"

definition module_address :: "'s nod_keeper \<Rightarrow> string \<Rightarrow> addr" where
  "module_address k name = (case bk_module_addr (nk_bank k) name of None \<Rightarrow> [] | Some a \<Rightarrow> a)"

definition PayProposerReward :: "'s nod_keeper \<Rightarrow> addr \<Rightarrow> 's nod_op" where
  "PayProposerReward k acc s =
     and_then (nod_update acc (\<lambda>d s.
         and_then (when_queued (lotteryDownshift acc) (d\<lparr>n_ProposedCount := wrap64 (n_ProposedCount d + 1)\<rparr>) s)
           (\<lambda>d s. (Ok (True, d), s)))
         (addProposerToIndex (wrap64 (block_height s - 1)) acc s)) (\<lambda>_ s.
     and_then (lift_res (GetBalance (nk_bank k) (module_address k (nk_feeCollectorName k)) s) s)
       (\<lambda>amount s.
     and_then (if IsZeroCoins (nk_sdk k) amount then (Ok (), s)
       else SendCoinsFromModuleToAccount (nk_bank k) (nk_feeCollectorName k) acc amount s) (\<lambda>_ s.
     split_rewards k acc (module_address k (nk_splittableFeeCollectorName k)) s)))"

definition GetBlockProposer :: "int \<Rightarrow> 's nod_ctx_scheme \<Rightarrow> addr res" where
  "GetBlockProposer height s =
     (case nod_proposers s (word_of_int height) of None \<Rightarrow> Err nod_ErrNotFound | Some a \<Rightarrow> Ok a)"

definition GetBlocksProposedBy :: "addr \<Rightarrow> 's nod_ctx_scheme \<Rightarrow> 64 word list" where
  "GetBlocksProposedBy acc s = filter (\<lambda>h. nod_proposers s h = Some acc) (store_keys (nod_proposers s))"

definition GetBlocksProposedByAll :: "'s nod_keeper \<Rightarrow> 's nod_ctx_scheme \<Rightarrow> string \<Rightarrow> 64 word list" where
  "GetBlocksProposedByAll k s x =
     filter (\<lambda>h. map_option (AccString (nk_sdk k)) (nod_proposers s h) = Some x) (store_keys (nod_proposers s))"

section \<open>Staff and amnesty\<close>

definition AddToStaff :: "addr \<Rightarrow> 's nod_op" where
  "AddToStaff acc s =
     (if nod_has acc s then nod_update acc (\<lambda>d s.
        if n_Staff d then (Ok (False, d), s) else (Ok (True, d\<lparr>n_Staff := True\<rparr>), s)) s
      else (Ok (), nod_set acc (zero_nod_info\<lparr>n_Staff := True\<rparr>) s))"

definition RemoveFromStaff :: "'s nod_keeper \<Rightarrow> addr \<Rightarrow> 's nod_op" where
  "RemoveFromStaff k acc s =
     (case nod_store s acc of
        None \<Rightarrow> (Ok (), s)
      | Some d0 \<Rightarrow>
          and_then (nod_update acc (\<lambda>d s.
            if \<not> n_Staff d then (Ok (False, d), s) else (Ok (True, d\<lparr>n_Staff := False\<rparr>), s)) s) (\<lambda>_ s.
          if n_Staff d0 \<and> IsActive d0
          then and_then (OnStatusUpdate k acc s) (\<lambda>_ s. OnStakeChanged k acc s)
          else (Ok (), s)))"

definition GeneralAmnesty :: "'s nod_ctx_scheme \<Rightarrow> 's nod_ctx_scheme" where
  "GeneralAmnesty s = fold (\<lambda>(acc, item) s.
     if n_Strokes item = 0 \<and> n_JailCount item = 0 then s
     else nod_set acc (item\<lparr>n_Score := wrap64 (n_Score item + n_Strokes item), n_Strokes := 0, n_JailCount := 0\<rparr>) s)
     (store_items (nod_store s)) s"

definition GetValidatorState :: "addr \<Rightarrow> 's nod_ctx_scheme \<Rightarrow> validator_state" where
  "GetValidatorState acc s =
     (case nod_store s acc of
        None \<Rightarrow> STATE_OFF
      | Some data \<Rightarrow>
          if n_BannedForLife data then STATE_BAN
          else if n_Jailed data then STATE_JAIL
          else if \<not> n_Status data then STATE_OFF
          else if n_LastPower data = 0 then STATE_SPARE
          else if n_LotteryNo data = 0 then STATE_TOP
          else STATE_LUCKY)"

end
