(* ===== verification/Noding_Genesis.thy ===== *)
theory Noding_Genesis
  imports Noding_Updates
begin

text \<open>
  The edges of \<open>x/noding\<close>: genesis export, import and validation, messages, queries and the
  handlers of the beginning and the end of a block.
\<close>

section \<open>Genesis\<close>

record nod_validator =
  v_Account :: string
  v_PubKey :: string
  v_Strokes :: int
  v_OkBlocksInRow :: int
  v_MissedBlocksInRow :: int
  v_Jailed :: bool
  v_UnjailAt :: int
  v_ProposedCount :: int
  v_JailCount :: int
  v_SwitchedOn :: bool
  v_ProposedBlocks :: "64 word list"
  v_Infractions :: "misbehavior list"
  v_Banned :: bool
  v_Staff :: bool

record nod_genesis =
  ng_Params :: nod_params
  ng_Active :: "nod_validator list"
  ng_NonActive :: "nod_validator list"

definition nod_DefaultGenesisState :: nod_genesis where
  "nod_DefaultGenesisState = \<lparr>ng_Params = nod_DefaultParams, ng_Active = [], ng_NonActive = []\<rparr>"

text \<open>\<open>Validator.GetAccount\<close> and its likes panic on an address that does not parse.\<close>

definition must_address :: "sdk \<Rightarrow> string \<Rightarrow> addr res" where
  "must_address L x = (case AccAddressFromBech32 L x of None \<Rightarrow> Panic (Text ''invalid address'') | Some a \<Rightarrow> Ok a)"

definition ToInfo :: "key_lib \<Rightarrow> int \<Rightarrow> nod_validator \<Rightarrow> nod_info" where
  "ToInfo K stake v = fst (UpdateScore K stake (zero_nod_info\<lparr>
     n_PubKey := v_PubKey v, n_Strokes := v_Strokes v, n_OkBlocksInRow := v_OkBlocksInRow v,
     n_MissedBlocksInRow := v_MissedBlocksInRow v, n_Jailed := v_Jailed v,
     n_Status := (v_Jailed v \<and> v_SwitchedOn v), n_UnjailAt := v_UnjailAt v, n_Infractions := v_Infractions v,
     n_BannedForLife := v_Banned v, n_Staff := v_Staff v, n_ProposedCount := v_ProposedCount v,
     n_JailCount := v_JailCount v\<rparr>))"

definition GenesisValidatorFromD :: "sdk \<Rightarrow> addr \<Rightarrow> nod_info \<Rightarrow> 64 word list \<Rightarrow> nod_validator" where
  "GenesisValidatorFromD L acc x proposedBlocks =
     \<lparr>v_Account = AccString L acc, v_PubKey = n_PubKey x, v_Strokes = n_Strokes x,
      v_OkBlocksInRow = n_OkBlocksInRow x, v_MissedBlocksInRow = n_MissedBlocksInRow x, v_Jailed = n_Jailed x,
      v_UnjailAt = n_UnjailAt x, v_ProposedCount = n_ProposedCount x, v_JailCount = n_JailCount x,
      v_SwitchedOn = (n_Jailed x \<and> n_Status x), v_ProposedBlocks = proposedBlocks,
      v_Infractions = n_Infractions x, v_Banned = n_BannedForLife x, v_Staff = n_Staff x\<rparr>"

definition validators_where :: "(nod_info \<Rightarrow> bool) \<Rightarrow> 's nod_keeper \<Rightarrow> 's nod_ctx_scheme \<Rightarrow> nod_validator list" where
  "validators_where P k s =
     map (\<lambda>(acc, x). GenesisValidatorFromD (nk_sdk k) acc x (GetBlocksProposedByAll k s (AccString (nk_sdk k) acc)))
       (filter (\<lambda>(acc, x). P x) (store_items (nod_store s)))"

definition GetActiveValidators :: "'s nod_keeper \<Rightarrow> 's nod_ctx_scheme \<Rightarrow> nod_validator list" where
  "GetActiveValidators k s = validators_where IsActive k s"

definition GetNonActiveValidators :: "'s nod_keeper \<Rightarrow> 's nod_ctx_scheme \<Rightarrow> nod_validator list" where
  "GetNonActiveValidators k s = validators_where (\<lambda>x. \<not> IsActive x) k s"

definition GetActiveValidatorList :: "'s nod_ctx_scheme \<Rightarrow> addr list" where
  "GetActiveValidatorList s = map fst (filter (\<lambda>(acc, x). IsActive x) (store_items (nod_store s)))"

text \<open>The record of a validator of the genesis, with its blocks put into the index.\<close>

definition set_validator :: "'s nod_keeper \<Rightarrow> nod_validator \<Rightarrow> 's nod_ctx_scheme \<Rightarrow> addr res \<times> 's nod_ctx_scheme" where
  "set_validator k v s =
     and_then (lift_res (must_address (nk_sdk k) (v_Account v)) s) (\<lambda>acc s.
     and_then (lift_res (bind_res (GetDelegatedInNetwork (AccString (nk_sdk k) acc) 10 s) Int64) s) (\<lambda>stake s.
     (Ok acc, fold (\<lambda>h. addProposerToIndex (sint h) acc) (v_ProposedBlocks v)
        (nod_set acc (ToInfo (nk_keys k) stake v) s))))"

definition SetActiveValidators :: "'s nod_keeper \<Rightarrow> nod_validator list \<Rightarrow> 's nod_op" where
  "SetActiveValidators k vs s = for_each vs (\<lambda>v s.
     and_then (lift_res (parse_key k (v_PubKey v)) s) (\<lambda>key s.
     and_then (set_validator k v s) (\<lambda>acc s. SwitchOn k acc key s))) s"

definition SetNonActiveValidators :: "'s nod_keeper \<Rightarrow> nod_validator list \<Rightarrow> 's nod_op" where
  "SetNonActiveValidators k vs s = for_each vs (\<lambda>v s. and_then (set_validator k v s) (\<lambda>_ s. (Ok (), s))) s"

definition nod_InitGenesis :: "'s nod_keeper \<Rightarrow> nod_genesis \<Rightarrow> 's nod_ctx_scheme \<Rightarrow> abci_update list res \<times> 's nod_ctx_scheme" where
  "nod_InitGenesis k data s =
     and_then (must (SetActiveValidators k (ng_Active data) (nod_SetParams (ng_Params data) (nod_MarkIndexStore s)))) (\<lambda>_ s.
     and_then (must (SetNonActiveValidators k (ng_NonActive data) s)) (\<lambda>_ s.
     must (GatherValidatorUpdates k s)))"

definition nod_ExportGenesis :: "'s nod_keeper \<Rightarrow> 's nod_ctx_scheme \<Rightarrow> nod_genesis" where
  "nod_ExportGenesis k s = \<lparr>ng_Params = nod_GetParams s, ng_Active = GetActiveValidators k s,
     ng_NonActive = GetNonActiveValidators k s\<rparr>"

definition counters_ok :: "nod_validator \<Rightarrow> unit res" where
  "counters_ok v =
     (if v_ProposedCount v < 0 then Err (Text ''proposed_count must be non-negative'')
      else if v_JailCount v < 0 then Err (Text ''jail_count must be non-negative'')
      else if v_OkBlocksInRow v < 0 then Err (Text ''ok_blocks_in_row must be non-negative'')
      else if v_MissedBlocksInRow v < 0 then Err (Text ''missed_blocks_in_row must be non-negative'')
      else if v_OkBlocksInRow v > 0 \<and> v_MissedBlocksInRow v > 0
      then Err (Text ''either OK or missed block counter can be non-zero, not both of them'')
      else Ok ())"

fun active_validators_ok :: "'s nod_keeper \<Rightarrow> nod_validator list \<Rightarrow> unit res" where
  "active_validators_ok k [] = Ok ()"
| "active_validators_ok k (v # vs) =
     (if AccAddressFromBech32 (nk_sdk k) (v_Account v) = None then Err (Text ''invalid account'')
      else if ParseConsPubKey (nk_keys k) (v_PubKey v) = None then Err (Text ''invalid pub_key'')
      else if v_Jailed v then Err (Text ''jailed validator cannot be active'')
      else if v_Banned v then Err (Text ''banned validator cannot be active'')
      else bind_res (counters_ok v) (\<lambda>_. active_validators_ok k vs))"

definition validateActiveValidators :: "'s nod_keeper \<Rightarrow> nod_validator list \<Rightarrow> unit res" where
  "validateActiveValidators k vs = (if vs = [] then Err (Text ''empty list'') else active_validators_ok k vs)"

fun validateNonActiveValidators :: "'s nod_keeper \<Rightarrow> nod_validator list \<Rightarrow> unit res" where
  "validateNonActiveValidators k [] = Ok ()"
| "validateNonActiveValidators k (v # vs) =
     (if AccAddressFromBech32 (nk_sdk k) (v_Account v) = None then Err (Text ''invalid account'')
      else if v_PubKey v \<noteq> [] \<and> ParseConsPubKey (nk_keys k) (v_PubKey v) = None then Err (Text ''invalid pub_key'')
      else bind_res (counters_ok v) (\<lambda>_. validateNonActiveValidators k vs))"

definition nod_ValidateGenesis :: "'s nod_keeper \<Rightarrow> nod_genesis \<Rightarrow> unit res" where
  "nod_ValidateGenesis k data =
     bind_res (nod_params_Validate (ng_Params data)) (\<lambda>_.
     bind_res (validateActiveValidators k (ng_Active data)) (\<lambda>_.
     validateNonActiveValidators k (ng_NonActive data)))"

section \<open>Messages\<close>

record MsgOn =
  on_Account :: string
  on_PubKey :: string

definition MsgOn_ValidateBasic :: "'s nod_keeper \<Rightarrow> MsgOn \<Rightarrow> unit res" where
  "MsgOn_ValidateBasic k m =
     (if AccAddressFromBech32 (nk_sdk k) (on_Account m) = None then Err (Text ''invalid account'')
      else if ParseConsPubKey (nk_keys k) (on_PubKey m) = None then Err (Text ''invalid pub_key'')
      else Ok ())"

text \<open>\<open>MsgOff\<close> and \<open>MsgUnjail\<close> hold an account only.\<close>

definition account_ValidateBasic :: "'s nod_keeper \<Rightarrow> string \<Rightarrow> unit res" where
  "account_ValidateBasic k account =
     (if AccAddressFromBech32 (nk_sdk k) account = None then Err (Text ''invalid account'') else Ok ())"

definition msg_On :: "'s nod_keeper \<Rightarrow> MsgOn \<Rightarrow> 's nod_op" where
  "msg_On k m s =
     and_then (lift_res (must_address (nk_sdk k) (on_Account m)) s) (\<lambda>acc s.
     and_then (lift_res (parse_key k (on_PubKey m)) s) (\<lambda>key s. SwitchOn k acc key s))"

definition msg_Off :: "'s nod_keeper \<Rightarrow> string \<Rightarrow> 's nod_op" where
  "msg_Off k account s = and_then (lift_res (must_address (nk_sdk k) account) s) SwitchOff"

definition msg_Unjail :: "'s nod_keeper \<Rightarrow> string \<Rightarrow> 's nod_op" where
  "msg_Unjail k account s = and_then (lift_res (must_address (nk_sdk k) account) s) (nod_Unjail k)"

section \<open>Queries\<close>

fun recovered :: "'a res \<Rightarrow> 'a res" where
  "recovered (Panic e) = Err e"
| "recovered r = r"

definition nod_query_Params :: "'s nod_ctx_scheme \<Rightarrow> nod_params res" where
  "nod_query_Params s = Ok (nod_GetParams s)"

definition nod_query_Get :: "'s nod_keeper \<Rightarrow> string \<Rightarrow> 's nod_ctx_scheme \<Rightarrow> nod_info res" where
  "nod_query_Get k account s = recovered (bind_res (must_address (nk_sdk k) account) (\<lambda>acc. nod_Get acc s))"

definition nod_query_Proposer :: "'s nod_keeper \<Rightarrow> int \<Rightarrow> 's nod_ctx_scheme \<Rightarrow> string res" where
  "nod_query_Proposer k height s = bind_res (GetBlockProposer height s) (\<lambda>a. Ok (AccString (nk_sdk k) a))"

definition nod_query_IsAllowed :: "'s nod_keeper \<Rightarrow> string \<Rightarrow> 's nod_ctx_scheme \<Rightarrow> (bool \<times> reason) res" where
  "nod_query_IsAllowed k account s = recovered (
     bind_res (must_address (nk_sdk k) account) (\<lambda>acc.
     bind_res (IsQualified k acc s) (\<lambda>(verdict, _, reason). Ok (verdict, reason))))"

text \<open>The address comes as bech32 (also by default) or in hexadecimal.\<close>

definition GetConsAddress ::
    "(string \<Rightarrow> cons_addr option) \<Rightarrow> (string \<Rightarrow> cons_addr option) \<Rightarrow> int \<Rightarrow> string \<Rightarrow> cons_addr res" where
  "GetConsAddress fromBech32 fromHex format consAddress =
     (if format = 0 \<or> format = 1 then
        (case fromBech32 consAddress of None \<Rightarrow> Panic ErrInvalidAddress | Some a \<Rightarrow> Ok a)
      else if format = 2 then
        (case fromHex consAddress of None \<Rightarrow> Panic ErrInvalidAddress | Some a \<Rightarrow> Ok a)
      else Panic (Text ''invalid format''))"

definition nod_query_Operator :: "'s nod_keeper \<Rightarrow> (string \<Rightarrow> cons_addr option) \<Rightarrow> (string \<Rightarrow> cons_addr option) \<Rightarrow>
    int \<Rightarrow> string \<Rightarrow> 's nod_ctx_scheme \<Rightarrow> string res" where
  "nod_query_Operator k fromBech32 fromHex format consAddress s = recovered (
     bind_res (GetConsAddress fromBech32 fromHex format consAddress) (\<lambda>a.
     case nod_operators s a of None \<Rightarrow> Err nod_ErrNotFound | Some acc \<Rightarrow> Ok (AccString (nk_sdk k) acc)))"

definition nod_query_SwitchedOn :: "'s nod_keeper \<Rightarrow> 's nod_ctx_scheme \<Rightarrow> string list res" where
  "nod_query_SwitchedOn k s = Ok (map (AccString (nk_sdk k)) (GetActiveValidatorList s))"

definition nod_query_Queue :: "'s nod_keeper \<Rightarrow> 's nod_ctx_scheme \<Rightarrow> (64 word \<times> string) list res" where
  "nod_query_Queue k s = Ok (map (\<lambda>(no, acc). (no, AccString (nk_sdk k) acc)) (store_items (nod_lottery s)))"

definition nod_query_State :: "'s nod_keeper \<Rightarrow> string \<Rightarrow> 's nod_ctx_scheme \<Rightarrow> validator_state res" where
  "nod_query_State k account s =
     (case AccAddressFromBech32 (nk_sdk k) account of
        None \<Rightarrow> Err (Text ''cannot parse account address'') | Some a \<Rightarrow> Ok (GetValidatorState a s))"

section \<open>The handlers of a block\<close>

definition misbehaviourOf :: "misbehavior list option \<Rightarrow> misbehavior list" where
  "misbehaviourOf cometInfo = (case cometInfo of None \<Rightarrow> [] | Some evidence \<Rightarrow> evidence)"

definition findValidatorAccAddress :: "'s nod_keeper \<Rightarrow> cons_addr \<Rightarrow> 's nod_ctx_scheme \<Rightarrow> addr res" where
  "findValidatorAccAddress k consAddr s =
     bind_res (GetValidatorByConsAddr k consAddr s) (\<lambda>(accAddr, found, _).
       if \<not> found then Err (Text ''validator not found for consensus address'') else Ok accAddr)"

definition punishWrongdoers :: "'s nod_keeper \<Rightarrow> misbehavior list \<Rightarrow> 's nod_op" where
  "punishWrongdoers k evz s = for_each evz (\<lambda>ev s.
     and_then (lift_res (findValidatorAccAddress k (mb_Address ev) s) s) (\<lambda>acc s. MarkByzantine k acc ev s)) s"

text \<open>A vote is the address of the validator and the block id flag.\<close>

definition BlockIDFlagAbsent :: int where "BlockIDFlagAbsent = 1"

definition markStrokesAndTicks :: "'s nod_keeper \<Rightarrow> (cons_addr \<times> int) list \<Rightarrow> 's nod_op" where
  "markStrokesAndTicks k votes s = for_each votes (\<lambda>(consAddr, flag) s.
     and_then (lift_res (findValidatorAccAddress k consAddr s) s) (\<lambda>acc s.
     if flag \<noteq> BlockIDFlagAbsent then MarkTick acc s else MarkStroke k acc s)) s"

definition payProposerReward :: "'s nod_keeper \<Rightarrow> cons_addr \<Rightarrow> 's nod_op" where
  "payProposerReward k consAddr s =
     and_then (lift_res (GetValidatorByConsAddr k consAddr s) s) (\<lambda>(acc, found, _) s.
     if \<not> found then (Err nod_ErrNotFound, s) else PayProposerReward k acc s)"

definition nod_BeginBlocker ::
    "'s nod_keeper \<Rightarrow> cons_addr \<Rightarrow> (cons_addr \<times> int) list \<Rightarrow> misbehavior list option \<Rightarrow> 's nod_op" where
  "nod_BeginBlocker k proposer votes cometInfo s =
     and_then (log_error () (payProposerReward k proposer s)) (\<lambda>_ s.
     and_then (log_error () (markStrokesAndTicks k votes s)) (\<lambda>_ s.
     log_error () (punishWrongdoers k (misbehaviourOf cometInfo) s)))"

definition nod_EndBlocker :: "'s nod_keeper \<Rightarrow> 's nod_ctx_scheme \<Rightarrow> abci_update list res \<times> 's nod_ctx_scheme" where
  "nod_EndBlocker k s = GatherValidatorUpdates k s"

end
