(* ===== verification/Noding_Power.thy ===== *)
theory Noding_Power
  imports Noding_Genesis
begin

text \<open>
  The voting powers: with parameters that pass validation the generator never runs out of
  slices, and every validator gets a positive power of the distribution.
\<close>

definition parts_sum :: "power_slice list \<Rightarrow> rat" where
  "parts_sum sls = (\<Sum>sl\<leftarrow>sls. frac_val (sl_Part sl))"

definition powers_of :: "distribution \<Rightarrow> int set" where
  "powers_of x = insert (LuckiesVotingPower x) (sl_VotingPower ` set (Slices x))"

lemma slices_total_Ok:
  assumes "slices_total sls acc = Ok tot" "\<forall>sl\<in>set sls. wf_frac (sl_Part sl)" "wf_frac acc"
  shows "wf_frac tot \<and> frac_val tot = frac_val acc + parts_sum sls
    \<and> (\<forall>sl\<in>set sls. 0 < sl_VotingPower sl \<and> 0 < frac_val (sl_Part sl))"
  using assms
proof (induction sls arbitrary: acc)
  case Nil
  then show ?case by (simp add: parts_sum_def)
next
  case (Cons sl sls)
  have p: "0 < sl_VotingPower sl" "0 < frac_val (sl_Part sl)"
    using Cons.prems by (auto simp: bind_res_Ok_iff IsPositive_val split: if_splits)
  obtain z where z: "Add acc (sl_Part sl) = Ok z" "wf_frac z" "frac_val z = frac_val acc + frac_val (sl_Part sl)"
    using Add_val[of acc "sl_Part sl"] Cons.prems by auto
  have "slices_total sls z = Ok tot"
    using Cons.prems z(1) p by (auto simp: bind_res_Ok_iff IsPositive_val split: if_splits)
  from Cons.IH[OF this _ z(2)] Cons.prems(2) p z(3) show ?case by (simp add: parts_sum_def)
qed

lemma Distribution_Validate_Ok:
  assumes "Distribution_Validate x = Ok ()" "\<forall>sl\<in>set (Slices x). wf_frac (sl_Part sl)"
  shows "Slices x \<noteq> [] \<and> parts_sum (Slices x) = 1 \<and> (\<forall>p\<in>powers_of x. 0 < p)"
proof -
  obtain tot where t: "slices_total (Slices x) FractionZero = Ok tot" "Frac_Equal tot (FractionInt 1) = Ok True"
    and n: "Slices x \<noteq> []" "0 < LuckiesVotingPower x"
    using assms(1) by (auto simp: Distribution_Validate_def bind_res_Ok_iff split: if_splits)
  have wf: "wf_frac FractionZero" "wf_frac (FractionInt 1)" by (simp_all add: FractionZero_def FractionInt_def NewFraction_def)
  note T = slices_total_Ok[OF t(1) assms(2) wf(1)]
  have "frac_val tot = 1" using t(2) T Frac_Equal_val[of tot "FractionInt 1"] wf by simp
  then show ?thesis using T n by (auto simp: powers_of_def FractionZero_def)
qed

text \<open>A generator in the course of a ranking: the accumulated part is that of the slices so far.\<close>

definition vp_ok :: "vp_generator \<Rightarrow> bool" where
  "vp_ok g \<longleftrightarrow> 0 \<le> vp_count g \<and> (vp_count g \<noteq> 0 \<longrightarrow> 1 \<le> vp_maxValidators g \<longrightarrow> vp_ptr g < length (Slices (vp_distr g))
     \<and> wf_frac (vp_partAccum g) \<and> frac_val (vp_partAccum g) = parts_sum (take (Suc (vp_ptr g)) (Slices (vp_distr g))))
     \<and> (vp_count g = 0 \<longrightarrow> vp_ptr g = 0)"

lemma slice_at_Ok: "i < length (Slices (vp_distr g)) \<Longrightarrow> slice_at g i = Ok (Slices (vp_distr g) ! i)"
  by (simp add: slice_at_def nth_res_def)

lemma GetVotingPower_step:
  assumes g: "vp_ok g" "vp_count g + 1 < 2 ^ 32"
    and d: "Slices (vp_distr g) \<noteq> []" "parts_sum (Slices (vp_distr g)) = 1"
      "\<forall>sl\<in>set (Slices (vp_distr g)). wf_frac (sl_Part sl)"
  shows "\<exists>p g'. GetVotingPower g score = Ok (p, g') \<and> vp_ok g' \<and> vp_distr g' = vp_distr g
    \<and> vp_maxValidators g' = vp_maxValidators g \<and> vp_count g' = vp_count g + 1 \<and> p \<in> powers_of (vp_distr g)"
proof -
  let ?S = "Slices (vp_distr g)" and ?c = "vp_count g + 1"
  let ?g1 = "g\<lparr>vp_count := ?c, vp_lastScore := score\<rparr>"
  have c: "(vp_count g + 1) mod 2 ^ 32 = ?c" "1 \<le> ?c" using g by (auto simp: vp_ok_def)
  have in_powers: "i < length ?S \<Longrightarrow> sl_VotingPower (?S ! i) \<in> powers_of (vp_distr g)" for i
    by (simp add: powers_of_def)
  consider (lucky) "?c > vp_maxValidators g" | (first) "?c \<le> vp_maxValidators g" "?c = 1"
    | (more) "?c \<le> vp_maxValidators g" "?c \<noteq> 1" by linarith
  then show ?thesis
  proof cases
    case lucky
    then show ?thesis using g c by (auto simp: GetVotingPower_def Let_def vp_ok_def powers_of_def)
  next
    case first
    have "wf_frac (sl_Part (?S ! 0))" "frac_val (sl_Part (?S ! 0)) = parts_sum (take (Suc 0) ?S)"
      using d by (auto simp: parts_sum_def neq_Nil_conv)
    then show ?thesis
      using first g d(1) in_powers[of 0] by (auto simp: GetVotingPower_def Let_def slice_at_Ok vp_ok_def)
  next
    case more
    then have p: "vp_ptr g < length ?S" "wf_frac (vp_partAccum g)"
      "frac_val (vp_partAccum g) = parts_sum (take (Suc (vp_ptr g)) ?S)"
      using g c by (auto simp: vp_ok_def)
    have wf: "wf_frac (NewFraction ?c (vp_maxValidators g))" using more c by (simp add: NewFraction_def)
    define inside where "inside = (frac_val (NewFraction ?c (vp_maxValidators g)) \<le> frac_val (vp_partAccum g))"
    have L: "LTE (NewFraction ?c (vp_maxValidators g)) (vp_partAccum g) = Ok inside"
      unfolding inside_def by (rule LTE_val[OF wf p(2)])
    show ?thesis
    proof (cases "inside \<or> score = vp_lastScore g")
      case True
      then have "GetVotingPower g score = Ok (sl_VotingPower (?S ! vp_ptr g), ?g1)"
        using more c L p(1) by (simp add: GetVotingPower_def Let_def slice_at_Ok)
      then show ?thesis using g p c in_powers[of "vp_ptr g"] by (auto simp: vp_ok_def)
    next
      case False
      have "Suc (vp_ptr g) < length ?S"
      proof (rule ccontr)
        assume "\<not> ?thesis"
        then have "frac_val (vp_partAccum g) = 1" using p d(2) by simp
        moreover have "frac_val (NewFraction ?c (vp_maxValidators g)) \<le> 1" using more c by simp
        ultimately show False using False by (simp add: inside_def)
      qed
      then have i: "Suc (vp_ptr g) < length ?S" "wf_frac (sl_Part (?S ! Suc (vp_ptr g)))" using d(3) by simp_all
      obtain z where z: "Add (vp_partAccum g) (sl_Part (?S ! Suc (vp_ptr g))) = Ok z" "wf_frac z"
        "frac_val z = frac_val (vp_partAccum g) + frac_val (sl_Part (?S ! Suc (vp_ptr g)))"
        using Add_val[OF p(2) i(2)] by auto
      have "GetVotingPower g score = Ok (sl_VotingPower (?S ! Suc (vp_ptr g)),
          ?g1\<lparr>vp_ptr := Suc (vp_ptr g), vp_partAccum := z\<rparr>)"
        using more c L False i(1) z(1) by (simp add: GetVotingPower_def Let_def slice_at_Ok)
      moreover have "frac_val z = parts_sum (take (Suc (Suc (vp_ptr g))) ?S)"
        using z(3) p(3) i(1) by (simp add: parts_sum_def take_Suc_conv_app_nth)
      ultimately show ?thesis using z(2) i(1) c(2) in_powers[OF i(1)] by (auto simp: vp_ok_def)
    qed
  qed
qed

lemma voting_powers_run:
  assumes "vp_ok g" "vp_count g + int (length scores) < 2 ^ 32" "Slices (vp_distr g) \<noteq> []"
    "parts_sum (Slices (vp_distr g)) = 1" "\<forall>sl\<in>set (Slices (vp_distr g)). wf_frac (sl_Part sl)"
  shows "\<exists>ps. voting_powers g scores = Ok ps \<and> length ps = length scores \<and> set ps \<subseteq> powers_of (vp_distr g)"
  using assms
proof (induction scores arbitrary: g)
  case (Cons x xs)
  obtain p g' where g': "GetVotingPower g x = Ok (p, g')" "vp_ok g'" "vp_distr g' = vp_distr g"
    "vp_count g' = vp_count g + 1" "p \<in> powers_of (vp_distr g)"
    using GetVotingPower_step[of g x] Cons.prems by auto
  then show ?case using Cons.IH[of g'] Cons.prems by auto
qed simp

text \<open>C30. Voting powers: with parameters that pass validation and well-formed fractions, ranking any
  number of validators gives each of them a power of the distribution, which is positive; the
  generator never reads past the slices.\<close>

theorem voting_powers_safe:
  assumes "nod_params_Validate p = Ok ()" "\<forall>sl\<in>set (Slices (VotingPower p)). wf_frac (sl_Part sl)"
    "length scores < 2 ^ 32"
  shows "\<exists>ps. voting_powers (NewVotingPowerGenerator p) scores = Ok ps \<and> length ps = length scores
    \<and> set ps \<subseteq> powers_of (VotingPower p) \<and> (\<forall>x\<in>set ps. 0 < x)"
proof -
  have "Distribution_Validate (VotingPower p) = Ok ()"
    using assms(1) by (auto simp: nod_params_Validate_def bind_res_Ok_iff)
  note D = Distribution_Validate_Ok[OF this assms(2)]
  obtain ps where "voting_powers (NewVotingPowerGenerator p) scores = Ok ps" "length ps = length scores"
    "set ps \<subseteq> powers_of (VotingPower p)"
    using voting_powers_run[of "NewVotingPowerGenerator p" scores] D assms(2,3)
    by (auto simp: NewVotingPowerGenerator_def vp_ok_def)
  then show ?thesis using D by auto
qed

definition ex_nod_params :: nod_params where
  "ex_nod_params = nod_DefaultParams\<lparr>VotingPower := DefaultVotingPower, MaxValidators := 1, LotteryValidators := 1\<rparr>"

lemma ex_nod_params_ok: "nod_params_Validate ex_nod_params = Ok ()"
  by code_simp

theorem voting_powers_safe_witness:
  "\<exists>ps. voting_powers (NewVotingPowerGenerator ex_nod_params) [7, 5] = Ok ps \<and> length ps = 2"
proof -
  have "\<forall>sl\<in>set (Slices (VotingPower ex_nod_params)). wf_frac (sl_Part sl)"
    by (simp add: ex_nod_params_def DefaultVotingPower_def Percent_def NewFraction_def)
  from voting_powers_safe[OF ex_nod_params_ok this, of "[7, 5]"] show ?thesis by auto
qed

end
