(* ===== verification/Noding_Lottery.thy ===== *)
theory Noding_Lottery
  imports Noding_Power
begin

text \<open>
  The lottery queue and the validator records in step: a number is in the queue exactly when
  a record holds it, with that record's account. The first part shows it of the operations on
  single validators, the second of the updates at the end of a block, where it gives the bound
  on the number of validators with power.
\<close>

section \<open>The queue\<close>

definition lottery_ok :: "'s nod_ctx_scheme \<Rightarrow> bool" where
  "lottery_ok s \<longleftrightarrow> finite (dom (nod_store s)) \<and>
     (\<forall>n a. nod_lottery s n = Some a \<longleftrightarrow> n \<noteq> 0 \<and> (\<exists>d. nod_store s a = Some d \<and> n_LotteryNo d = n))"

text \<open>\<open>m\<close> more numbers can be given out before the counter wraps.\<close>

definition room :: "nat \<Rightarrow> 's nod_ctx_scheme \<Rightarrow> bool" where
  "room m s \<longleftrightarrow> m < 2 ^ 64 \<and> (\<forall>n\<in>dom (nod_lottery s). unat n + m < 2 ^ 64)"

lemma lottery_okD:
  assumes "lottery_ok s"
  shows "finite (dom (nod_store s))" "nod_lottery s 0 = None"
    "nod_store s a = Some d \<Longrightarrow> n_LotteryNo d \<noteq> 0 \<Longrightarrow> nod_lottery s (n_LotteryNo d) = Some a"
    "nod_lottery s n = Some a \<Longrightarrow> \<exists>d. nod_store s a = Some d \<and> n_LotteryNo d = n"
  using assms unfolding lottery_ok_def by (auto simp del: not_Some_eq) (metis option.exhaust)+

lemma lottery_finite: "lottery_ok s \<Longrightarrow> finite (dom (nod_lottery s))"
proof -
  assume s: "lottery_ok s"
  have "dom (nod_lottery s) \<subseteq> (\<lambda>a. n_LotteryNo (the (nod_store s a))) ` dom (nod_store s)"
    using lottery_okD(4)[OF s] by force
  then show ?thesis using lottery_okD(1)[OF s] finite_surj by blast
qed

text \<open>
  One record changes from \<open>d\<close> to \<open>d'\<close> and the queue from \<open>Q\<close> to \<open>Q'\<close>: the old number is given
  up and the new one, free by then, is taken.
\<close>

definition requeued :: "addr \<Rightarrow> nod_info \<Rightarrow> nod_info \<Rightarrow> (64 word \<rightharpoonup> addr) \<Rightarrow> (64 word \<rightharpoonup> addr) \<Rightarrow> bool" where
  "requeued acc d d' Q Q' \<longleftrightarrow>
     (let R = Q(n_LotteryNo d := None)
      in if n_LotteryNo d' = 0 then Q' = R else Q' = R(n_LotteryNo d' \<mapsto> acc) \<and> R (n_LotteryNo d') = None)"

lemma requeued_same:
  assumes "lottery_ok s" "nod_store s acc = Some d" "n_LotteryNo d' = n_LotteryNo d"
  shows "requeued acc d d' (nod_lottery s) (nod_lottery s)"
  using assms(3) lottery_okD(2,3)[OF assms(1)] assms(2)
  by (cases "n_LotteryNo d = 0") (auto simp: requeued_def Let_def fun_eq_iff)

lemma lottery_ok_requeued:
  assumes s: "lottery_ok s" "nod_store s acc = Some d"
    and q: "requeued acc d d' (nod_lottery s) (nod_lottery s')" and st: "nod_store s' = (nod_store s)(acc \<mapsto> d')"
  shows "lottery_ok s'"
proof -
  have L: "nod_lottery s n = Some a \<longleftrightarrow> n \<noteq> 0 \<and> (\<exists>d. nod_store s a = Some d \<and> n_LotteryNo d = n)" for n a
    using s(1) by (simp add: lottery_ok_def)
  have R: "((nod_lottery s)(n_LotteryNo d := None)) n = Some a \<longleftrightarrow>
      a \<noteq> acc \<and> n \<noteq> 0 \<and> (\<exists>d. nod_store s a = Some d \<and> n_LotteryNo d = n)" for n a
  proof
    assume "((nod_lottery s)(n_LotteryNo d := None)) n = Some a"
    then have n: "n \<noteq> n_LotteryNo d" "nod_lottery s n = Some a" by (auto split: if_splits)
    then show "a \<noteq> acc \<and> n \<noteq> 0 \<and> (\<exists>d. nod_store s a = Some d \<and> n_LotteryNo d = n)" using L s(2) by auto
  next
    assume a: "a \<noteq> acc \<and> n \<noteq> 0 \<and> (\<exists>d. nod_store s a = Some d \<and> n_LotteryNo d = n)"
    then have n: "nod_lottery s n = Some a" using L by simp
    then have "n \<noteq> n_LotteryNo d" using L[of n acc] s(2) a by auto
    with n show "((nod_lottery s)(n_LotteryNo d := None)) n = Some a" by simp
  qed
  have "nod_lottery s' n = Some a \<longleftrightarrow> n \<noteq> 0 \<and> (\<exists>d. nod_store s' a = Some d \<and> n_LotteryNo d = n)" for n a
  proof (cases "n_LotteryNo d' = 0")
    case True
    then have "nod_lottery s' = (nod_lottery s)(n_LotteryNo d := None)" using q by (simp add: requeued_def Let_def)
    then show ?thesis using R[of n a] True by (auto simp: st)
  next
    case False
    then have e: "nod_lottery s' = ((nod_lottery s)(n_LotteryNo d := None))(n_LotteryNo d' \<mapsto> acc)"
      "((nod_lottery s)(n_LotteryNo d := None)) (n_LotteryNo d') = None"
      using q by (auto simp: requeued_def Let_def)
    show ?thesis
    proof (cases "n = n_LotteryNo d'")
      case True
      have "a \<noteq> acc \<Longrightarrow> nod_store s a = Some d2 \<Longrightarrow> n_LotteryNo d2 \<noteq> n" for d2
        using R[of n a] e(2) True False by auto
      then show ?thesis using True False e(1) by (auto simp: st)
    next
      case f: False
      then show ?thesis using R[of n a] e(1) by (auto simp: st)
    qed
  qed
  then show ?thesis using lottery_okD(1)[OF s(1)] st by (simp add: lottery_ok_def)
qed

lemma when_queued_exclude:
  assumes "lottery_ok s"
  shows "when_queued lotteryExclude d s
    = (Ok (d\<lparr>n_LotteryNo := 0\<rparr>), s\<lparr>nod_lottery := (nod_lottery s)(n_LotteryNo d := None)\<rparr>)"
proof (cases "n_LotteryNo d = 0")
  case True
  then have "(nod_lottery s)(n_LotteryNo d := None) = nod_lottery s" "d\<lparr>n_LotteryNo := 0\<rparr> = d"
    using lottery_okD(2)[OF assms] by (auto simp: fun_eq_iff)
  then show ?thesis using True by (simp add: when_queued_def)
qed (simp add: when_queued_def lotteryExclude_def)

lemma sorted_le_last: "sorted_wrt (<) xs \<Longrightarrow> x \<in> set xs \<Longrightarrow> x \<le> (last xs :: 'a::linorder)"
  by (induction xs rule: rev_induct) (auto simp: sorted_wrt_append)

lemma next_number:
  fixes Q :: "64 word \<rightharpoonup> addr"
  assumes "finite (dom Q)" "\<forall>n\<in>dom Q. unat n + m < 2 ^ 64" "1 \<le> m" "m < 2 ^ 64"
  defines "n \<equiv> (if Q = Map.empty then 1 else last (store_keys Q) + 1)"
  shows "n \<noteq> 0 \<and> Q n = None \<and> (2 \<le> m \<longrightarrow> unat n + (m - 1) < 2 ^ 64)"
proof (cases "Q = Map.empty")
  case False
  then have ne: "store_keys Q \<noteq> []" using assms(1) set_store_keys[OF assms(1)] by fastforce
  define l where "l = last (store_keys Q)"
  have l: "l \<in> dom Q" using ne set_store_keys[OF assms(1)] last_in_set unfolding l_def by blast
  have top: "x \<le> l" if "x \<in> dom Q" for x
    using that set_store_keys[OF assms(1)] sorted_le_last[OF sorted_store_keys] unfolding l_def by blast
  have u: "unat l + m < 2 ^ 64" using l assms(2) by blast
  have n: "n = l + 1" using False by (simp add: n_def l_def)
  have un: "unat n = Suc (unat l)"
    using u assms(3) unfolding n by (simp add: unat_word_ariths)
  have "l < n" using un by (simp add: word_less_nat_alt)
  then have "Q n = None" using top by (meson domIff leD)
  moreover have "n \<noteq> 0" using un by auto
  ultimately show ?thesis using un u by simp
qed (use assms in \<open>auto simp: n_def\<close>)


lemma lotteryAddNew_Ok:
  assumes "finite (dom (nod_lottery s))" "room m s" "1 \<le> m" "n_LotteryNo d = 0"
  obtains n where "lotteryAddNew acc d s = (Ok (d\<lparr>n_LotteryNo := n\<rparr>), s\<lparr>nod_lottery := (nod_lottery s)(n \<mapsto> acc)\<rparr>)"
    "n \<noteq> 0" "nod_lottery s n = None" "2 \<le> m \<longrightarrow> unat n + (m - 1) < 2 ^ 64"
proof -
  define n where "n = (if nod_lottery s = Map.empty then 1 else last (store_keys (nod_lottery s)) + 1)"
  have "lotteryAddNew acc d s = (Ok (d\<lparr>n_LotteryNo := n\<rparr>), s\<lparr>nod_lottery := (nod_lottery s)(n \<mapsto> acc)\<rparr>)"
    using assms(4) by (simp add: lotteryAddNew_def n_def Let_def)
  moreover have "n \<noteq> 0 \<and> nod_lottery s n = None \<and> (2 \<le> m \<longrightarrow> unat n + (m - 1) < 2 ^ 64)"
    unfolding n_def by (rule next_number) (use assms in \<open>auto simp: room_def\<close>)
  ultimately show ?thesis using that by blast
qed

text \<open>The numbers after a step: old ones, or new ones that leave room for \<open>m\<close> more.\<close>

definition grows :: "nat \<Rightarrow> (64 word \<rightharpoonup> addr) \<Rightarrow> (64 word \<rightharpoonup> addr) \<Rightarrow> bool" where
  "grows m Q Q' \<longleftrightarrow> (\<forall>n\<in>dom Q'. n \<in> dom Q \<or> unat n + m < 2 ^ 64)"

definition queue_ok :: "nat \<Rightarrow> 's nod_ctx_scheme \<Rightarrow> bool" where
  "queue_ok m s \<longleftrightarrow> lottery_ok s \<and> room m s"

lemma grows_refl [simp]: "grows m Q Q" "grows m Q (Q(n := None))"
  by (auto simp: grows_def split: if_splits)

lemma room_grows: "room (Suc m) s \<Longrightarrow> grows m (nod_lottery s) (nod_lottery s') \<Longrightarrow> room m s'"
  unfolding room_def grows_def by (metis Suc_lessD add_Suc_right)

lemma lotteryDownshift_Ok:
  assumes s: "queue_ok (Suc m) s" and d: "n_LotteryNo d \<noteq> 0"
  obtains d' Q where "lotteryDownshift acc d s = (Ok d', s\<lparr>nod_lottery := Q\<rparr>)"
    "d' = d\<lparr>n_LotteryNo := n_LotteryNo d'\<rparr>" "requeued acc d d' (nod_lottery s) Q" "grows m (nod_lottery s) Q"
proof -
  let ?R = "(nod_lottery s)(n_LotteryNo d := None)"
  let ?s = "s\<lparr>nod_lottery := ?R\<rparr>" and ?d = "d\<lparr>n_LotteryNo := 0\<rparr>"
  have "finite (dom ?R)" using lottery_finite s by (auto simp: queue_ok_def intro: finite_subset[rotated])
  moreover have "room (Suc m) ?s" using s by (auto simp: queue_ok_def room_def split: if_splits)
  ultimately obtain n where n: "lotteryAddNew acc ?d ?s = (Ok (?d\<lparr>n_LotteryNo := n\<rparr>), ?s\<lparr>nod_lottery := ?R(n \<mapsto> acc)\<rparr>)"
    "n \<noteq> 0" "?R n = None" "2 \<le> Suc m \<longrightarrow> unat n + (Suc m - 1) < 2 ^ 64"
    using lotteryAddNew_Ok[of ?s "Suc m" ?d acc] by auto
  have "unat n + m < 2 ^ 64" using n(4) unsigned_less[of n] by (cases m) auto
  then have g: "grows m (nod_lottery s) (?R(n \<mapsto> acc))" by (auto simp: grows_def split: if_splits)
  show ?thesis
    by (rule that[of "d\<lparr>n_LotteryNo := n\<rparr>" "?R(n \<mapsto> acc)"])
      (use n(1,2,3) d g in \<open>auto simp: lotteryDownshift_def lotteryExclude_def requeued_def Let_def\<close>)
qed

lemma when_queued_downshift:
  assumes s: "queue_ok (Suc m) s" and a: "nod_store s acc = Some d0" "n_LotteryNo d = n_LotteryNo d0"
  obtains d' Q where "when_queued (lotteryDownshift acc) d s = (Ok d', s\<lparr>nod_lottery := Q\<rparr>)"
    "requeued acc d0 d' (nod_lottery s) Q" "grows m (nod_lottery s) Q"
proof (cases "n_LotteryNo d = 0")
  case True
  show ?thesis
    by (rule that[of d "nod_lottery s"])
      (use True requeued_same[OF _ a(1), of d] a(2) s in \<open>auto simp: when_queued_def queue_ok_def\<close>)
next
  case False
  from lotteryDownshift_Ok[OF s False, of acc] obtain d' Q where
    "lotteryDownshift acc d s = (Ok d', s\<lparr>nod_lottery := Q\<rparr>)"
    "requeued acc d d' (nod_lottery s) Q" "grows m (nod_lottery s) Q" by blast
  then show ?thesis using False a(2) that[of d' Q] by (simp add: when_queued_def requeued_def)
qed

section \<open>Single validators\<close>

text \<open>What the callback of an update has to show, for each way it can end.\<close>

definition in_step :: "nat \<Rightarrow> addr \<Rightarrow> nod_info \<Rightarrow> 's nod_ctx_scheme \<Rightarrow> (bool \<times> nod_info) res \<times> 's nod_ctx_scheme \<Rightarrow> bool" where
  "in_step m acc d s r \<longleftrightarrow> nod_store (snd r) = nod_store s \<and> grows m (nod_lottery s) (nod_lottery (snd r))
     \<and> (case fst r of
           Ok (True, d') \<Rightarrow> requeued acc d d' (nod_lottery s) (nod_lottery (snd r))
         | _ \<Rightarrow> nod_lottery (snd r) = nod_lottery s)"

lemma queue_ok_view:
  assumes "queue_ok (Suc m) s" "nod_store s' = nod_store s" "nod_lottery s' = nod_lottery s"
  shows "queue_ok m s'"
  using assms room_grows[of m s s'] by (simp add: queue_ok_def lottery_ok_def)

lemma nod_update_in_step:
  assumes s: "queue_ok (Suc m) s" and cb: "\<And>d. nod_store s acc = Some d \<Longrightarrow> in_step m acc d s (cb d s)"
  shows "queue_ok m (snd (nod_update acc cb s))"
proof (cases "nod_store s acc")
  case None
  then show ?thesis using queue_ok_view[OF s, of s] by (simp add: nod_update_def)
next
  case (Some d)
  note I = cb[OF Some]
  show ?thesis
  proof (cases "\<exists>d'. fst (cb d s) = Ok (True, d')")
    case True
    then obtain d' where c: "cb d s = (Ok (True, d'), snd (cb d s))" by (cases "cb d s") auto
    have "lottery_ok (nod_set acc d' (snd (cb d s)))"
      by (rule lottery_ok_requeued[of s acc d d'])
        (use s Some I c in \<open>auto simp: queue_ok_def in_step_def nod_set_def dest: arg_cong[of _ _ fst]\<close>)
    moreover have "room m (nod_set acc d' (snd (cb d s)))"
      by (rule room_grows[of m s]) (use s I in \<open>auto simp: queue_ok_def in_step_def nod_set_def\<close>)
    moreover have "nod_update acc cb s = (Ok (), nod_set acc d' (snd (cb d s)))"
      unfolding nod_update_def using Some by (simp, subst c, simp)
    ultimately show ?thesis by (simp add: queue_ok_def)
  next
    case False
    then have "nod_lottery (snd (cb d s)) = nod_lottery s" "nod_store (snd (cb d s)) = nod_store s"
      using I by (auto simp: in_step_def split: res.splits bool.splits prod.splits)
    moreover have "snd (nod_update acc cb s) = snd (cb d s)"
      using Some False by (auto simp: nod_update_def and_then_eq split: res.splits prod.splits)
    ultimately show ?thesis using queue_ok_view[OF s] by simp
  qed
qed

lemma emit_nod [simp]:
  "nod_store (emit e s) = nod_store s" "nod_lottery (emit e s) = nod_lottery s"
  "nod_params_store (emit e s) = nod_params_store s"
  by (simp_all add: emit_def)

lemma queue_ok_emit [simp]: "queue_ok m (emit e s) = queue_ok m s"
  by (simp add: queue_ok_def lottery_ok_def room_def)

lemma queue_ok_operator [simp]: "queue_ok m (addNodeOperatorToIndex c a s) = queue_ok m s"
  by (simp add: queue_ok_def lottery_ok_def room_def addNodeOperatorToIndex_def)

lemma queue_ok_less: "queue_ok (Suc m) s \<Longrightarrow> queue_ok m s"
  by (rule queue_ok_view) simp_all

lemma queue_ok_set:
  assumes "queue_ok m s" "case nod_store s acc of None \<Rightarrow> n_LotteryNo d' = 0 | Some d \<Rightarrow> n_LotteryNo d' = n_LotteryNo d"
  shows "queue_ok m (nod_set acc d' s)"
proof -
  have s: "lottery_ok s" using assms(1) by (simp add: queue_ok_def)
  have "lottery_ok (nod_set acc d' s)"
  proof (cases "nod_store s acc")
    case None
    then have "nod_lottery s n \<noteq> Some acc" for n using lottery_okD(4)[OF s, of n acc] by auto
    then show ?thesis using s assms(2) None by (auto simp: lottery_ok_def nod_set_def)
  next
    case (Some d)
    show ?thesis
      by (rule lottery_ok_requeued[OF s Some, of d'])
        (use assms Some requeued_same[OF s Some, of d'] in \<open>auto simp: nod_set_def\<close>)
  qed
  then show ?thesis using assms(1) by (simp add: queue_ok_def room_def nod_set_def)
qed

lemma requeued_out: "n_LotteryNo d' = 0 \<Longrightarrow> requeued acc d d' Q (Q(n_LotteryNo d := None))"
  by (simp add: requeued_def Let_def)

lemma record_lottery [simp]:
  "n_LotteryNo (tick_record d) = n_LotteryNo d" "n_LotteryNo (stroke_record d) = n_LotteryNo d"
  "n_LotteryNo (fst (UpdateScore K st x)) = n_LotteryNo x"
  by (simp_all add: tick_record_def stroke_record_def UpdateScore_def Let_def)

lemma SwitchOff_queue: "queue_ok (Suc m) s \<Longrightarrow> queue_ok m (snd (SwitchOff acc s))"
  unfolding SwitchOff_def
  by (rule nod_update_in_step) (auto simp: queue_ok_def in_step_def when_queued_exclude requeued_out)

lemma MarkTick_queue: "queue_ok (Suc m) s \<Longrightarrow> queue_ok m (snd (MarkTick acc s))"
  unfolding MarkTick_def
  by (rule nod_update_in_step) (auto simp: queue_ok_def in_step_def requeued_same)

lemma MarkStroke_queue:
  assumes s: "queue_ok (Suc m) s"
  shows "queue_ok m (snd (MarkStroke k acc s))"
  unfolding MarkStroke_def Let_def
proof (rule nod_update_in_step[OF s], goal_cases)
  case (1 d)
  have l: "n_LotteryNo (stroke_record d) = n_LotteryNo d" by simp
  from when_queued_downshift[OF s 1 l] obtain d' Q where
    q: "when_queued (lotteryDownshift acc) (stroke_record d) s = (Ok d', s\<lparr>nod_lottery := Q\<rparr>)"
    "requeued acc d d' (nod_lottery s) Q" "grows m (nod_lottery s) Q" by blast
  have o: "lottery_ok s" using s by (simp add: queue_ok_def)
  show ?case using q(2,3) by (simp add: in_step_def when_queued_exclude[OF o] q(1) requeued_out)
qed

lemma Unjail_queue:
  assumes s: "queue_ok (Suc m) s"
  shows "queue_ok m (snd (nod_Unjail k acc s))"
proof -
  have o: "queue_ok m (nod_set acc d' s1)"
    if "nod_store s acc = Some d" "n_LotteryNo d' = n_LotteryNo d" "queue_ok m s1" "nod_store s1 = nod_store s" for d d' s1
    by (rule queue_ok_set[OF that(3)]) (use that in simp)
  have o1: "nod_store s acc = Some d \<Longrightarrow> queue_ok m (nod_set acc (fst (UpdateScore K x (d\<lparr>n_Jailed := False\<rparr>))) s)" for d K x
    by (rule o) (simp_all add: queue_ok_less[OF s])
  have o2: "nod_store s acc = Some d \<Longrightarrow> queue_ok m (nod_set acc (d\<lparr>n_Jailed := False, n_Status := False\<rparr>) (emit e s))" for d e
    by (rule o) (simp_all add: queue_ok_less[OF s])
  show ?thesis
    unfolding nod_Unjail_def lift_res_def nod_Get_def
    by (auto simp: queue_ok_less[OF s] split: option.splits
        intro!: keeps_and_then[where P = "queue_ok m"] o1 o2)
qed

lemma SwitchOn_queue:
  assumes s: "queue_ok (Suc m) s"
  shows "queue_ok m (snd (SwitchOn k acc key s))"
proof -
  have u: "queue_ok m (snd (nod_update acc (\<lambda>d s. and_then (Int64 x, s) (\<lambda>stake s.
      (Ok (True, fst (UpdateScore K stake (d\<lparr>n_Status := True, n_PubKey := b\<rparr>))), s))) s))" for x K b
    by (cases "Int64 x"; cases "nod_store s acc")
      (auto simp: nod_update_def queue_ok_less[OF s] simp del: Int64_Ok intro!: queue_ok_set)
  have v: "nod_store s acc = None \<Longrightarrow> queue_ok m (nod_set acc (nod_NewInfo K b x) s)" for K b x
    by (rule queue_ok_set[OF queue_ok_less[OF s]]) (simp add: nod_NewInfo_def zero_nod_info_def)
  show ?thesis
    unfolding SwitchOn_def lift_res_def
    by (auto simp: queue_ok_less[OF s] nod_has_def intro!: keeps_and_then[where P = "queue_ok m"] u v split: option.splits)
qed

lemma OnStatusUpdate_queue: "queue_ok (Suc m) s \<Longrightarrow> queue_ok m (snd (OnStatusUpdate k acc s))"
  unfolding OnStatusUpdate_def lift_res_def
  by (auto simp: queue_ok_less intro!: keeps_and_then[where P = "queue_ok m"] SwitchOff_queue)

lemma AddToStaff_queue:
  assumes s: "queue_ok (Suc m) s"
  shows "queue_ok m (snd (AddToStaff acc s))"
proof (cases "nod_store s acc")
  case None
  then show ?thesis
    using queue_ok_set[OF queue_ok_less[OF s], where acc = acc and d' = "zero_nod_info\<lparr>n_Staff := True\<rparr>"]
    by (simp add: AddToStaff_def nod_has_def zero_nod_info_def)
next
  case (Some d)
  then show ?thesis
    using queue_ok_set[OF queue_ok_less[OF s], where acc = acc and d' = "d\<lparr>n_Staff := True\<rparr>"] queue_ok_less[OF s]
    by (simp add: AddToStaff_def nod_has_def nod_update_def)
qed


lemma amnesty_step:
  assumes "queue_ok m s" "\<forall>a d. (a, d) \<in> set items \<longrightarrow> (\<exists>d0. nod_store s a = Some d0 \<and> n_LotteryNo d = n_LotteryNo d0)"
  shows "queue_ok m (fold (\<lambda>(acc, item) s. if n_Strokes item = 0 \<and> n_JailCount item = 0 then s
     else nod_set acc (item\<lparr>n_Score := wrap64 (n_Score item + n_Strokes item), n_Strokes := 0, n_JailCount := 0\<rparr>) s) items s)"
  using assms
proof (induction items arbitrary: s)
  case (Cons x items)
  obtain a d where x: "x = (a, d)" by (cases x)
  define d' where "d' = d\<lparr>n_Score := wrap64 (n_Score d + n_Strokes d), n_Strokes := 0, n_JailCount := 0\<rparr>"
  define s1 where "s1 = (if n_Strokes d = 0 \<and> n_JailCount d = 0 then s else nod_set a d' s)"
  obtain d0 where d0: "nod_store s a = Some d0" "n_LotteryNo d = n_LotteryNo d0" using Cons.prems(2) x by auto
  have "queue_ok m s1"
    unfolding s1_def using Cons.prems(1) queue_ok_set[OF Cons.prems(1), where acc = a and d' = d'] d0
    by (simp add: d'_def)
  moreover have "\<exists>d0. nod_store s1 b = Some d0 \<and> n_LotteryNo e = n_LotteryNo d0" if "(b, e) \<in> set items" for b e
  proof -
    have "\<exists>d0. nod_store s b = Some d0 \<and> n_LotteryNo e = n_LotteryNo d0" using Cons.prems(2) that by simp
    then show ?thesis using d0 by (auto simp: s1_def nod_set_def d'_def)
  qed
  ultimately have "queue_ok m (fold (\<lambda>(acc, item) s. if n_Strokes item = 0 \<and> n_JailCount item = 0 then s
     else nod_set acc (item\<lparr>n_Score := wrap64 (n_Score item + n_Strokes item), n_Strokes := 0, n_JailCount := 0\<rparr>) s) items s1)"
    by (intro Cons.IH) auto
  then show ?case by (auto simp: x s1_def d'_def split: if_splits)
qed simp

lemma GeneralAmnesty_queue: "queue_ok m s \<Longrightarrow> queue_ok m (GeneralAmnesty s)"
  unfolding GeneralAmnesty_def
  by (rule amnesty_step) (auto simp: queue_ok_def lottery_ok_def store_items_mem)

section \<open>Any sequence of calls\<close>

text \<open>The operations of the keeper on single validators that move no coins.\<close>

datatype nod_call = CallOn addr pubkey | CallOff addr | CallStatus addr | CallStroke addr | CallTick addr
  | CallUnjail addr | CallStaff addr | CallAmnesty

fun run_call :: "'s nod_keeper \<Rightarrow> nod_call \<Rightarrow> 's nod_ctx_scheme \<Rightarrow> 's nod_ctx_scheme" where
  "run_call k (CallOn a key) s = snd (SwitchOn k a key s)"
| "run_call k (CallOff a) s = snd (SwitchOff a s)"
| "run_call k (CallStatus a) s = snd (OnStatusUpdate k a s)"
| "run_call k (CallStroke a) s = snd (MarkStroke k a s)"
| "run_call k (CallTick a) s = snd (MarkTick a s)"
| "run_call k (CallUnjail a) s = snd (nod_Unjail k a s)"
| "run_call k (CallStaff a) s = snd (AddToStaff a s)"
| "run_call k CallAmnesty s = GeneralAmnesty s"

lemma run_call_queue: "queue_ok (Suc m) s \<Longrightarrow> queue_ok m (run_call k c s)"
  by (cases c) (simp_all add: SwitchOn_queue SwitchOff_queue OnStatusUpdate_queue MarkStroke_queue MarkTick_queue
      Unjail_queue AddToStaff_queue GeneralAmnesty_queue queue_ok_less)

lemma run_calls_queue: "queue_ok (length cs + m) s \<Longrightarrow> queue_ok m (fold (run_call k) cs s)"
  by (induction cs arbitrary: s) (auto intro: run_call_queue)

text \<open>C14. The lottery queue and the validator records stay in step: through any sequence of switching
  on and off, status updates, strokes, ticks, unjailing, staffing and amnesties, whatever their
  results, a number is in the queue exactly when one record holds it. The counter must not wrap
  on the way.\<close>

theorem lottery_stays_in_step:
  assumes "lottery_ok s" "room (length cs) s"
  shows "lottery_ok (fold (run_call k) cs s)"
  using run_calls_queue[of cs 0 s k] assms by (simp add: queue_ok_def)


text \<open>
  An example: \<open>w\<close> validates and is first in the queue, \<open>v\<close> does and is not in it, \<open>u\<close> has
  switched off the key \<open>v\<close> now uses.
\<close>

definition ex_keys :: key_lib where
  "ex_keys = \<lparr>ParseConsPubKey = (\<lambda>x. if take 3 x = ''pub'' then Some (drop 3 x) else None),
     MustFormatConsPubKey = (\<lambda>key. ''pub'' @ key), ConsAddress = (\<lambda>key. key), ToTmProtoPublicKey = Some,
     LogInt = (\<lambda>x. if x < 2 then 0 else 1)\<rparr>"

fun insert_by :: "('a \<Rightarrow> 'a \<Rightarrow> bool) \<Rightarrow> 'a \<Rightarrow> 'a list \<Rightarrow> 'a list" where
  "insert_by before x [] = [x]"
| "insert_by before x (y # ys) = (if before y x then y # insert_by before x ys else x # y # ys)"

definition ex_nk :: "unit nod_keeper" where
  "ex_nk = \<lparr>nk_bank = \<lparr>bk_sdk = ref_sdk, bk_module_addr = Map.empty, bk_perm = (\<lambda>m p. True),
       bk_blockedAddrs = (\<lambda>a. False), bk_setCoinHooks = []\<rparr>,
     nk_keys = ex_keys, nk_sort = (\<lambda>before xs. foldr (insert_by before) xs []),
     nk_feeCollectorName = ''fee_collector'', nk_splittableFeeCollectorName = ''splittable_fee_collector''\<rparr>"

definition ex_info_nod :: "string \<Rightarrow> int \<Rightarrow> 64 word \<Rightarrow> nod_info" where
  "ex_info_nod key sc no = zero_nod_info\<lparr>n_Status := True, n_PubKey := key, n_Score := sc, n_LotteryNo := no\<rparr>"

definition ex_nod :: nod_ctx where
  "ex_nod = \<lparr>block_time = 1000, block_height = 7, events = [], sched_params_store = None, sched_store = Map.empty,
     accounts = {''w'', ''v'', ''u''}, balances = Map.empty, total_supply = Some [], bank_params_store = None,
     denom_metadata = Map.empty, ref_store = Map.empty, ref_index = {}, ref_params_store = None,
     nod_store = [''w'' \<mapsto> ex_info_nod ''pubW'' 3 1, ''v'' \<mapsto> ex_info_nod ''pubK'' 5 0,
       ''u'' \<mapsto> zero_nod_info\<lparr>n_PubKey := ''pubK'', n_LastPubKey := ''pubK'', n_LastPower := 15\<rparr>],
     nod_operators = Map.empty, nod_proposers = Map.empty, nod_lottery = [1 \<mapsto> ''w''],
     nod_params_store = Some ex_nod_params, nod_index_marked = True\<rparr>"

lemma ex_nod_sel [simp]:
  "nod_store ex_nod = [''w'' \<mapsto> ex_info_nod ''pubW'' 3 1, ''v'' \<mapsto> ex_info_nod ''pubK'' 5 0,
       ''u'' \<mapsto> zero_nod_info\<lparr>n_PubKey := ''pubK'', n_LastPubKey := ''pubK'', n_LastPower := 15\<rparr>]"
  "nod_lottery ex_nod = [1 \<mapsto> ''w'']" "nod_params_store ex_nod = Some ex_nod_params"
  by (simp_all add: ex_nod_def)

lemma ex_info_nod_sel [simp]:
  "n_LotteryNo (ex_info_nod key sc no) = no" "n_LotteryNo zero_nod_info = 0" "n_PubKey (ex_info_nod key sc no) = key"
  "n_Score (ex_info_nod key sc no) = sc" "n_LastPower (ex_info_nod key sc no) = 0" "n_LastPubKey (ex_info_nod key sc no) = []"
  "IsActive (ex_info_nod key sc no)" "\<not> IsActive (zero_nod_info\<lparr>n_PubKey := key', n_LastPubKey := key, n_LastPower := pw\<rparr>)"
  by (simp_all add: ex_info_nod_def zero_nod_info_def IsActive_def)

lemma ex_lottery_ok: "lottery_ok ex_nod" "room m ex_nod = (m < 2 ^ 64 - 1)"
  by (auto simp: lottery_ok_def room_def)

theorem lottery_stays_in_step_witness:
  "lottery_ok (fold (run_call ex_nk) [CallStroke ''w'', CallOff ''w'', CallAmnesty] ex_nod)"
  by (rule lottery_stays_in_step) (simp_all add: ex_lottery_ok)

end
