(* ===== verification/Noding_Gather.thy ===== *)
theory Noding_Gather
  imports Noding_Lottery
begin

text \<open>
  The updates at the end of a block: what each of the three passes leaves of the records and
  of the queue, the bound on the validators with power, and what the list of updates looks like.
\<close>

section \<open>The passes\<close>

definition ranks_sorted :: "'s nod_keeper \<Rightarrow> bool" where
  "ranks_sorted k \<longleftrightarrow> (\<forall>xs. mset (nk_sort k ranks_before xs) = mset xs
     \<and> sorted_wrt (\<lambda>x y. \<not> ranks_before y x) (nk_sort k ranks_before xs))"

text \<open>The records \<open>xs\<close> as they are in the store.\<close>

definition stored :: "(addr \<times> nod_info) list \<Rightarrow> 's nod_ctx_scheme \<Rightarrow> bool" where
  "stored xs s \<longleftrightarrow> distinct (map fst xs) \<and> (\<forall>a d. (a, d) \<in> set xs \<longrightarrow> nod_store s a = Some d)"

lemma stored_Cons: "stored ((a, d) # xs) s \<longleftrightarrow> a \<notin> fst ` set xs \<and> nod_store s a = Some d \<and> stored xs s"
  by (auto simp: stored_def)

lemma stored_other:
  assumes "stored xs s" "\<And>a. a \<in> fst ` set xs \<Longrightarrow> nod_store s' a = nod_store s a"
  shows "stored xs s'"
  using assms unfolding stored_def by force

lemma nod_update_Ok:
  assumes "nod_store s acc = Some d" "nod_update acc (\<lambda>d s. (Ok (True, f d), s)) s = (Ok (), s')"
  shows "s' = nod_set acc (f d) s"
  using assms by (simp add: nod_update_def)

lemma IsActive_power [simp]:
  "IsActive (d\<lparr>n_LastPower := p, n_LastPubKey := x\<rparr>) = IsActive d"
  "IsActive (d\<lparr>n_LastPower := p, n_LastPubKey := x, n_LotteryNo := n\<rparr>) = IsActive d"
  by (simp_all add: IsActive_def)

lemma lift_then_Ok: "and_then (lift_res r s) f = (Ok w, s') \<longleftrightarrow> (\<exists>v. r = Ok v \<and> f v s = (Ok w, s'))"
  by (cases r) (simp_all add: lift_res_def)

lemma unit_then_Ok: "and_then r f = (Ok w, s') \<longleftrightarrow> (\<exists>s. r = (Ok (), s) \<and> f () s = (Ok w, s'))"
  by (simp add: and_then_Ok_iff)

text \<open>The record \<open>d\<close> and what the first pass leaves of it.\<close>

definition scanned :: "nod_info \<Rightarrow> nod_info \<Rightarrow> bool" where
  "scanned d d' \<longleftrightarrow> n_LotteryNo d' = n_LotteryNo d \<and> IsActive d' = IsActive d
     \<and> (if IsActive d then d' = d else n_LastPower d' = 0)"

lemma gather_scan_Ok:
  assumes "gather_scan k items result active s = (Ok (result', active'), s')" "stored items s"
  shows "nod_lottery s' = nod_lottery s \<and> nod_params_store s' = nod_params_store s
    \<and> active' = active @ filter (\<lambda>x. IsActive (snd x)) items
    \<and> (\<forall>a. a \<notin> fst ` set items \<longrightarrow> nod_store s' a = nod_store s a)
    \<and> (\<forall>a d. (a, d) \<in> set items \<longrightarrow> (\<exists>d'. nod_store s' a = Some d' \<and> scanned d d'))"
  using assms
proof (induction items arbitrary: result active s)
  case Nil
  then show ?case by simp
next
  case (Cons x items)
  obtain a d where x: "x = (a, d)" by (cases x)
  have st: "a \<notin> fst ` set items" "nod_store s a = Some d" "stored items s" using Cons.prems(2) by (auto simp: x stored_Cons)
  obtain result1 active1 s1 where s1: "gather_scan k items result1 active1 s1 = (Ok (result', active'), s')"
    "nod_lottery s1 = nod_lottery s" "nod_params_store s1 = nod_params_store s"
    "active1 = active @ (if IsActive d then [(a, d)] else [])"
    "\<forall>b. b \<noteq> a \<longrightarrow> nod_store s1 b = nod_store s b"
    "\<exists>d'. nod_store s1 a = Some d' \<and> scanned d d'"
  proof (cases "IsActive d")
    case True
    then obtain key where "gather_scan k items result (active @ [(a, d)]) (addNodeOperatorToIndex (ConsAddress (nk_keys k) key) a s)
        = (Ok (result', active'), s')"
      using Cons.prems(1) by (auto simp: x and_then_Ok_iff lift_res_def)
    from that[OF this] show ?thesis using True st(2) by (simp add: addNodeOperatorToIndex_def scanned_def)
  next
    case False
    show ?thesis
    proof (cases "n_LastPower d = 0")
      case True
      then have "gather_scan k items result active s = (Ok (result', active'), s')" using Cons.prems(1) False by (simp add: x)
      from that[OF this] show ?thesis using True False st(2) by (simp add: scanned_def)
    next
      case p: False
      then obtain r s1 where r: "lose_power a s = (Ok (), s1)" "gather_scan k items r active s1 = (Ok (result', active'), s')"
        using Cons.prems(1) False by (auto simp: x and_then_Ok_iff lift_res_def split: if_splits)
      have "s1 = nod_set a (d\<lparr>n_LastPower := 0, n_LastPubKey := []\<rparr>) s"
        using r(1) st(2) by (simp add: lose_power_def nod_update_def)
      then show ?thesis using that[OF r(2)] False by (simp add: nod_set_def scanned_def)
    qed
  qed
  have "stored items s1" by (rule stored_other[OF st(3)]) (metis s1(5) st(1))
  note I = Cons.IH[OF s1(1) this]
  have a: "nod_store s' a = nod_store s1 a" using I st(1) by blast
  have other: "\<forall>b. b \<notin> fst ` set (x # items) \<longrightarrow> nod_store s' b = nod_store s b" using I s1(5) by (simp add: x)
  have each: "\<exists>d'. nod_store s' b = Some d' \<and> scanned e d'"
    if "(b, e) \<in> set (x # items)" for b e
  proof (cases "(b, e) = (a, d)")
    case True
    then have "b = a" "e = d" by auto
    then show ?thesis using s1(6) unfolding a[symmetric] by (simp only:)
  next
    case False
    then have "(b, e) \<in> set items" using that x by auto
    then show ?thesis using I by blast
  qed
  have act: "active' = active @ filter (\<lambda>x. IsActive (snd x)) (x # items)" using I s1(4) by (simp add: x)
  have l: "nod_lottery s' = nod_lottery s" "nod_params_store s' = nod_params_store s" using I s1(2,3) by simp_all
  show ?case by (intro conjI allI impI l act each) (use other in blast)
qed


lemma lottery_sel: "n_LotteryNo (d\<lparr>n_LotteryNo := x\<rparr>) = x"
  by simp

lemma queue_ok_change:
  assumes "queue_ok (Suc m) s" "nod_store s a = Some d" "nod_store t = (nod_store s)(a \<mapsto> e)"
    "requeued a d e (nod_lottery s) (nod_lottery t)" "grows m (nod_lottery s) (nod_lottery t)"
  shows "queue_ok m t"
  using assms lottery_ok_requeued[of s a d e t] room_grows[of m s t] by (simp add: queue_ok_def)

lemma top_step:
  assumes ok: "gather_top k vpg ((a, d) # xs) result s = (Ok r, s')" and a: "nod_store s a = Some d" and q: "lottery_ok s"
  obtains vpg1 result1 d1 s1 where "gather_top k vpg1 xs result1 s1 = (Ok r, s')"
    "nod_store s1 = (nod_store s)(a \<mapsto> d1)" "n_LotteryNo d1 = 0" "IsActive d1 = IsActive d"
    "nod_lottery s1 = (nod_lottery s)(n_LotteryNo d := None)" "nod_params_store s1 = nod_params_store s"
proof -
  let ?s = "s\<lparr>nod_lottery := (nod_lottery s)(n_LotteryNo d := None)\<rparr>"
  have ne: "n_PubKey d \<noteq> []" using ok by (cases "n_PubKey d = []") simp_all
  obtain pw vpg1 result1 upd s1 where u: "(if upd \<or> n_LotteryNo d \<noteq> 0
      then nod_update a (\<lambda>d s. (Ok (True, d\<lparr>n_LastPower := pw, n_LastPubKey := n_PubKey d, n_LotteryNo := 0\<rparr>), s)) ?s
      else (Ok (), ?s)) = (Ok (), s1)" "gather_top k vpg1 xs result1 s1 = (Ok r, s')"
    using ok ne
    by (simp only: gather_top.simps if_False simp_thms lift_then_Ok Let_def when_queued_exclude[OF q] and_then.simps
        unit_then_Ok split_paired_Ex prod.case lottery_sel) blast
  show ?thesis
  proof (cases "upd \<or> n_LotteryNo d \<noteq> 0")
    case True
    then have "s1 = nod_set a (d\<lparr>n_LastPower := pw, n_LastPubKey := n_PubKey d, n_LotteryNo := 0\<rparr>) ?s"
      using u(1) a by (simp add: nod_update_def)
    then show ?thesis using that[OF u(2)] by (simp add: nod_set_def)
  next
    case False
    then have "s1 = ?s" "n_LotteryNo d = 0" using u(1) by auto
    then show ?thesis using that[OF u(2), of d] a by (auto simp: fun_eq_iff)
  qed
qed

lemma gather_top_Ok:
  assumes "gather_top k vpg xs result s = (Ok r, s')" "stored xs s" "queue_ok m s"
  shows "queue_ok m s' \<and> nod_lottery s' \<subseteq>\<^sub>m nod_lottery s \<and> nod_params_store s' = nod_params_store s
    \<and> (\<forall>a. a \<notin> fst ` set xs \<longrightarrow> nod_store s' a = nod_store s a)
    \<and> (\<forall>a d. (a, d) \<in> set xs \<longrightarrow> (\<exists>d'. nod_store s' a = Some d' \<and> n_LotteryNo d' = 0 \<and> IsActive d' = IsActive d))"
  using assms
proof (induction xs arbitrary: vpg result s)
  case Nil
  then show ?case by simp
next
  case (Cons x xs)
  obtain a d where x: "x = (a, d)" by (cases x)
  have st: "a \<notin> fst ` set xs" "nod_store s a = Some d" "stored xs s" using Cons.prems(2) by (auto simp: x stored_Cons)
  have q: "lottery_ok s" using Cons.prems(3) by (simp add: queue_ok_def)
  obtain vpg1 result1 d1 s1 where s1: "gather_top k vpg1 xs result1 s1 = (Ok r, s')"
    "nod_store s1 = (nod_store s)(a \<mapsto> d1)" "n_LotteryNo d1 = 0" "IsActive d1 = IsActive d"
    "nod_lottery s1 = (nod_lottery s)(n_LotteryNo d := None)" "nod_params_store s1 = nod_params_store s"
    using top_step[OF _ st(2) q] Cons.prems(1) unfolding x by metis
  have "stored xs s1" by (rule stored_other[OF st(3)]) (use s1(2) st(1) in auto)
  moreover have "lottery_ok s1"
    by (rule lottery_ok_requeued[OF q st(2) _ s1(2)]) (simp add: s1(3,5) requeued_out)
  then have "queue_ok m s1" using Cons.prems(3) s1(5) by (auto simp: queue_ok_def room_def split: if_splits)
  ultimately have I: "queue_ok m s' \<and> nod_lottery s' \<subseteq>\<^sub>m nod_lottery s1 \<and> nod_params_store s' = nod_params_store s1
    \<and> (\<forall>a. a \<notin> fst ` set xs \<longrightarrow> nod_store s' a = nod_store s1 a)
    \<and> (\<forall>a d. (a, d) \<in> set xs \<longrightarrow> (\<exists>d'. nod_store s' a = Some d' \<and> n_LotteryNo d' = 0 \<and> IsActive d' = IsActive d))"
    using Cons.IH[OF s1(1)] by blast
  moreover have "nod_lottery s1 \<subseteq>\<^sub>m nod_lottery s" using s1(5) by (auto simp: map_le_def split: if_splits)
  ultimately have "nod_lottery s' \<subseteq>\<^sub>m nod_lottery s" using map_le_trans by blast
  moreover have "nod_store s' a = Some d1" using I st(1) s1(2) by simp
  ultimately show ?case using I s1(2,3,4,6) by (auto simp: x)
qed

lemma rest_step_lucky:
  assumes ok: "gather_rest k mx vpg ((a, d) # xs) result s = (Ok r, s')" and a: "nod_store s a = Some d"
    and q: "queue_ok (Suc m) s" and lucky: "n_LotteryNo d \<noteq> 0 \<and> n_LotteryNo d \<le> mx"
  obtains vpg1 result1 d1 s1 where "gather_rest k mx vpg1 xs result1 s1 = (Ok r, s')"
    "nod_store s1 = (nod_store s)(a \<mapsto> d1)" "IsActive d1 = IsActive d" "queue_ok m s1"
    "n_LastPower d1 \<noteq> 0 \<longrightarrow> n_LotteryNo d \<noteq> 0 \<and> n_LotteryNo d \<le> mx" "nod_params_store s1 = nod_params_store s"
proof -
  have o: "lottery_ok s" using q by (simp add: queue_ok_def)
  have same: "requeued a d d1 (nod_lottery s) (nod_lottery s)" if "n_LotteryNo d1 = n_LotteryNo d" for d1
    by (rule requeued_same[OF o a that])
  obtain pw vpg1 where g: "(if n_PubKey d = n_LastPubKey d \<and> n_LastPower d = pw
      then gather_rest k mx vpg1 xs result s
      else and_then (lift_res (retire_key k d result) s) (\<lambda>result s.
        and_then (lift_res (push_update k (n_PubKey d) pw result) s) (\<lambda>result s.
        and_then (nod_update a (\<lambda>d s. (Ok (True, d\<lparr>n_LastPower := pw, n_LastPubKey := n_PubKey d\<rparr>), s)) s) (\<lambda>_ s.
        gather_rest k mx vpg1 xs result s)))) = (Ok r, s')"
    using ok lucky by (simp add: and_then_Ok_iff lift_res_def split: prod.splits) blast
  show ?thesis
  proof (cases "n_PubKey d = n_LastPubKey d \<and> n_LastPower d = pw")
    case t: True
    then have "gather_rest k mx vpg1 xs result s = (Ok r, s')" using g by simp
    from that[OF this, of d] show ?thesis using a lucky queue_ok_less[OF q] by (simp add: map_upd_triv)
  next
    case False
    then obtain result1 s1 where u: "nod_update a (\<lambda>d s. (Ok (True, d\<lparr>n_LastPower := pw, n_LastPubKey := n_PubKey d\<rparr>), s)) s = (Ok (), s1)"
      "gather_rest k mx vpg1 xs result1 s1 = (Ok r, s')"
      using g by (auto simp: and_then_Ok_iff lift_res_def split: if_splits)
    have s1: "s1 = nod_set a (d\<lparr>n_LastPower := pw, n_LastPubKey := n_PubKey d\<rparr>) s"
      using u(1) a by (simp add: nod_update_def)
    have "queue_ok m s1"
      by (rule queue_ok_change[OF q a, where e = "d\<lparr>n_LastPower := pw, n_LastPubKey := n_PubKey d\<rparr>"])
        (simp_all add: s1 nod_set_def same)
    then show ?thesis using that[OF u(2)] lucky s1 by (simp add: nod_set_def)
  qed
qed

lemma rest_step_unlucky:
  assumes ok: "gather_rest k mx vpg ((a, d) # xs) result s = (Ok r, s')" and a: "nod_store s a = Some d"
    and q: "queue_ok (Suc m) s" and unlucky: "\<not> (n_LotteryNo d \<noteq> 0 \<and> n_LotteryNo d \<le> mx)"
  obtains vpg1 result1 d1 s1 where "gather_rest k mx vpg1 xs result1 s1 = (Ok r, s')"
    "nod_store s1 = (nod_store s)(a \<mapsto> d1)" "IsActive d1 = IsActive d" "queue_ok m s1"
    "n_LastPower d1 \<noteq> 0 \<longrightarrow> n_LotteryNo d \<noteq> 0 \<and> n_LotteryNo d \<le> mx" "nod_params_store s1 = nod_params_store s"
proof -
  have o: "lottery_ok s" using q by (simp add: queue_ok_def)
  have same: "requeued a d d1 (nod_lottery s) (nod_lottery s)" if "n_LotteryNo d1 = n_LotteryNo d" for d1
    by (rule requeued_same[OF o a that])
  obtain result1 d' s0 s1 where u:
    "(if n_LotteryNo d = 0 then must (lotteryAddNew a d s) else (Ok d, s)) = (Ok d', s0)"
    "(if n_LastPower d \<noteq> 0 \<or> n_LotteryNo d = 0
      then nod_update a (\<lambda>x s. (Ok (True, x\<lparr>n_LastPower := 0, n_LastPubKey := [], n_LotteryNo := n_LotteryNo d'\<rparr>), s)) s0
      else (Ok (), s0)) = (Ok (), s1)" "gather_rest k mx vpg xs result1 s1 = (Ok r, s')"
    using ok unlucky by (auto simp: and_then_Ok_iff lift_res_def)
  show ?thesis
  proof (cases "n_LotteryNo d = 0")
    case True
    have "finite (dom (nod_lottery s))" "room (Suc m) s" using lottery_finite[OF o] q by (auto simp: queue_ok_def)
    from lotteryAddNew_Ok[OF this _ True, of a] obtain n where n:
      "lotteryAddNew a d s = (Ok (d\<lparr>n_LotteryNo := n\<rparr>), s\<lparr>nod_lottery := (nod_lottery s)(n \<mapsto> a)\<rparr>)"
      "n \<noteq> 0" "nod_lottery s n = None" "2 \<le> Suc m \<longrightarrow> unat n + (Suc m - 1) < 2 ^ 64" by auto
    let ?d1 = "d\<lparr>n_LastPower := 0, n_LastPubKey := [], n_LotteryNo := n\<rparr>"
    have s1: "s1 = nod_set a ?d1 (s\<lparr>nod_lottery := (nod_lottery s)(n \<mapsto> a)\<rparr>)"
      using u(1,2) n(1) True a by (auto simp: nod_update_def)
    have "unat n + m < 2 ^ 64" using n(4) unsigned_less[of n] by (cases m) auto
    then have "queue_ok m s1"
      by (intro queue_ok_change[OF q a, where e = ?d1])
        (use n(2,3) True lottery_okD(2)[OF o] in \<open>auto simp: s1 nod_set_def requeued_def grows_def fun_eq_iff split: if_splits\<close>)
    then show ?thesis using that[OF u(3)] s1 by (simp add: nod_set_def)
  next
    case l: False
    show ?thesis
    proof (cases "n_LastPower d = 0")
      case True
      then have "s1 = s" using u l by auto
      then show ?thesis using that[OF u(3), of d] True a queue_ok_less[OF q] by (simp add: map_upd_triv)
    next
      case p: False
      let ?d1 = "d\<lparr>n_LastPower := 0, n_LastPubKey := [], n_LotteryNo := n_LotteryNo d\<rparr>"
      have s1: "s1 = nod_set a ?d1 s" using u(1,2) l p a by (auto simp: nod_update_def)
      have "queue_ok m s1"
        by (rule queue_ok_change[OF q a, where e = ?d1]) (simp_all add: s1 nod_set_def same)
      then show ?thesis using that[OF u(3)] s1 by (simp add: nod_set_def)
    qed
  qed
qed

lemma rest_step:
  assumes ok: "gather_rest k mx vpg ((a, d) # xs) result s = (Ok r, s')" and a: "nod_store s a = Some d"
    and q: "queue_ok (Suc m) s"
  obtains vpg1 result1 d1 s1 where "gather_rest k mx vpg1 xs result1 s1 = (Ok r, s')"
    "nod_store s1 = (nod_store s)(a \<mapsto> d1)" "IsActive d1 = IsActive d" "queue_ok m s1"
    "n_LastPower d1 \<noteq> 0 \<longrightarrow> n_LotteryNo d \<noteq> 0 \<and> n_LotteryNo d \<le> mx" "nod_params_store s1 = nod_params_store s"
proof (cases "n_LotteryNo d \<noteq> 0 \<and> n_LotteryNo d \<le> mx")
  case True
  show ?thesis by (rule rest_step_lucky[OF ok a q True]) (rule that)
next
  case False
  show ?thesis by (rule rest_step_unlucky[OF ok a q False]) (rule that)
qed

lemma gather_rest_Ok:
  assumes "gather_rest k mx vpg xs result s = (Ok r, s')" "stored xs s" "queue_ok (length xs + m) s"
  shows "queue_ok m s' \<and> (\<forall>a. a \<notin> fst ` set xs \<longrightarrow> nod_store s' a = nod_store s a)
    \<and> (\<forall>a d. (a, d) \<in> set xs \<longrightarrow> (\<exists>d'. nod_store s' a = Some d' \<and> IsActive d' = IsActive d
        \<and> (n_LastPower d' \<noteq> 0 \<longrightarrow> n_LotteryNo d \<noteq> 0 \<and> n_LotteryNo d \<le> mx)))"
  using assms
proof (induction xs arbitrary: vpg result s)
  case Nil
  then show ?case by simp
next
  case (Cons x xs)
  obtain a d where x: "x = (a, d)" by (cases x)
  have st: "a \<notin> fst ` set xs" "nod_store s a = Some d" "stored xs s" using Cons.prems(2) by (auto simp: x stored_Cons)
  have q: "queue_ok (Suc (length xs + m)) s" using Cons.prems(3) by simp
  obtain vpg1 result1 d1 s1 where s1: "gather_rest k mx vpg1 xs result1 s1 = (Ok r, s')"
    "nod_store s1 = (nod_store s)(a \<mapsto> d1)" "IsActive d1 = IsActive d" "queue_ok (length xs + m) s1"
    "n_LastPower d1 \<noteq> 0 \<longrightarrow> n_LotteryNo d \<noteq> 0 \<and> n_LotteryNo d \<le> mx"
    using rest_step[OF _ st(2) q] Cons.prems(1) unfolding x by metis
  have "stored xs s1" by (rule stored_other[OF st(3)]) (use s1(2) st(1) in auto)
  note I = Cons.IH[OF s1(1) this s1(4)]
  have "nod_store s' a = Some d1" using I st(1) s1(2) by simp
  then show ?case using I s1(2,3,5) by (auto simp: x)
qed


section \<open>The bound\<close>

lemma first_numbers:
  fixes ks :: "'a::linorder list"
  assumes "sorted_wrt (<) ks" "x \<in> set ks" "take n ks \<noteq> []" "x \<le> last (take n ks)"
  shows "x \<in> set (take n ks)"
proof (rule ccontr)
  assume "x \<notin> set (take n ks)"
  then have "x \<in> set (drop n ks)" using assms(2) by (metis append_take_drop_id Un_iff set_append)
  then have "last (take n ks) < x"
    using assms(1,3) by (metis append_take_drop_id last_in_set sorted_wrt_append)
  then show False using assms(4) by simp
qed

lemma queue_ok_le: "queue_ok m s \<Longrightarrow> m' \<le> m \<Longrightarrow> queue_ok m' s"
proof -
  assume q: "queue_ok m s" and le: "m' \<le> m"
  have "unat n + m' < 2 ^ 64" if "n \<in> dom (nod_lottery s)" for n
    using q le that by (meson add_left_mono le_less_trans queue_ok_def room_def)
  then show ?thesis using q le unfolding queue_ok_def room_def by (meson le_less_trans)
qed

lemma lottery_ok_same:
  assumes "lottery_ok s" "nod_lottery s' = nod_lottery s" "dom (nod_store s') = dom (nod_store s)"
    "\<And>a d d'. nod_store s a = Some d \<Longrightarrow> nod_store s' a = Some d' \<Longrightarrow> n_LotteryNo d' = n_LotteryNo d"
  shows "lottery_ok s'"
proof -
  have "(\<exists>d. nod_store s' a = Some d \<and> n_LotteryNo d = n) \<longleftrightarrow> (\<exists>d. nod_store s a = Some d \<and> n_LotteryNo d = n)" for a n
    using assms(3) assms(4)[of a] by (metis domD domI)
  then show ?thesis using assms(1,2,3) by (simp add: lottery_ok_def)
qed

lemma lucky_holders:
  assumes "lottery_ok s" "nod_store s a = Some d" "n_LotteryNo d \<noteq> 0" "n_LotteryNo d \<le> lotteryLastNo n s"
  shows "a \<in> (\<lambda>x. the (nod_lottery s x)) ` set (take n (store_keys (nod_lottery s)))"
proof -
  let ?ks = "store_keys (nod_lottery s)"
  have l: "nod_lottery s (n_LotteryNo d) = Some a" by (rule lottery_okD(3)[OF assms(1,2,3)])
  have "take n ?ks \<noteq> []"
  proof
    assume "take n ?ks = []"
    then have "lotteryLastNo n s = 0" by (simp only: lotteryLastNo_def Let_def if_True simp_thms)
    then show False using assms(3,4) by simp
  qed
  moreover have "n_LotteryNo d \<in> set ?ks" using l lottery_finite[OF assms(1)] by auto
  ultimately have "n_LotteryNo d \<in> set (take n ?ks)"
    using first_numbers[of ?ks "n_LotteryNo d" n] assms(4) by (simp add: lotteryLastNo_def Let_def split: if_splits)
  then show ?thesis using l by force
qed

text \<open>The parts of \<open>GatherValidatorUpdates_Ok\<close>: the first pass, the ranking, its two ends, the count.\<close>

lemma scan_stage:
  assumes scan: "gather_scan k (store_items (nod_store s)) [] [] s = (Ok (r, active), s1)"
    and q: "lottery_ok s" "room (card (dom (nod_store s))) s"
  shows "active = filter (\<lambda>x. IsActive (snd x)) (store_items (nod_store s))" "nod_GetParams s1 = nod_GetParams s"
    "nod_store s a = Some d \<Longrightarrow> \<exists>d'. nod_store s1 a = Some d' \<and> scanned d d'"
    "nod_store s a = None \<Longrightarrow> nod_store s1 a = None" "queue_ok (card (dom (nod_store s))) s1"
proof -
  have fin: "finite (dom (nod_store s))" by (rule lottery_okD(1)[OF q(1)])
  have items: "stored (store_items (nod_store s)) s" using fin by (simp add: stored_def store_items_mem)
  note S = gather_scan_Ok[OF scan items]
  show "active = filter (\<lambda>x. IsActive (snd x)) (store_items (nod_store s))" "nod_GetParams s1 = nod_GetParams s"
    using S by (simp_all add: nod_GetParams_def)
  have each: "\<exists>d'. nod_store s1 a = Some d' \<and> scanned d d'" if "nod_store s a = Some d" for a d
    using S that by (simp add: store_items_mem[OF fin])
  have none: "nod_store s1 a = None" if "nod_store s a = None" for a
    using S that set_store_keys[OF fin] by (metis domIff list.set_map store_items_fst)
  show "nod_store s a = Some d \<Longrightarrow> \<exists>d'. nod_store s1 a = Some d' \<and> scanned d d'"
    "nod_store s a = None \<Longrightarrow> nod_store s1 a = None" by (fact each, fact none)
  have "lottery_ok s1"
  proof (rule lottery_ok_same[OF q(1)])
    show "dom (nod_store s1) = dom (nod_store s)" using each none by (fastforce simp: dom_def)
  qed (use S each in \<open>force simp: scanned_def\<close>)+
  then show "queue_ok (card (dom (nod_store s))) s1" using q(2) S by (simp add: queue_ok_def room_def)
qed

lemma ranked_active:
  assumes "ranks_sorted k" "distinct (map fst items)" and active: "active = filter (\<lambda>x. IsActive (snd x)) items"
  shows "set (nk_sort k ranks_before active) = set active" "distinct (map fst (nk_sort k ranks_before active))"
    "length (nk_sort k ranks_before active) \<le> length items"
proof -
  have perm: "mset (nk_sort k ranks_before active) = mset active" using assms(1) by (simp add: ranks_sorted_def)
  show "set (nk_sort k ranks_before active) = set active" by (rule mset_eq_setD[OF perm])
  show "distinct (map fst (nk_sort k ranks_before active))"
    using mset_eq_imp_distinct_iff[of "map fst (nk_sort k ranks_before active)" "map fst active"] perm assms(2)
    by (auto simp: active intro: distinct_map_filter)
  show "length (nk_sort k ranks_before active) \<le> length items"
    using perm by (metis active length_filter_le size_mset)
qed

lemma take_drop_apart:
  assumes "distinct (map fst xs)"
  shows "set (take n xs) \<union> set (drop n xs) = set xs" "fst ` set (take n xs) \<inter> fst ` set (drop n xs) = {}"
proof -
  show "set (take n xs) \<union> set (drop n xs) = set xs" by (metis append_take_drop_id set_append)
  have "distinct (map fst (take n xs) @ map fst (drop n xs))" using assms by (metis append_take_drop_id map_append)
  then show "fst ` set (take n xs) \<inter> fst ` set (drop n xs) = {}" by simp
qed

lemma card_two_parts:
  assumes "P \<subseteq> fst ` set (take m xs) \<union> f ` set (take n ys)"
  shows "finite P \<and> card P \<le> m + n"
proof -
  have "card P \<le> card (fst ` set (take m xs)) + card (f ` set (take n ys))"
    using card_mono[OF _ assms] card_Un_le order_trans by blast
  also have "\<dots> \<le> m + n"
    using card_image_le[of "set (take m xs)" fst] card_length[of "take m xs"]
      card_image_le[of "set (take n ys)" f] card_length[of "take n ys"] by (simp add: min_def split: if_splits)
  finally show ?thesis using finite_subset[OF assms] by simp
qed

lemma GatherValidatorUpdates_Ok:
  assumes ok: "GatherValidatorUpdates k s = (Ok upds, s')" and srt: "ranks_sorted k"
    and q: "lottery_ok s" "room (card (dom (nod_store s))) s"
  defines "P \<equiv> {a. \<exists>d. nod_store s' a = Some d \<and> n_LastPower d \<noteq> 0}" and "p \<equiv> nod_GetParams s"
  shows "lottery_ok s'" "\<forall>a\<in>P. IsValidator a s'"
    "\<exists>n. finite P \<and> card P \<le> top_count p n + lucky_count p n"
proof -
  let ?items = "store_items (nod_store s)"
  have fin: "finite (dom (nod_store s))" by (rule lottery_okD(1)[OF q(1)])
  obtain r1 active s1 r2 vpg s2 r3 where
    scan: "gather_scan k ?items [] [] s = (Ok (r1, active), s1)"
    and top: "gather_top k (NewVotingPowerGenerator (nod_GetParams s1))
        (take (top_count (nod_GetParams s1) (length active)) (nk_sort k ranks_before active)) r1 s1 = (Ok (r2, vpg), s2)"
    and rest: "gather_rest k (lotteryLastNo (lucky_count (nod_GetParams s1) (length active)) s2) vpg
        (drop (top_count (nod_GetParams s1) (length active)) (nk_sort k ranks_before active)) r2 s2 = (Ok r3, s')"
    using ok unfolding GatherValidatorUpdates_def Let_def by (auto simp: and_then_Ok_iff)
  let ?n1 = "top_count p (length active)" and ?n2 = "lucky_count p (length active)"
  let ?ranked = "nk_sort k ranks_before active"
  note S = scan_stage[OF scan q]
  have p: "nod_GetParams s1 = p" using S(2) by (simp add: p_def)
  note act = S(1)
  have items: "distinct (map fst ?items)" "length ?items = card (dom (nod_store s))"
    using fin by (simp_all add: store_items_fst) (simp add: store_items_def store_keys_def)
  note ranked = ranked_active[OF srt items(1) act]
  have len: "length ?ranked \<le> card (dom (nod_store s))" using ranked(3) items(2) by simp
  have in_s1: "nod_store s1 a = Some d" if "(a, d) \<in> set ?ranked" for a d
  proof -
    have "(a, d) \<in> set ?items" "IsActive d" using that ranked(1) act by auto
    then obtain d' where "nod_store s1 a = Some d'" "scanned d d'" using S(3) by (auto simp: store_items_mem[OF fin])
    then show ?thesis using \<open>IsActive d\<close> by (simp add: scanned_def)
  qed
  have stored1: "stored (take ?n1 ?ranked) s1"
    using ranked(2) in_s1 in_set_takeD by (fastforce simp: stored_def distinct_take take_map[symmetric])
  note T = gather_top_Ok[OF top[unfolded p] stored1 S(5)]
  let ?top = "take ?n1 ?ranked" and ?low = "drop ?n1 ?ranked"
  note split = take_drop_apart(1)[OF ranked(2), of ?n1, unfolded ranked(1)]
  note apart = take_drop_apart(2)[OF ranked(2), of ?n1]
  have low_s2: "nod_store s2 a = Some d" if "(a, d) \<in> set ?low" for a d
  proof -
    have "a \<notin> fst ` set ?top" using apart that by force
    then show ?thesis using T in_s1[OF in_set_dropD[OF that]] by simp
  qed
  have stored2: "stored ?low s2"
    using ranked(2) low_s2 by (simp add: stored_def drop_map[symmetric])
  have q2: "queue_ok (length ?low + 0) s2"
    by (rule queue_ok_le[where m = "card (dom (nod_store s))"]) (use T len in auto)
  note R = gather_rest_Ok[OF rest[unfolded p] stored2 q2]
  show "lottery_ok s'" using R by (simp add: queue_ok_def)
  have active_d: "IsActive d" if "(a, d) \<in> set active" for a d
    using that by (auto simp: act)
  have top: "IsActive d'" if mem: "(a, d) \<in> set ?top" "nod_store s' a = Some d'" for a d d'
  proof -
    have "a \<notin> fst ` set ?low" using apart mem(1) by force
    then have "nod_store s2 a = Some d'" using R mem(2) by simp
    moreover obtain d2 where "nod_store s2 a = Some d2" "IsActive d2 = IsActive d" using T mem(1) by blast
    moreover have "IsActive d" by (rule active_d) (use mem(1) split in blast)
    ultimately show ?thesis by simp
  qed
  have low: "IsActive d' \<and> (n_LastPower d' \<noteq> 0 \<longrightarrow>
      a \<in> (\<lambda>x. the (nod_lottery s2 x)) ` set (take ?n2 (store_keys (nod_lottery s2))))"
    if "(a, d) \<in> set ?low" "nod_store s' a = Some d'" for a d d'
  proof -
    have "IsActive d" by (rule active_d) (use that(1) split in blast)
    moreover have "IsActive d' = IsActive d"
      "n_LastPower d' \<noteq> 0 \<longrightarrow> n_LotteryNo d \<noteq> 0 \<and> n_LotteryNo d \<le> lotteryLastNo ?n2 s2"
      using R that by force+
    ultimately show ?thesis using lucky_holders[OF _ low_s2[OF that(1)]] T by (simp add: queue_ok_def)
  qed
  have out: "n_LastPower d' = 0" if "a \<notin> fst ` set active" "nod_store s' a = Some d'" for a d'
  proof -
    have nin: "a \<notin> fst ` set ?top" "a \<notin> fst ` set ?low" using that(1) split by auto
    then have "nod_store s1 a = Some d'" using T R that(2) by simp
    moreover then obtain d where d: "nod_store s a = Some d" using S(4) by fastforce
    ultimately have "scanned d d'" using S(3) by fastforce
    moreover have "\<not> IsActive d"
    proof
      assume "IsActive d"
      then have "(a, d) \<in> set active" using d by (simp add: act store_items_mem[OF fin])
      then show False using that(1) by force
    qed
    ultimately show ?thesis by (simp add: scanned_def)
  qed
  have cover: "\<exists>d. (a, d) \<in> set ?top \<or> (a, d) \<in> set ?low" if "a \<in> P" for a
    using that out split unfolding P_def by fastforce
  show "\<forall>a\<in>P. IsValidator a s'"
    using cover top low by (fastforce simp: P_def IsValidator_def)
  have sub: "P \<subseteq> fst ` set ?top \<union> (\<lambda>x. the (nod_lottery s2 x)) ` set (take ?n2 (store_keys (nod_lottery s2)))"
  proof
    fix a assume a: "a \<in> P"
    then obtain d' where "nod_store s' a = Some d'" "n_LastPower d' \<noteq> 0" by (auto simp: P_def)
    then show "a \<in> fst ` set ?top \<union> (\<lambda>x. the (nod_lottery s2 x)) ` set (take ?n2 (store_keys (nod_lottery s2)))"
      using cover[OF a] low by (metis UnI1 UnI2 fst_conv imageI)
  qed
  from card_two_parts[OF sub] show "\<exists>n. finite P \<and> card P \<le> top_count p n + lucky_count p n" by blast
qed

end
