(* ===== verification/Noding_Props.thy ===== *)
theory Noding_Props
  imports Noding_Gather
begin

text \<open>
  The properties of \<open>x/noding\<close>: the bound on the validators with power, jailing, switching on,
  and two places where the code does not do what it means to.
\<close>

section \<open>Example\<close>

lemma ranks_not_before_trans:
  "\<not> ranks_before y x \<Longrightarrow> \<not> ranks_before z y \<Longrightarrow> \<not> ranks_before z x"
  "ranks_before x y \<Longrightarrow> \<not> ranks_before y x"
  by (auto simp: ranks_before_def split: if_splits)

lemma set_insert_by [simp]: "set (insert_by b x xs) = insert x (set xs)"
  by (induction xs) auto

lemma mset_insert_by [simp]: "mset (insert_by b x xs) = add_mset x (mset xs)"
  by (induction xs) auto

lemma insert_by_sorted:
  "sorted_wrt (\<lambda>x y. \<not> ranks_before y x) xs \<Longrightarrow> sorted_wrt (\<lambda>x y. \<not> ranks_before y x) (insert_by ranks_before x xs)"
proof (induction xs)
  case (Cons y xs)
  have "\<not> ranks_before x y" if "ranks_before y x" using ranks_not_before_trans(2) that .
  moreover have "\<not> ranks_before z x" if "\<not> ranks_before y x" "z \<in> set xs" for z
    using Cons.prems that ranks_not_before_trans(1)[of y x z] by simp
  ultimately show ?case using Cons by simp
qed simp

lemma ex_ranks_sorted: "ranks_sorted ex_nk"
proof -
  have "mset (foldr (insert_by ranks_before) xs []) = mset xs" for xs by (induction xs) auto
  moreover have "sorted_wrt (\<lambda>x y. \<not> ranks_before y x) (foldr (insert_by ranks_before) xs [])" for xs
    by (induction xs) (auto intro: insert_by_sorted)
  ultimately show ?thesis by (simp add: ranks_sorted_def ex_nk_def)
qed

lemma ex_store_items:
  "store_items [''w'' \<mapsto> ex_info_nod ''pubW'' 3 1, ''v'' \<mapsto> ex_info_nod ''pubK'' 5 0,
       ''u'' \<mapsto> zero_nod_info\<lparr>n_PubKey := ''pubK'', n_LastPubKey := ''pubK'', n_LastPower := 15\<rparr>] = [(''u'', zero_nod_info\<lparr>n_PubKey := ''pubK'', n_LastPubKey := ''pubK'', n_LastPower := 15\<rparr>),
     (''v'', ex_info_nod ''pubK'' 5 0), (''w'', ex_info_nod ''pubW'' 3 1)]"
  by (simp add: store_items_def store_keys_def insort_insert_key_def)

lemma ex_sort:
  "nk_sort ex_nk ranks_before [(''v'', ex_info_nod ''pubK'' 5 0), (''w'', ex_info_nod ''pubW'' 3 1)]
     = [(''v'', ex_info_nod ''pubK'' 5 0), (''w'', ex_info_nod ''pubW'' 3 1)]"
  by (simp add: ex_nk_def ranks_before_def)

lemma ex_nk_sel [simp]: "nk_keys ex_nk = ex_keys" "parse_key ex_nk (CHR ''p'' # CHR ''u'' # CHR ''b'' # x) = Ok x"
  "ToTmProtoPublicKey ex_keys x = Some x" "nk_sort ex_nk before xs = foldr (insert_by before) xs []"
  by (simp_all add: ex_nk_def ex_keys_def parse_key_def)

lemma ex_first [simp]: "lotteryLastNo (Suc 0) s = 1" if "nod_lottery s = [1 \<mapsto> a]"
  using that by (simp add: lotteryLastNo_def store_keys_def)

lemma ex_max [simp]: "MaxValidators ex_nod_params = 1" "LotteryValidators ex_nod_params = 1"
  by (simp_all add: ex_nod_params_def)

definition ex_vpg :: vp_generator where
  "ex_vpg = \<lparr>vp_count = 1, vp_maxValidators = 1, vp_lastScore = 5, vp_ptr = 0, vp_partAccum = Percent 15,
     vp_distr = DefaultVotingPower\<rparr>"

lemma ex_powers [simp]:
  "GetVotingPower (NewVotingPowerGenerator ex_nod_params) 5 = Ok (15, ex_vpg)"
  "GetVotingPower ex_vpg 3 = Ok (10, ex_vpg\<lparr>vp_count := 2, vp_lastScore := 3\<rparr>)"
  by (simp_all add: ex_vpg_def GetVotingPower_def ex_nod_params_def nod_DefaultParams_def nod_NewParams_def
      NewVotingPowerGenerator_def DefaultVotingPower_def slice_at_def nth_res_def)

lemma ex_gather: "\<exists>s. GatherValidatorUpdates ex_nk ex_nod = (Ok [\<lparr>au_ptr = 0, au_PubKey = ''K'', au_Power = 0\<rparr>,
    \<lparr>au_ptr = 1, au_PubKey = ''K'', au_Power = 15\<rparr>, \<lparr>au_ptr = 2, au_PubKey = ''W'', au_Power = 10\<rparr>], s)"
  by (simp add: GatherValidatorUpdates_def ex_store_items lift_res_def push_update_def lose_power_def nod_update_def
      addNodeOperatorToIndex_def nod_GetParams_def nod_set_def top_count_def lucky_count_def ranks_before_def
      Let_def retire_key_def when_queued_def unique_updates_def same_key_def cong: and_then_weak bind_res_weak)

section \<open>The bound on validators\<close>

lemma counts_bounded: "0 \<le> LotteryValidators p \<Longrightarrow> 0 \<le> MaxValidators p \<Longrightarrow>
    int (top_count p n + lucky_count p n) \<le> MaxValidators p + LotteryValidators p"
  by (auto simp: top_count_def lucky_count_def)

text \<open>C8. When the validator updates of a block are gathered without a panic, at most
  MaxValidators + LotteryValidators accounts are left with a voting power, each of them switched
  on, not jailed and not banned, and the lottery queue and the records are still in step. The
  sort must permute its argument into the order of its comparison, and the counter of the queue
  must not wrap.\<close>

theorem validators_bounded:
  assumes "GatherValidatorUpdates k s = (Ok upds, s')" "ranks_sorted k"
    "lottery_ok s" "room (card (dom (nod_store s))) s"
    "0 \<le> MaxValidators (nod_GetParams s)" "0 \<le> LotteryValidators (nod_GetParams s)"
  shows "int (card {a. \<exists>d. nod_store s' a = Some d \<and> n_LastPower d \<noteq> 0})
      \<le> MaxValidators (nod_GetParams s) + LotteryValidators (nod_GetParams s)
    \<and> {a. \<exists>d. nod_store s' a = Some d \<and> n_LastPower d \<noteq> 0} \<subseteq> {a. IsValidator a s'}
    \<and> lottery_ok s'"
proof -
  note G = GatherValidatorUpdates_Ok[OF assms(1-4)]
  obtain n where "card {a. \<exists>d. nod_store s' a = Some d \<and> n_LastPower d \<noteq> 0}
      \<le> top_count (nod_GetParams s) n + lucky_count (nod_GetParams s) n" using G(3) by blast
  then show ?thesis using G(1,2) counts_bounded[OF assms(6,5), of n] by auto
qed

theorem validators_bounded_witness:
  "\<exists>s'. snd (GatherValidatorUpdates ex_nk ex_nod) = s' \<and> lottery_ok s'
    \<and> card {a. \<exists>d. nod_store s' a = Some d \<and> n_LastPower d \<noteq> 0} \<le> 2"
proof -
  obtain s' where g: "GatherValidatorUpdates ex_nk ex_nod = (Ok [\<lparr>au_ptr = 0, au_PubKey = ''K'', au_Power = 0\<rparr>,
    \<lparr>au_ptr = 1, au_PubKey = ''K'', au_Power = 15\<rparr>, \<lparr>au_ptr = 2, au_PubKey = ''W'', au_Power = 10\<rparr>], s')"
    using ex_gather by blast
  have "room (card (dom (nod_store ex_nod))) ex_nod" by (simp add: ex_lottery_ok(2))
  then show ?thesis
    using validators_bounded[OF g ex_ranks_sorted ex_lottery_ok(1)] by (simp add: g nod_GetParams_def)
qed

section \<open>Two updates for one key\<close>

text \<open>\<open>result\<close> grows, and every update has the pointer that is its number.\<close>

definition numbered :: "abci_update list \<Rightarrow> bool" where
  "numbered xs \<longleftrightarrow> map au_ptr xs = [0..<length xs]"

lemma push_update_Ok:
  "push_update k key pw xs = Ok ys \<longleftrightarrow> (\<exists>pub ck. parse_key k key = Ok pub \<and> ToTmProtoPublicKey (nk_keys k) pub = Some ck
     \<and> ys = xs @ [\<lparr>au_ptr = length xs, au_PubKey = ck, au_Power = pw\<rparr>])"
  by (auto simp: push_update_def bind_res_Ok_iff split: option.splits)

lemma numbered_push: "push_update k key pw xs = Ok ys \<Longrightarrow> numbered xs \<Longrightarrow> numbered ys"
  by (auto simp: push_update_Ok numbered_def)

lemma replace_first_other: "au_ptr x \<notin> au_ptr ` set ys \<Longrightarrow> \<not> snd (replace_first x ys)"
  by (induction ys) (auto simp: same_key_def)

lemma unique_updates_numbered: "numbered xs \<Longrightarrow> unique_updates xs = xs"
proof -
  have "fold (\<lambda>x ys. if snd (replace_first x ys) then fst (replace_first x ys) else ys @ [x]) xs ys = ys @ xs"
    if "distinct (map au_ptr (ys @ xs))" for xs ys
    using that
  proof (induction xs arbitrary: ys)
    case (Cons x xs)
    then have "\<not> snd (replace_first x ys)" by (intro replace_first_other) auto
    then show ?case using Cons.IH[of "ys @ [x]"] Cons.prems by simp
  qed simp
  from this[of "[]" xs] show "numbered xs \<Longrightarrow> unique_updates xs = xs"
    by (simp add: unique_updates_def numbered_def)
qed

text \<open>What a step of the passes makes of the updates so far.\<close>

definition extends :: "abci_update list \<Rightarrow> abci_update list \<Rightarrow> bool" where
  "extends xs ys \<longleftrightarrow> set xs \<subseteq> set ys \<and> (numbered xs \<longrightarrow> numbered ys) \<and> length xs \<le> length ys"

lemma extends_refl [simp]: "extends xs xs" and extends_trans: "extends xs ys \<Longrightarrow> extends ys zs \<Longrightarrow> extends xs zs"
  by (auto simp: extends_def)

lemma extends_push: "push_update k key pw xs = Ok ys \<Longrightarrow> extends xs ys"
  using numbered_push by (fastforce simp: extends_def push_update_Ok)

lemma extends_retire: "retire_key k d xs = Ok ys \<Longrightarrow> extends xs ys"
  by (auto simp: retire_key_def extends_push split: if_splits)

definition abci_key :: "'s nod_keeper \<Rightarrow> string \<Rightarrow> string option" where
  "abci_key k key = (case parse_key k key of Ok pub \<Rightarrow> ToTmProtoPublicKey (nk_keys k) pub | _ \<Rightarrow> None)"

lemma pushed: "push_update k key pw xs = Ok ys \<Longrightarrow>
    \<exists>x\<in>set ys. abci_key k key = Some (au_PubKey x) \<and> au_Power x = pw \<and> au_ptr x = length xs"
  by (auto simp: push_update_Ok abci_key_def)

lemma scan_updates:
  assumes "gather_scan k items result active s = (Ok (result', active'), s')"
  shows "extends result result' \<and> (\<forall>a d. (a, d) \<in> set items \<longrightarrow> \<not> IsActive d \<longrightarrow> n_LastPower d \<noteq> 0 \<longrightarrow>
      (\<exists>x\<in>set result'. abci_key k (n_LastPubKey d) = Some (au_PubKey x) \<and> au_Power x = 0))"
  using assms
proof (induction items arbitrary: result active s)
  case (Cons x items)
  obtain a d where x: "x = (a, d)" by (cases x)
  obtain result1 active1 s1 where s1: "gather_scan k items result1 active1 s1 = (Ok (result', active'), s')" "extends result result1"
    "\<not> IsActive d \<longrightarrow> n_LastPower d \<noteq> 0 \<longrightarrow> push_update k (n_LastPubKey d) 0 result = Ok result1"
  proof (cases "IsActive d \<or> n_LastPower d = 0")
    case True
    then show ?thesis using that[of result] Cons.prems
      by (cases "IsActive d") (auto simp: x and_then_Ok_iff lift_res_def)
  next
    case False
    then show ?thesis using that Cons.prems extends_push
      by (auto simp: x and_then_Ok_iff lift_res_def split: if_splits) blast
  qed
  note I = Cons.IH[OF s1(1)]
  have "\<exists>x\<in>set result'. abci_key k (n_LastPubKey d) = Some (au_PubKey x) \<and> au_Power x = 0"
    if "\<not> IsActive d" "n_LastPower d \<noteq> 0"
    using pushed[of k "n_LastPubKey d" 0 result result1] s1(3) that I unfolding extends_def by blast
  then show ?case using I s1(2) extends_trans by (fastforce simp: x)
qed simp

lemma top_updates:
  assumes "gather_top k vpg xs result s = (Ok (result', vpg'), s')"
  shows "extends result result' \<and> (\<forall>a d. (a, d) \<in> set xs \<longrightarrow> n_PubKey d \<noteq> n_LastPubKey d \<longrightarrow>
      (\<exists>x\<in>set result'. abci_key k (n_PubKey d) = Some (au_PubKey x) \<and> length result \<le> au_ptr x))"
  using assms
proof (induction xs arbitrary: vpg result s)
  case (Cons x xs)
  obtain a d where x: "x = (a, d)" by (cases x)
  have ne: "n_PubKey d \<noteq> []" using Cons.prems by (cases "n_PubKey d = []") (simp_all add: x)
  obtain pw vpg1 result1 result2 s1 where r: "retire_key k d result = Ok result1"
    "(if n_LastPower d \<noteq> pw \<or> n_PubKey d \<noteq> n_LastPubKey d then push_update k (n_PubKey d) pw result1 else Ok result1) = Ok result2"
    "gather_top k vpg1 xs result2 s1 = (Ok (result', vpg'), s')"
    using Cons.prems ne unfolding x
    by (simp only: gather_top.simps if_False simp_thms lift_then_Ok Let_def and_then_Ok_iff[of "when_queued lotteryExclude d s" for d s]
        unit_then_Ok split_paired_Ex prod.case) blast
  note I = Cons.IH[OF r(3)]
  have e: "extends result result1" "extends result1 result2"
    using extends_retire[OF r(1)] r(2) extends_push by (auto split: if_splits)
  have "\<exists>x\<in>set result'. abci_key k (n_PubKey d) = Some (au_PubKey x) \<and> length result \<le> au_ptr x"
    if "n_PubKey d \<noteq> n_LastPubKey d"
    using pushed[of k "n_PubKey d" pw result1 result2] r(2) that I e unfolding extends_def by (auto dest!: subsetD)
  moreover have "length result \<le> length result2" using e by (simp add: extends_def)
  ultimately show ?case using I extends_trans[OF extends_trans[OF e]] by (fastforce simp: x)
qed simp

lemma rest_updates:
  assumes "gather_rest k mx vpg xs result s = (Ok result', s')"
  shows "extends result result'"
  using assms
proof (induction xs arbitrary: vpg result s)
  case (Cons x xs)
  obtain a d where x: "x = (a, d)" by (cases x)
  obtain vpg1 result1 s1 where "gather_rest k mx vpg1 xs result1 s1 = (Ok result', s')" "extends result result1"
  proof (cases "n_LotteryNo d \<noteq> 0 \<and> n_LotteryNo d \<le> mx")
    case True
    then obtain pw vpg1 where g: "(if n_PubKey d = n_LastPubKey d \<and> n_LastPower d = pw
        then gather_rest k mx vpg1 xs result s
        else and_then (lift_res (retire_key k d result) s) (\<lambda>result s.
          and_then (lift_res (push_update k (n_PubKey d) pw result) s) (\<lambda>result s.
          and_then (nod_update a (\<lambda>d s. (Ok (True, d\<lparr>n_LastPower := pw, n_LastPubKey := n_PubKey d\<rparr>), s)) s) (\<lambda>_ s.
          gather_rest k mx vpg1 xs result s)))) = (Ok result', s')"
      using Cons.prems by (simp add: x and_then_Ok_iff lift_res_def split: prod.splits) blast
    show ?thesis
    proof (cases "n_PubKey d = n_LastPubKey d \<and> n_LastPower d = pw")
      case True
      then show ?thesis using that[of vpg1 result s] g by simp
    next
      case False
      then obtain r1 r2 s1 where "retire_key k d result = Ok r1" "push_update k (n_PubKey d) pw r1 = Ok r2"
        "gather_rest k mx vpg1 xs r2 s1 = (Ok result', s')"
        using g by (auto simp: and_then_Ok_iff lift_res_def split: if_splits)
      then show ?thesis using that extends_retire extends_push extends_trans by metis
    qed
  next
    case False
    then obtain r1 s1 where "(if n_LastPower d \<noteq> 0 then push_update k (n_LastPubKey d) 0 result else Ok result) = Ok r1"
      "gather_rest k mx vpg xs r1 s1 = (Ok result', s')"
      using Cons.prems by (auto simp: x and_then_Ok_iff lift_res_def)
    then show ?thesis using that extends_push by (metis extends_refl res.inject(1))
  qed
  then show ?case using Cons.IH extends_trans by blast
qed simp

lemma active_count:
  assumes "finite (dom (nod_store s))"
  shows "length (filter (\<lambda>x. IsActive (snd x)) (store_items (nod_store s))) = card {a. IsValidator a s}"
proof -
  let ?xs = "filter (\<lambda>x. IsActive (snd x)) (store_items (nod_store s))"
  have "stored (store_items (nod_store s)) s" using assms by (simp add: stored_def store_items_mem)
  then have "distinct (map fst ?xs)" by (simp add: stored_def distinct_map_filter)
  then have "length ?xs = card (fst ` set ?xs)" by (metis distinct_card length_map list.set_map)
  also have "fst ` set ?xs = {a. IsValidator a s}"
    by (auto simp: IsValidator_def store_items_mem[OF assms] image_iff split: option.splits)
  finally show ?thesis .
qed


definition ex_nod2 :: nod_ctx where
  "ex_nod2 = ex_nod\<lparr>nod_store := (nod_store ex_nod)(''w'' := None)\<rparr>"

lemma ex_gather2: "\<exists>s. GatherValidatorUpdates ex_nk ex_nod2 = (Ok [\<lparr>au_ptr = 0, au_PubKey = ''K'', au_Power = 0\<rparr>,
    \<lparr>au_ptr = 1, au_PubKey = ''K'', au_Power = 15\<rparr>], s)"
proof -
  have "store_items (nod_store ex_nod2) = [(''u'', zero_nod_info\<lparr>n_PubKey := ''pubK'', n_LastPubKey := ''pubK'', n_LastPower := 15\<rparr>),
     (''v'', ex_info_nod ''pubK'' 5 0)]"
    by (simp add: ex_nod2_def store_items_def store_keys_def insort_insert_key_def)
  then show ?thesis
    by (simp add: ex_nod2_def GatherValidatorUpdates_def lift_res_def push_update_def lose_power_def nod_update_def
      addNodeOperatorToIndex_def nod_GetParams_def nod_set_def top_count_def lucky_count_def ranks_before_def
      Let_def retire_key_def when_queued_def unique_updates_def same_key_def cong: and_then_weak bind_res_weak)
qed


section \<open>Losing the qualification\<close>


text \<open>Two more states: \<open>w\<close> has an account of the lowest status; and \<open>w\<close> is staff and switched off.\<close>

definition ex_nod3 :: nod_ctx where
  "ex_nod3 = ex_nod\<lparr>ref_store := [AccString ref_sdk ''w'' \<mapsto> NewInfo [] 0 0]\<rparr>"

definition ex_nod4 :: nod_ctx where
  "ex_nod4 = ex_nod3\<lparr>nod_store := (nod_store ex_nod)(''w'' \<mapsto> zero_nod_info\<lparr>n_Staff := True\<rparr>)\<rparr>"

lemma ex_delegated:
  assumes "ref_store s = [AccString ref_sdk ''w'' \<mapsto> NewInfo [] 0 0]"
  shows "GetDelegatedInNetwork (AccString (nk_sdk ex_nk) ''w'') 10 s = Ok 0"
    "GetStatus (AccString (nk_sdk ex_nk) ''w'') s = STATUS_LUCKY"
  using assms
  by (simp_all add: GetDelegatedInNetwork_def GetStatus_def ex_nk_def ref_Get_def NewInfo_def zero_info_def LinesOpened_def
      DelegatedAtLevelsUpTo_def sum_upto_def Let_def numeral_eq_Suc)

lemma ex_nod34_sel [simp]:
  "ref_store ex_nod3 = [AccString ref_sdk ''w'' \<mapsto> NewInfo [] 0 0]" "ref_store ex_nod4 = [AccString ref_sdk ''w'' \<mapsto> NewInfo [] 0 0]"
  "nod_store ex_nod3 = nod_store ex_nod" "nod_store ex_nod4 ''w'' = Some (zero_nod_info\<lparr>n_Staff := True\<rparr>)"
  "nod_operators ex_nod4 x = None" "nod_GetParams ex_nod3 = ex_nod_params" "nod_GetParams ex_nod4 = ex_nod_params"
  "GetBalance k a ex_nod4 = Ok []" "\<not> n_Staff (ex_info_nod key sc no)"
  by (simp_all add: ex_nod4_def ex_nod3_def nod_GetParams_def GetBalance_def ex_info_nod_def zero_nod_info_def)
    (simp_all add: ex_nod_def)

lemma ex_qualified:
  "IsQualified ex_nk ''w'' ex_nod3 = Ok (False, 0, REASON_NOT_ENOUGH_STATUS)"
  "IsQualified ex_nk ''w'' ex_nod4 = Ok (True, 0, REASON_UNSPECIFIED)"
  by (simp_all add: IsQualified_def ex_delegated ex_nod_params_def nod_DefaultParams_def nod_NewParams_def DefaultMinCriteria_def
      status_defs)


section \<open>Switching on\<close>

text \<open>Switching on does what it says: when SwitchOn succeeds the account was not banned and
  qualifies, nobody was active with the consensus key, and the account is now switched on with that
  key and found under the key's address, while every other record and the lottery queue are as
  they were.\<close>

theorem switch_on_effect:
  assumes "SwitchOn k acc key s = (Ok (), s')"
  shows "\<not> IsBanned acc s \<and> (\<exists>delegation reason. IsQualified k acc s = Ok (True, delegation, reason))
    \<and> (\<forall>b d. nod_operators s (ConsAddress (nk_keys k) key) = Some b \<longrightarrow> nod_store s b = Some d \<longrightarrow> IsActive d \<longrightarrow>
        (\<exists>key'. parse_key k (n_PubKey d) = Ok key' \<and> ConsAddress (nk_keys k) key' \<noteq> ConsAddress (nk_keys k) key))
    \<and> (\<exists>d. nod_store s' acc = Some d \<and> n_Status d \<and> n_PubKey d = MustFormatConsPubKey (nk_keys k) key)
    \<and> nod_operators s' = (nod_operators s)(ConsAddress (nk_keys k) key \<mapsto> acc)
    \<and> (\<forall>b. b \<noteq> acc \<longrightarrow> nod_store s' b = nod_store s b) \<and> nod_lottery s' = nod_lottery s"
proof -
  have up: "n_Status (fst (UpdateScore K x d)) = n_Status d \<and> n_PubKey (fst (UpdateScore K x d)) = n_PubKey d" for K x d
    by (simp add: UpdateScore_def Let_def)
  obtain b found active delegation reason s1 where g: "\<not> IsBanned acc s"
    "GetValidatorByConsAddr k (ConsAddress (nk_keys k) key) s = Ok (b, found, active)" "\<not> (found \<and> active)"
    "IsQualified k acc s = Ok (True, delegation, reason)"
    "s' = addNodeOperatorToIndex (ConsAddress (nk_keys k) key) acc s1"
    and s1: "(if nod_has acc s then nod_update acc (\<lambda>d s.
                 and_then (lift_res (Int64 delegation) s) (\<lambda>stake s.
                 (Ok (True, fst (UpdateScore (nk_keys k) stake
                    (d\<lparr>n_Status := True, n_PubKey := MustFormatConsPubKey (nk_keys k) key\<rparr>))), s))) s
               else
                 and_then (lift_res (Int64 delegation) s) (\<lambda>stake s.
                 (Ok (), nod_set acc (nod_NewInfo (nk_keys k) (MustFormatConsPubKey (nk_keys k) key) stake) s))) = (Ok (), s1)"
  proof -
    let ?on = "case nod_store s acc of None \<Rightarrow> False | Some d \<Rightarrow> n_Status d"
    have guards: "\<not> IsBanned acc s" "\<not> ?on"
      using assms by (cases "IsBanned acc s"; cases ?on; simp add: SwitchOn_def)+
    obtain b found active where c: "GetValidatorByConsAddr k (ConsAddress (nk_keys k) key) s = Ok (b, found, active)"
      using assms guards by (simp only: SwitchOn_def if_False lift_then_Ok split_paired_Ex prod.case) blast
    have free: "\<not> (found \<and> active)"
      using assms guards c by (cases "found \<and> active") (auto simp: SwitchOn_def lift_res_def)
    obtain q delegation reason where i: "IsQualified k acc s = Ok (q, delegation, reason)"
      using assms guards free
      by (simp only: SwitchOn_def if_False c lift_res_def[of "Ok x" for x] and_then.simps(1) prod.case lift_then_Ok split_paired_Ex) blast
    have q
      using assms guards c free i by (cases q) (auto simp: SwitchOn_def lift_res_def)
    with that[OF guards(1) c free] show ?thesis using assms guards free i
      by (simp only: SwitchOn_def if_False if_True c lift_res_def[of "Ok x" for x] and_then.simps(1) prod.case
          simp_thms unit_then_Ok prod.inject res.inject) blast
  qed
  have "\<exists>d. s1 = nod_set acc d s \<and> n_Status d \<and> n_PubKey d = MustFormatConsPubKey (nk_keys k) key"
    using s1 up by (auto simp: nod_update_def nod_has_def nod_NewInfo_def and_then_Ok_iff lift_res_def split: if_splits option.splits)
  moreover have "\<exists>key'. parse_key k (n_PubKey d) = Ok key' \<and> ConsAddress (nk_keys k) key' \<noteq> ConsAddress (nk_keys k) key"
    if "nod_operators s (ConsAddress (nk_keys k) key) = Some b" "nod_store s b = Some d" "IsActive d" for b d
    using that g(2,3) by (auto simp: GetValidatorByConsAddr_def nod_Get_def bind_res_Ok_iff)
  ultimately show ?thesis using g(1,4,5) by (auto simp: addNodeOperatorToIndex_def nod_set_def)
qed

theorem switch_on_effect_witness:
  "\<exists>s' d. SwitchOn ex_nk ''w'' ''Z'' ex_nod4 = (Ok (), s') \<and> nod_store s' ''w'' = Some d \<and> n_Status d \<and> n_PubKey d = ''pubZ''"
proof -
  have "\<exists>s'. SwitchOn ex_nk ''w'' ''Z'' ex_nod4 = (Ok (), s')"
    by (simp add: SwitchOn_def ex_qualified lift_res_def IsBanned_def GetValidatorByConsAddr_def nod_has_def nod_update_def
        Int64_def in_int64_def zero_nod_info_def cong: run_congs)
  then obtain s' where s': "SwitchOn ex_nk ''w'' ''Z'' ex_nod4 = (Ok (), s')" by blast
  have "MustFormatConsPubKey ex_keys ''Z'' = ''pubZ''" by (simp add: ex_keys_def)
  with switch_on_effect[OF s'] s' show ?thesis by auto
qed

section \<open>Missed blocks\<close>

lemma when_queued_runs:
  "\<exists>n t. when_queued lotteryExclude d s = (Ok (d\<lparr>n_LotteryNo := n\<rparr>), s\<lparr>nod_lottery := t\<rparr>)"
  "\<exists>n t. when_queued (lotteryDownshift acc) d s = (Ok (d\<lparr>n_LotteryNo := n\<rparr>), s\<lparr>nod_lottery := t\<rparr>)"
proof -
  have out: "when_queued f d s = (Ok (d\<lparr>n_LotteryNo := n_LotteryNo d\<rparr>), s\<lparr>nod_lottery := nod_lottery s\<rparr>)"
    if "n_LotteryNo d = 0" for f using that by (simp add: when_queued_def)
  show "\<exists>n t. when_queued lotteryExclude d s = (Ok (d\<lparr>n_LotteryNo := n\<rparr>), s\<lparr>nod_lottery := t\<rparr>)"
  proof (cases "n_LotteryNo d = 0")
    case False
    then show ?thesis by (auto simp: when_queued_def lotteryExclude_def)
  qed (use out in blast)
  show "\<exists>n t. when_queued (lotteryDownshift acc) d s = (Ok (d\<lparr>n_LotteryNo := n\<rparr>), s\<lparr>nod_lottery := t\<rparr>)"
  proof (cases "n_LotteryNo d = 0")
    case False
    then show ?thesis
      by (auto simp: when_queued_def lotteryExclude_def lotteryDownshift_def lotteryAddNew_def Let_def)
  qed (use out in blast)
qed

lemma nod_update_set:
  "nod_store s acc = Some d \<Longrightarrow> cb d s = (Ok (True, e), t) \<Longrightarrow> nod_update acc cb s = (Ok (), nod_set acc e t)"
  by (simp add: nod_update_def)

lemma nod_set_sel [simp]:
  "nod_store (nod_set acc e s) acc = Some e" "nod_GetParams (nod_set acc e s) = nod_GetParams s"
  by (simp_all add: nod_set_def nod_GetParams_def)

lemma nod_GetParams_other [simp]:
  "nod_GetParams (s\<lparr>nod_lottery := t\<rparr>) = nod_GetParams s" "nod_GetParams (emit ev s) = nod_GetParams s"
  by (simp_all add: nod_GetParams_def emit_def)

lemma MarkStroke_step:
  assumes "nod_store s acc = Some d" "\<not> n_Jailed d" "0 \<le> n_MissedBlocksInRow d" "n_MissedBlocksInRow d < 2 ^ 62"
  defines "m \<equiv> n_MissedBlocksInRow d + 1" and "p \<equiv> nod_GetParams s"
  shows "\<exists>d' s'. MarkStroke k acc s = (Ok (), s') \<and> nod_store s' acc = Some d' \<and> nod_GetParams s' = p
    \<and> (if m \<ge> JailAfter p then n_Jailed d' else \<not> n_Jailed d' \<and> n_MissedBlocksInRow d' = m)"
proof -
  have m: "n_MissedBlocksInRow (stroke_record d) = m" "n_Jailed (stroke_record d) = n_Jailed d"
    using assms(3,4) by (simp_all add: stroke_record_def m_def wrap64_def)
  show ?thesis
  proof (cases "m \<ge> JailAfter p")
    case True
    let ?d = "(stroke_record d)\<lparr>n_Jailed := True, n_UnjailAt := wrap64 (block_height s + UnjailAfter p),
        n_JailCount := wrap64 (n_JailCount (stroke_record d) + 1), n_MissedBlocksInRow := 0\<rparr>"
    obtain n t where w: "when_queued lotteryExclude ?d s = (Ok (?d\<lparr>n_LotteryNo := n\<rparr>), s\<lparr>nod_lottery := t\<rparr>)"
      using when_queued_runs(1) by blast
    have "MarkStroke k acc s = (Ok (), nod_set acc (?d\<lparr>n_LotteryNo := n\<rparr>)
        (emit (EventValidatorJailed k acc) (s\<lparr>nod_lottery := t\<rparr>)))"
      unfolding MarkStroke_def p_def[symmetric] Let_def
      by (rule nod_update_set[OF assms(1)]) (use assms(2) True m w in simp)
    then show ?thesis using True by (simp add: p_def)
  next
    case False
    obtain n t where w: "when_queued (lotteryDownshift acc) (stroke_record d) s
        = (Ok ((stroke_record d)\<lparr>n_LotteryNo := n\<rparr>), s\<lparr>nod_lottery := t\<rparr>)"
      using when_queued_runs(2) by blast
    have "MarkStroke k acc s = (Ok (), nod_set acc ((stroke_record d)\<lparr>n_LotteryNo := n\<rparr>) (s\<lparr>nod_lottery := t\<rparr>))"
      unfolding MarkStroke_def p_def[symmetric] Let_def
      by (rule nod_update_set[OF assms(1)]) (use assms(2) False m w in simp)
    then show ?thesis using False assms(2) m by (simp add: p_def)
  qed
qed

lemma MarkStroke_jailed:
  "nod_store s acc = Some d \<Longrightarrow> n_Jailed d \<Longrightarrow> MarkStroke k acc s = (Ok (), s)"
  by (simp add: MarkStroke_def nod_update_def Let_def)

text \<open>\<open>n\<close> missed blocks in a row.\<close>

primrec strokes :: "'s nod_keeper \<Rightarrow> addr \<Rightarrow> nat \<Rightarrow> 's nod_op" where
  "strokes k acc 0 s = (Ok (), s)"
| "strokes k acc (Suc n) s = and_then (MarkStroke k acc s) (\<lambda>_ s. strokes k acc n s)"

lemma strokes_jailed:
  "nod_store s acc = Some d \<Longrightarrow> n_Jailed d \<Longrightarrow> strokes k acc n s = (Ok (), s)"
  by (induction n) (simp_all add: MarkStroke_jailed)

text \<open>C15. A validator that keeps missing blocks is jailed. From any record with m blocks missed so
  far, n > 0 further strokes with m + n at least JailAfter (a uint32) all return without error and
  leave the validator jailed, so it is not an active validator any more.\<close>

theorem jailed_after_misses:
  assumes "nod_store s acc = Some d" "0 \<le> n_MissedBlocksInRow d" "0 < n"
    "JailAfter (nod_GetParams s) \<le> n_MissedBlocksInRow d + int n" "n_MissedBlocksInRow d + int n < 2 ^ 62"
  shows "\<exists>s' d'. strokes k acc n s = (Ok (), s') \<and> nod_store s' acc = Some d' \<and> n_Jailed d' \<and> \<not> IsValidator acc s'"
  using assms
proof (induction n arbitrary: s d)
  case (Suc n)
  show ?case
  proof (cases "n_Jailed d")
    case True
    then show ?thesis using Suc.prems(1) strokes_jailed[of s acc d k "Suc n"] by (auto simp: IsValidator_def IsActive_def)
  next
    case False
    with Suc.prems obtain d' s' where s': "MarkStroke k acc s = (Ok (), s')" "nod_store s' acc = Some d'"
      "nod_GetParams s' = nod_GetParams s"
      "if n_MissedBlocksInRow d + 1 \<ge> JailAfter (nod_GetParams s) then n_Jailed d'
       else \<not> n_Jailed d' \<and> n_MissedBlocksInRow d' = n_MissedBlocksInRow d + 1"
      using MarkStroke_step[of s acc d k] by auto
    show ?thesis
    proof (cases "n_Jailed d'")
      case True
      then show ?thesis using s' strokes_jailed[of s' acc d' k n] by (auto simp: IsValidator_def IsActive_def)
    next
      case False
      then show ?thesis using s' Suc.IH[of s' d'] Suc.prems by (auto split: if_splits)
    qed
  qed
qed simp

theorem jailed_after_misses_witness:
  "\<exists>s' d'. strokes ex_nk ''w'' 2 ex_nod = (Ok (), s') \<and> nod_store s' ''w'' = Some d' \<and> n_Jailed d' \<and> \<not> IsValidator ''w'' s'"
proof -
  have "n_MissedBlocksInRow (ex_info_nod ''pubW'' 3 1) = 0" "JailAfter ex_nod_params = 2"
    by (simp_all add: ex_info_nod_def zero_nod_info_def ex_nod_params_def nod_DefaultParams_def nod_NewParams_def)
  then show ?thesis
    by (intro jailed_after_misses[of ex_nod "''w''" "ex_info_nod ''pubW'' 3 1"]) (simp_all add: nod_GetParams_def)
qed

end
