(* ===== verification/Delegating_Props.thy ===== *)
theory Delegating_Props
  imports Delegating_Ops Examples Referral_Props Noding_Props
begin

text \<open>
  Properties of \<open>x/delegating\<close>: no operation of the module loses or invents a coin that the
  recorded supply does not know of, revoked coins are paid out exactly when they are due, and the
  daily percent is the one of the row of the table that the delegation has reached.
\<close>

section \<open>The books\<close>

text \<open>\<open>ledger L s D\<close>: the supply on record is what is in circulation and \<open>D\<close> more.\<close>

definition ledger :: "sdk \<Rightarrow> 's bank_ctx_scheme \<Rightarrow> (denom \<Rightarrow> int) \<Rightarrow> bool" where
  "ledger L s D \<longleftrightarrow> bank_inv L s \<and> (\<exists>t. total_supply s = Some t \<and> IsValid L t
     \<and> (\<forall>d. AmountOf L t d = circulating L s d + D d))"

definition of_denom :: "denom \<Rightarrow> int \<Rightarrow> denom \<Rightarrow> int" where
  "of_denom d x = (\<lambda>d'. if d' = d then x else 0)"

abbreviation same_bank :: "'s bank_ctx_scheme \<Rightarrow> 's bank_ctx_scheme \<Rightarrow> bool" where
  "same_bank s t \<equiv> balances t = balances s \<and> total_supply t = total_supply s"

lemma ledger_frame: "same_bank s t \<Longrightarrow> ledger L t D = ledger L s D"
  unfolding ledger_def using bank_frame[of t s] by simp

lemma ledger_cong: "ledger L s D \<Longrightarrow> (\<And>d. D d = E d) \<Longrightarrow> ledger L s E"
  by (simp add: ledger_def)

lemma ledger_zero: "ledger L s (\<lambda>d. 0) \<longleftrightarrow> bank_inv L s \<and> supply_matches L s"
  by (auto simp: ledger_def supply_matches_def)

lemma ledger_inv: "ledger L s D \<Longrightarrow> bank_inv L s"
  by (simp add: ledger_def)

locale deleg_laws =
  fixes k :: "'s deleg_keeper"
  assumes bank: "bank_laws (dk_bank k)"

sublocale deleg_laws \<subseteq> bank_laws "dk_bank k"
  by (rule bank)

context deleg_laws
begin

lemma one_coin_Ok:
  assumes "one_coin (dk_sdk k) d x = Ok c" "known_denom d"
  shows "0 \<le> x" "IsValid (dk_sdk k) c" "AmountOf (dk_sdk k) c = of_denom d x"
proof -
  show "0 \<le> x" using coins.one_coin_neg[of x d] assms(1) by (cases "x < 0") auto
  from coins.one_coin_ok[OF assms(2) this] assms(1)
  show "IsValid (dk_sdk k) c" "AmountOf (dk_sdk k) c = of_denom d x" by (auto simp: of_denom_def)
qed

lemma ledger_shift:
  assumes "ledger (dk_sdk k) s D" "shifted (dk_sdk k) s s' (at_addr a g)"
  shows "ledger (dk_sdk k) s' (\<lambda>d. D d - g d)"
  using assms circulating_at[OF ledger_inv[OF assms(1)] assms(2)] by (auto simp: ledger_def shifted_def)

lemma ledger_AddCoins:
  assumes "ledger (dk_sdk k) s D" "AddCoins (dk_bank k) a c s = (Ok (), s')"
  shows "ledger (dk_sdk k) s' (\<lambda>d. D d - AmountOf (dk_sdk k) c d)"
  by (rule ledger_shift[OF assms(1) AddCoins_Ok[OF ledger_inv[OF assms(1)] assms(2)]])

lemma ledger_SendCoins:
  assumes "ledger (dk_sdk k) s D" "PayTxFee (dk_bank k) a amt s = (Ok fee, s')"
  shows "ledger (dk_sdk k) s' D"
proof -
  note i = ledger_inv[OF assms(1)]
  obtain coll where sh: "shifted (dk_sdk k) s s' (\<lambda>x d. at_addr coll (AmountOf (dk_sdk k) fee) x d
       - at_addr a (AmountOf (dk_sdk k) fee) x d)"
    using PayTxFee_Ok[OF i assms(2)] by metis
  have "circulating (dk_sdk k) s' d = circulating (dk_sdk k) s d" for d
    using circulating_shift[OF i sh, of "{a, coll}" d] by (cases "a = coll") (auto simp: at_addr_def)
  then show ?thesis using assms(1) sh by (auto simp: ledger_def shifted_def)
qed

lemma ledger_Inflate:
  assumes "ledger (dk_sdk k) s D" "IsValid (dk_sdk k) c" "GetSupply s = Ok t"
  shows "ledger (dk_sdk k) (SetSupply (Inflate (dk_sdk k) c t) s) (\<lambda>d. D d + AmountOf (dk_sdk k) c d)"
proof -
  have fr: "balances (SetSupply x s) = balances s" "total_supply (SetSupply x s) = Some x" for x
    by (simp_all add: SetSupply_def)
  show ?thesis
    using assms bank_frame[OF fr(1)] coins.add_valid coins.add_amount fr(2)
    by (auto simp: ledger_def GetSupply_def Inflate_def)
qed

text \<open>An exchange takes the one amount, gives the other, and books both.\<close>

lemma exchange_Ok:
  assumes s: "ledger (dk_sdk k) s (\<lambda>d. 0)" and ok: "exchange k acc f x t y s = (Ok (), s')"
    and known: "known_denom f" "known_denom t"
  shows "ledger (dk_sdk k) s' (\<lambda>d. 0)" "0 \<le> x" "0 \<le> y" "x \<le> bal (dk_sdk k) s acc f"
    "bal (dk_sdk k) s' a d = bal (dk_sdk k) s a d + (if a = acc then of_denom t y d - of_denom f x d else 0)"
proof -
  obtain m p s1 s2 sup sup' where m: "one_coin (dk_sdk k) f x = Ok m" and p: "one_coin (dk_sdk k) t y = Ok p"
    and s1: "SubtractCoins (dk_bank k) acc m s = (Ok (), s1)" and s2: "AddCoins (dk_bank k) acc p s1 = (Ok (), s2)"
    and sup: "GetSupply s2 = Ok sup" "Deflate (dk_sdk k) m sup = Ok sup'"
    and s': "s' = SetSupply (Inflate (dk_sdk k) p sup') s2"
    using ok by (auto simp: exchange_def and_then_Ok_iff lift_res_def)
  note m' = one_coin_Ok[OF m known(1)] and p' = one_coin_Ok[OF p known(2)]
  note i = ledger_inv[OF s] and sub = SubtractCoins_Ok[OF ledger_inv[OF s] s1]
  show "0 \<le> x" "0 \<le> y" by (rule m'(1), rule p'(1))
  show "x \<le> bal (dk_sdk k) s acc f" using sub(2)[of f] by (simp add: m'(3) of_denom_def)
  have l1: "ledger (dk_sdk k) s1 (AmountOf (dk_sdk k) m)" using ledger_shift[OF s sub(3)] by simp
  have l2: "ledger (dk_sdk k) s2 (\<lambda>d. AmountOf (dk_sdk k) m d - AmountOf (dk_sdk k) p d)"
    by (rule ledger_AddCoins[OF l1 s2])
  note add = AddCoins_Ok[OF ledger_inv[OF l1] s2]
  have v: "IsValid (dk_sdk k) sup" "\<And>d. AmountOf (dk_sdk k) sup d
      = circulating (dk_sdk k) s2 d + AmountOf (dk_sdk k) m d - AmountOf (dk_sdk k) p d"
    using l2 sup(1) by (auto simp: ledger_def GetSupply_def)
  have "AmountOf (dk_sdk k) p d \<le> circulating (dk_sdk k) s2 d" for d
  proof -
    have "0 \<le> circulating (dk_sdk k) s1 d"
      unfolding circulating_def by (intro sum_nonneg bal_nonneg ledger_inv[OF l1])
    then show ?thesis using circulating_at[OF ledger_inv[OF l1] add, of d] by simp
  qed
  then have "AmountOf (dk_sdk k) m d \<le> AmountOf (dk_sdk k) sup d" for d using v(2)[of d] by (smt (verit))
  from coins.sub_ok[OF v(1) m'(2) this] sup(2)
  have v': "IsValid (dk_sdk k) sup'" "\<And>d. AmountOf (dk_sdk k) sup' d = circulating (dk_sdk k) s2 d - AmountOf (dk_sdk k) p d"
    using v(2) by (auto simp: Deflate_def)
  have fr: "balances s' = balances s2" by (simp add: s' SetSupply_def)
  show "ledger (dk_sdk k) s' (\<lambda>d. 0)"
    using bank_frame[OF fr] ledger_inv[OF l2] v' coins.add_valid[OF v'(1) p'(2)]
      coins.add_amount[OF v'(1) p'(2)]
    by (simp add: ledger_def s' SetSupply_def Inflate_def)
  show "bal (dk_sdk k) s' a d = bal (dk_sdk k) s a d + (if a = acc then of_denom t y d - of_denom f x d else 0)"
    using sub(3) add unfolding bank_frame(2)[OF fr] by (simp add: shifted_def at_addr_def m'(3) p'(3))
qed

end

section \<open>What leaves the bank alone\<close>

lemma ScheduleTask_bank: "ScheduleTask t n d s = (r, s') \<Longrightarrow> same_bank s s'"
  by (auto simp: ScheduleTask_def scheduleTask_def lift_res_def and_then_eq split: res.splits)

lemma Delete_bank: "Delete t n d s = (r, s') \<Longrightarrow> same_bank s s'"
  by (auto simp: Delete_def sched_delete_def lift_res_def and_then_eq Let_def split: res.splits option.splits)

lemma amount_event_bank: "amount_event k n acc x s = (r, s') \<Longrightarrow> same_bank s s'"
  by (auto simp: amount_event_def lift_res_def emit_def and_then_eq split: res.splits)

lemma IsActiveEarner_bank: "same_bank s (snd (IsActiveEarner acc s))"
  by (simp add: IsActiveEarner_def Let_def earn_delete_def earn_set_def)

lemma emit_same_bank: "same_bank s (emit e s)"
  by (simp add: emit_def)

lemma write_record_bank: "same_bank s (write_record acc d s)"
  by (simp add: write_record_def)

lemma award_terms_bank:
  assumes "award_terms k acc s = (Ok v, s')"
  shows "same_bank s s'"
  using assms IsActiveEarner_bank[where s = s and acc = acc]
  by (auto simp: award_terms_def and_then_Ok_iff lift_res_def Let_def split: prod.splits)

lemma schedule_accrue_bank:
  assumes "schedule_accrue acc dust item s = (Ok v, s')"
  shows "same_bank s s'"
proof (cases dust)
  case False
  then show ?thesis
    using assms by (auto simp: schedule_accrue_def and_then_Ok_iff Let_def dest: ScheduleTask_bank)
qed (use assms in \<open>simp add: schedule_accrue_def\<close>)

section \<open>The parts of the validators\<close>

lemma Frac_Int64_abs:
  assumes "wf_frac z" "Frac_Int64 z = Ok x" "\<bar>frac_val z\<bar> < 2 ^ 63"
  shows "\<bar>of_int x\<bar> \<le> \<bar>frac_val z\<bar>"
proof -
  obtain n d where z: "z = mk_frac n d" "d \<noteq> 0" "frac_val z = of_int n / of_int d"
    by (rule wf_fracE[OF assms(1)])
  have q: "\<bar>quo n d\<bar> = \<bar>n\<bar> div \<bar>d\<bar>"
    using z(2) by (cases "n = 0") (auto simp: quo_def abs_mult abs_sgn_eq pos_imp_zdiv_nonneg_iff)
  have "(of_int (\<bar>n\<bar> div \<bar>d\<bar>) :: rat) \<le> of_int \<bar>n\<bar> / of_int \<bar>d\<bar>"
    using of_int_floor_le[of "of_int \<bar>n\<bar> / of_int \<bar>d\<bar> :: rat"] by (simp only: floor_divide_of_int_eq)
  then have le: "of_int \<bar>quo n d\<bar> \<le> \<bar>frac_val z\<bar>" by (simp add: q z(3))
  then have "(of_int \<bar>quo n d\<bar> :: rat) < of_int (2 ^ 63)" using assms(3) by simp
  then have "in_int64 (quo n d)" unfolding of_int_less_iff in_int64_def by linarith
  then have "x = quo n d" using assms(2) z by (simp add: Frac_Int64_def BigInt_def big_quo_def)
  then show ?thesis using le by simp
qed

lemma validator_part_abs:
  assumes part: "bind_res (Div r (NewFraction 30 1)) (\<lambda>x. bind_res (Reduce x) (\<lambda>x.
       bind_res (Int64 u) (\<lambda>u. bind_res (MulInt64 x u) Frac_Int64))) = Ok x"
    and r: "0 < frac_val r" "frac_val r \<le> 1"
  shows "of_int x \<le> frac_val r * 2 ^ 63"
proof -
  have "wf_frac r" using part r(1)
    by (cases r; cases "f_num r"; cases "f_denom r")
      (auto simp: Div_def with_parts_def frac_val_def wf_frac_def mk_frac_def)
  from Div_val[OF this, of "NewFraction 30 1"]
  obtain y where y: "Div r (NewFraction 30 1) = Ok y" "wf_frac y" "frac_val y = frac_val r / 30" by auto
  obtain z where z: "Reduce y = Ok z" "wf_frac z" "frac_val z = frac_val r / 30" using Reduce_val[OF y(2)] y(3) by auto
  have u: "in_int64 u" using part y z by (auto simp: bind_res_Ok_iff)
  obtain w where w: "MulInt64 z u = Ok w" "wf_frac w" "frac_val w = frac_val r / 30 * of_int u"
    using MulInt64_val[OF z(2), of u] z(3) by auto
  have x: "Frac_Int64 w = Ok x" using part y z w u by (auto simp: bind_res_Ok_iff)
  have "of_int \<bar>u\<bar> \<le> (of_int (2 ^ 63) :: rat)" using u unfolding of_int_le_iff in_int64_def by linarith
  then have "\<bar>of_int u\<bar> \<le> (2 ^ 63 :: rat)" by simp
  then have "frac_val r / 30 * \<bar>of_int u\<bar> \<le> frac_val r / 30 * 2 ^ 63" using r(1) by (intro mult_left_mono) simp_all
  then have b: "\<bar>frac_val w\<bar> \<le> frac_val r / 30 * 2 ^ 63" using r(1) by (simp add: w(3) abs_mult)
  then have "\<bar>frac_val w\<bar> < 2 ^ 63" using r by simp
  from Frac_Int64_abs[OF w(2) x this] b show ?thesis using r(1) by simp
qed

lemma validator_parts_sum:
  assumes "validator_parts L u fees = Ok parts" "sdk_laws L"
    and "\<forall>f\<in>set fees. 0 < frac_val (snd f)" "(\<Sum>f\<leftarrow>fees. frac_val (snd f)) \<le> 1"
  shows "(\<forall>p\<in>set parts. 0 \<le> snd (snd p)) \<and> of_int (\<Sum>p\<leftarrow>parts. snd (snd p)) \<le> (\<Sum>f\<leftarrow>fees. frac_val (snd f)) * 2 ^ 63"
  using assms(1,3,4)
proof (induction fees arbitrary: parts)
  case (Cons f fees)
  obtain b r where f: "f = (b, r)" by (cases f)
  obtain x where x: "bind_res (Div r (NewFraction 30 1)) (\<lambda>x. bind_res (Reduce x) (\<lambda>x.
       bind_res (Int64 u) (\<lambda>u. bind_res (MulInt64 x u) Frac_Int64))) = Ok x"
    using Cons.prems(1) unfolding f validator_parts.simps bind_res_Ok_iff by blast
  have s: "0 \<le> (\<Sum>f\<leftarrow>fees. frac_val (snd f))" using Cons.prems(2) by (intro sum_list_nonneg) auto
  have xr: "of_int x \<le> frac_val r * 2 ^ 63" using validator_part_abs[OF x] Cons.prems(2,3) s by (simp add: f)
  have IH: "validator_parts L u fees = Ok ps \<Longrightarrow> (\<forall>p\<in>set ps. 0 \<le> snd (snd p))
      \<and> of_int (\<Sum>p\<leftarrow>ps. snd (snd p)) \<le> (\<Sum>f\<leftarrow>fees. frac_val (snd f)) * 2 ^ 63" for ps
    by (rule Cons.IH) (use Cons.prems(2,3) in \<open>auto simp: f\<close>)
  have rest: "(if x = 0 then validator_parts L u fees else bind_res (msg_address L b) (\<lambda>a.
      bind_res (one_coin L ConfigMainDenom x) (\<lambda>_. bind_res (validator_parts L u fees) (\<lambda>ps. Ok ((b, a, x) # ps))))) = Ok parts"
    using Cons.prems(1) x unfolding f validator_parts.simps by simp
  show ?case
  proof (cases "x = 0")
    case True
    then have "validator_parts L u fees = Ok parts" using rest by simp
    from IH[OF this] show ?thesis using Cons.prems(2) by (simp add: f distrib_right)
  next
    case False
    then obtain a c ps where ps: "validator_parts L u fees = Ok ps" "parts = (b, a, x) # ps" "one_coin L ConfigMainDenom x = Ok c"
      using rest by (auto simp: bind_res_Ok_iff)
    then have "0 \<le> x" using sdk_laws.one_coin_neg[OF assms(2), of x ConfigMainDenom] by (cases "x < 0") auto
    then show ?thesis using IH[OF ps(1)] xr by (simp add: ps(2) f distrib_right)
  qed
qed simp

lemma total_fee_exact:
  assumes "\<forall>p\<in>set parts. 0 \<le> g p" "0 \<le> n" "n + (\<Sum>p\<leftarrow>parts. g p) < 2 ^ 63"
  shows "fold (\<lambda>p n. wrap64 (n + g p)) parts n = n + (\<Sum>p\<leftarrow>parts. g p)"
  using assms
proof (induction parts arbitrary: n)
  case (Cons p parts)
  have "0 \<le> (\<Sum>p\<leftarrow>parts. g p)" using Cons.prems(1) by (intro sum_list_nonneg) auto
  then have "wrap64 (n + g p) = n + g p" using Cons.prems by (intro wrap64_id) (auto simp: in_int64_def)
  then show ?case using Cons.IH[of "n + g p"] Cons.prems by (simp add: add.assoc)
qed simp

section \<open>Every operation keeps the books\<close>

context deleg_laws
begin

abbreviation balanced :: "('s deleg_ctx_ext earn_ctx_ext prof_ctx_ext nod_ctx_ext ref_ctx_ext) bank_ctx_scheme \<Rightarrow> bool" where
  "balanced s \<equiv> ledger (dk_sdk k) s (\<lambda>d. 0)"

lemma balanced_frame: "balanced s \<Longrightarrow> same_bank s t \<Longrightarrow> balanced t"
  using ledger_frame[of s t] by simp

lemma delegate_coins_balanced:
  assumes "balanced s" "delegate_coins k acc x s = (Ok (), s')"
  shows "balanced s'"
  using assms exchange_Ok(1)[OF assms(1)] by (cases "x = 0") (simp_all add: delegate_coins_def)

lemma freeze_balanced:
  assumes "balanced s" "freeze k acc x y s = (Ok (), s')"
  shows "balanced s'"
proof (cases "x = 0")
  case False
  then obtain s1 n where e: "exchange k acc ConfigDelegatedDenom x ConfigRevokingDenom y s = (Ok (), s1)"
    and a: "amount_event k n acc y s1 = (Ok (), s')"
    using assms(2) by (auto simp: freeze_def and_then_Ok_iff)
  have "balanced s1" by (rule exchange_Ok(1)[OF assms(1) e]) simp_all
  then show ?thesis by (rule balanced_frame) (rule amount_event_bank[OF a])
qed (use assms in \<open>simp add: freeze_def\<close>)

lemma undelegate_balanced:
  assumes "balanced s" "undelegate k acc x s = (Ok (), s')"
  shows "balanced s'"
proof (cases "x = 0")
  case False
  then obtain s1 n where e: "exchange k acc ConfigRevokingDenom x ConfigMainDenom x s = (Ok (), s1)"
    and a: "amount_event k n acc x s1 = (Ok (), s')"
    using assms(2) by (auto simp: undelegate_def and_then_Ok_iff)
  have "balanced s1" by (rule exchange_Ok(1)[OF assms(1) e]) simp_all
  then show ?thesis by (rule balanced_frame) (rule amount_event_bank[OF a])
qed (use assms in \<open>simp add: undelegate_def\<close>)

text \<open>The award is booked first; the fee is taken out of it, and both are credited.\<close>

lemma accrue_balanced:
  assumes s: "balanced s" and ok: "accrue k acc u b s = (Ok (), s')"
  shows "balanced s'"
proof (cases "u = 0 \<or> GetProfile acc s = None")
  case False
  then obtain c sup fee e s1 s2 x y where c: "one_coin (dk_sdk k) ConfigMainDenom u = Ok c" and sup: "GetSupply s = Ok sup"
    and split: "(if fee = 0 then (Ok c, SetSupply (Inflate (dk_sdk k) c sup) s)
      else and_then (lift_res (one_coin (dk_sdk k) ConfigMainDenom fee) (SetSupply (Inflate (dk_sdk k) c sup) s)) (\<lambda>feeCoins s.
        and_then (lift_res (SubC (dk_sdk k) c feeCoins) s) (\<lambda>emission s.
        and_then (must (AddCoins (dk_bank k)
          (case bk_module_addr (dk_bank k) SplittableFeeCollectorName of None \<Rightarrow> [] | Some a \<Rightarrow> a) feeCoins s))
            (\<lambda>_ s. (Ok emission, s))))) = (Ok e, s1)"
    and add: "AddCoins (dk_bank k) acc e s1 = (Ok (), s2)" and u: "in_uint64 (u - fee)" and s': "s' = emit (EventAccrue k acc x y b) s2"
    using ok by (auto simp: accrue_def and_then_Ok_iff lift_res_def Let_def bind_res_Ok_iff)
  note c' = one_coin_Ok[OF c known_denoms(1)]
  have l0: "ledger (dk_sdk k) (SetSupply (Inflate (dk_sdk k) c sup) s) (of_denom ConfigMainDenom u)"
    using ledger_Inflate[OF s c'(2) sup] c'(3) by simp
  have "ledger (dk_sdk k) s1 (AmountOf (dk_sdk k) e)"
  proof (cases "fee = 0")
    case True
    then show ?thesis using split l0 c'(3) by auto
  next
    case False
    then obtain f a where f: "one_coin (dk_sdk k) ConfigMainDenom fee = Ok f" "SubC (dk_sdk k) c f = Ok e"
      and a: "AddCoins (dk_bank k) a f (SetSupply (Inflate (dk_sdk k) c sup) s) = (Ok (), s1)"
      using split by (auto simp: and_then_Ok_iff lift_res_def)
    note f' = one_coin_Ok[OF f(1) known_denoms(1)]
    have "AmountOf (dk_sdk k) f d \<le> AmountOf (dk_sdk k) c d" for d
      using u by (simp add: c'(3) f'(3) of_denom_def in_uint64_def)
    from coins.sub_ok[OF c'(2) f'(2) this] f(2)
    have "AmountOf (dk_sdk k) e d = of_denom ConfigMainDenom u d - AmountOf (dk_sdk k) f d" for d by (auto simp: c'(3))
    then show ?thesis using ledger_AddCoins[OF l0 a] by (simp add: fun_eq_iff ledger_def)
  qed
  from ledger_AddCoins[OF this add] have "balanced s2" by simp
  then show ?thesis unfolding s' by (rule balanced_frame) (rule emit_same_bank)
qed (use assms in \<open>simp add: accrue_def\<close>)

lemma pay_parts_ledger:
  assumes "ledger (dk_sdk k) s D" "for_each parts (\<lambda>(_, a, x) s.
      and_then (lift_res (one_coin (dk_sdk k) ConfigMainDenom x) s) (\<lambda>c s. must (AddCoins (dk_bank k) a c s))) s = (Ok (), s')"
  shows "ledger (dk_sdk k) s' (\<lambda>d. D d - of_denom ConfigMainDenom (\<Sum>p\<leftarrow>parts. snd (snd p)) d)"
  using assms
proof (induction parts arbitrary: s D)
  case Nil
  then show ?case by (simp add: of_denom_def)
next
  case (Cons p parts)
  obtain b a x where p: "p = (b, a, x)" by (cases p)
  obtain c s1 where c: "one_coin (dk_sdk k) ConfigMainDenom x = Ok c" and s1: "AddCoins (dk_bank k) a c s = (Ok (), s1)"
    and rest: "for_each parts (\<lambda>(_, a, x) s.
      and_then (lift_res (one_coin (dk_sdk k) ConfigMainDenom x) s) (\<lambda>c s. must (AddCoins (dk_bank k) a c s))) s1 = (Ok (), s')"
    using Cons.prems(2) by (auto simp: p and_then_Ok_iff lift_res_def)
  have "ledger (dk_sdk k) s1 (\<lambda>d. D d - of_denom ConfigMainDenom x d)"
    using ledger_AddCoins[OF Cons.prems(1) s1] one_coin_Ok(3)[OF c known_denoms(1)] by simp
  from Cons.IH[OF this rest] show ?case by (rule ledger_cong) (simp add: p of_denom_def)
qed

lemma accrueToValidator_balanced:
  assumes s: "balanced s" and ok: "accrueToValidator k acc u s = (Ok (), s')"
  shows "balanced s'"
proof (cases "u = 0 \<or> GetProfile acc s = None")
  case False
  obtain fees parts where fees: "GetReferralValidatorFeesForDelegating (dk_ref k) (AccString (dk_sdk k) acc) s = Ok fees"
    and parts: "validator_parts (dk_sdk k) u fees = Ok parts"
    using ok False by (auto simp: accrueToValidator_def and_then_Ok_iff lift_res_def Let_def)
  let ?sum = "\<Sum>p\<leftarrow>parts. snd (snd p)"
  let ?fold = "fold (\<lambda>p n. wrap64 (n + snd (snd p))) parts 0"
  obtain n where n: "n \<le> 6" "(\<Sum>f\<leftarrow>fees. frac_val (snd f)) = of_nat n / 1000" and pos: "\<forall>f\<in>set fees. 0 < frac_val (snd f)"
    using validator_fee_bounds[OF fees] by blast
  have small: "(\<Sum>f\<leftarrow>fees. frac_val (snd f)) \<le> 6 / 1000" using n by simp
  note ps = validator_parts_sum[OF parts sdk pos]
  have "of_int ?sum \<le> (\<Sum>f\<leftarrow>fees. frac_val (snd f)) * 2 ^ 63" using ps small by linarith
  also have "\<dots> \<le> 6 / 1000 * 2 ^ 63" using small by (intro mult_right_mono) simp_all
  also have "\<dots> < of_int (2 ^ 63)" by simp
  finally have "?sum < 2 ^ 63" unfolding of_int_less_iff .
  then have total: "?fold = ?sum" using total_fee_exact[of parts "\<lambda>p. snd (snd p)" 0] ps small by auto
  show ?thesis
  proof (cases "?sum = 0")
    case True
    then show ?thesis using ok False fees parts total s by (simp add: accrueToValidator_def lift_res_def Let_def)
  next
    case nz: False
    obtain s1 e sup where pay: "for_each parts (\<lambda>(_, a, x) s.
        and_then (lift_res (one_coin (dk_sdk k) ConfigMainDenom x) s) (\<lambda>c s. must (AddCoins (dk_bank k) a c s))) s = (Ok (), s1)"
      and e: "one_coin (dk_sdk k) ConfigMainDenom ?sum = Ok e" and sup: "GetSupply s1 = Ok sup"
      and s': "s' = emit (EventValidatorAccrue k acc parts) (SetSupply (Inflate (dk_sdk k) e sup) s1)"
      using ok False fees parts nz total by (auto simp: accrueToValidator_def and_then_Ok_iff lift_res_def Let_def)
    have "balanced (SetSupply (Inflate (dk_sdk k) e sup) s1)"
      by (rule ledger_cong[OF ledger_Inflate[OF pay_parts_ledger[OF s pay] one_coin_Ok(2)[OF e known_denoms(1)] sup]])
        (simp add: one_coin_Ok(3)[OF e known_denoms(1)])
    then show ?thesis unfolding s' by (rule balanced_frame) (rule emit_same_bank)
  qed
qed (use assms in \<open>simp add: accrueToValidator_def\<close>)

lemma accruePart_balanced:
  assumes s: "balanced s" and ok: "accruePart k acc item t s = (Ok v, s')"
  shows "balanced s'"
proof (cases "NextAccrue item")
  case (Some t0)
  obtain delegated flags percent interest toV s1 s2 where s1: "award_terms k acc s = (Ok (delegated, flags, percent), s1)"
    and s2: "(if interest > 0 then and_then (accrue k acc interest flags s1) (\<lambda>_ s. accrueToValidator k acc toV s)
      else (Ok (), s1)) = (Ok (), s2)"
    and del: "Delete t0 AccrueHookName acc s2 = (Ok (), s')"
    using ok Some by (auto simp: accruePart_def and_then_Ok_iff lift_res_def split: prod.splits)
  note b1 = balanced_frame[OF s award_terms_bank[OF s1]]
  have "balanced s2"
  proof (cases "interest > 0")
    case True
    then obtain s0 where "accrue k acc interest flags s1 = (Ok (), s0)" "accrueToValidator k acc toV s0 = (Ok (), s2)"
      using s2 by (auto simp: and_then_Ok_iff)
    then show ?thesis using accrueToValidator_balanced accrue_balanced[OF b1] by blast
  qed (use s2 b1 in simp)
  then show ?thesis by (rule balanced_frame) (rule Delete_bank[OF del])
qed (use assms in \<open>simp add: accruePart_def\<close>)

lemma Revoke_balanced:
  assumes s: "balanced s" and ok: "Revoke k acc x express s = (Ok (), s')"
  shows "balanced s'"
proof (cases "x = 0")
  case False
  obtain current where current: "deleg_getDelegated k acc s = Ok current" "\<not> current < x"
    using ok False by (auto simp: Revoke_def and_then_eq lift_res_def split: res.splits if_split_asm)
  obtain item s1 y s2 item' s3 dust t it where s1: "accruePart k acc (record_of acc s) (block_time s + OneDay s) s = (Ok item, s1)"
    and s2: "freeze k acc x y s1 = (Ok (), s2)" and s3: "schedule_accrue acc dust item s2 = (Ok item', s3)"
    and last: "ScheduleTask t RevokeHookName acc (write_record acc it s3) = (Ok (), s')"
    using ok False current by (auto simp: Revoke_def and_then_Ok_iff lift_res_def Let_def)
  note s2' = freeze_balanced[OF accruePart_balanced[OF s s1] s2]
  note s3' = balanced_frame[OF s2' schedule_accrue_bank[OF s3]]
  show ?thesis by (rule balanced_frame[OF balanced_frame[OF s3' write_record_bank] ScheduleTask_bank[OF last]])
qed (use assms in \<open>simp add: Revoke_def\<close>)

lemma Delegate_balanced:
  assumes s: "balanced s" and ok: "Delegate k acc x s = (Ok (), s')"
  shows "balanced s'"
proof -
  obtain amt fee s1 item s2 y s3 dust item' s4 n where s1: "PayTxFee (dk_bank k) acc amt s = (Ok fee, s1)"
    and s2: "accruePart k acc (record_of acc s1) (block_time s1 + OneDay s1) s1 = (Ok item, s2)"
    and s3: "delegate_coins k acc y s2 = (Ok (), s3)" and s4: "schedule_accrue acc dust item s3 = (Ok item', s4)"
    and s': "s' = write_record acc item' (emit (EventDelegate k acc n) s4)"
    using ok by (auto simp: Delegate_def and_then_Ok_iff lift_res_def Let_def split: if_splits)
  note s3' = delegate_coins_balanced[OF accruePart_balanced[OF ledger_SendCoins[OF s s1] s2] s3]
  note s4' = balanced_frame[OF s3' schedule_accrue_bank[OF s4]]
  show ?thesis unfolding s'
    by (rule balanced_frame[OF balanced_frame[OF s4' emit_same_bank] write_record_bank])
qed

lemma pay_due_balanced:
  assumes "balanced s" "for_each due (\<lambda>r. undelegate k acc (rq_Amount r)) s = (Ok (), s')"
  shows "balanced s'"
  using assms by (induction due arbitrary: s) (auto simp: and_then_Ok_iff dest: undelegate_balanced)

lemma performRevoking_balanced:
  assumes s: "balanced s" and ok: "performRevoking k acc s = (Ok (), s')"
  shows "balanced s'"
proof (cases "deleg_store s acc")
  case (Some item)
  then obtain s1 where "for_each (due_requests k item (block_time s)) (\<lambda>r. undelegate k acc (rq_Amount r)) s = (Ok (), s1)"
    and same: "same_bank s1 s'"
    using ok by (auto simp: performRevoking_def and_then_Ok_iff Let_def write_record_def split: if_splits)
  from pay_due_balanced[OF s this(1)] show ?thesis by (rule balanced_frame) (rule same)
qed (use assms in \<open>simp add: performRevoking_def\<close>)

lemma OnBanished_balanced:
  assumes s: "balanced s" and ok: "OnBanished k acc s = (Ok (), s')"
  shows "balanced s'"
  using ok Revoke_balanced[OF s] s by (auto simp: OnBanished_def and_then_Ok_iff lift_res_def split: if_splits)

lemma MustPerformAccrue_balanced:
  assumes s: "balanced s" and ok: "MustPerformAccrue k acc t s = (Ok (), s')"
  shows "balanced s'"
proof -
  obtain delegated flags percent s1 zero where s1: "award_terms k acc s = (Ok (delegated, flags, percent), s1)"
    "IsZero percent = Ok zero"
    using ok by (auto simp: MustPerformAccrue_def Let_def and_then_Ok_iff lift_res_def split: option.splits if_splits prod.splits)
  note b1 = balanced_frame[OF s award_terms_bank[OF s1(1)]]
  show ?thesis
  proof (cases zero)
    case True
    then have "\<exists>it. s' = write_record acc it s1"
      using ok s1 by (auto simp: MustPerformAccrue_def Let_def and_then_Ok_iff lift_res_def split: option.splits if_splits)
    then show ?thesis using balanced_frame[OF b1 write_record_bank] by auto
  next
    case False
    then obtain interest toV s2 s3 t' s4 it where s2: "accrue k acc interest flags s1 = (Ok (), s2)"
      and s3: "accrueToValidator k acc toV s2 = (Ok (), s3)" and s4: "ScheduleTask t' AccrueHookName acc s3 = (Ok (), s4)"
      and s': "s' = write_record acc it s4"
      using ok s1 by (auto simp: MustPerformAccrue_def Let_def and_then_Ok_iff lift_res_def split: option.splits if_splits)
    note b3 = accrueToValidator_balanced[OF accrue_balanced[OF b1 s2] s3]
    show ?thesis unfolding s'
      by (rule balanced_frame[OF balanced_frame[OF b3 ScheduleTask_bank[OF s4]] write_record_bank])
  qed
qed

end

section \<open>What is paid out\<close>

text \<open>What the sorting promises: the same requests, none before one that is due earlier.\<close>

definition sorts_by_time :: "'s deleg_keeper \<Rightarrow> bool" where
  "sorts_by_time k \<longleftrightarrow> (\<forall>xs. mset (dk_sort k (\<lambda>a b. rq_Time a < rq_Time b) xs) = mset xs
     \<and> sorted_wrt (\<lambda>a b. rq_Time a \<le> rq_Time b) (dk_sort k (\<lambda>a b. rq_Time a < rq_Time b) xs))"

lemma take_due:
  assumes "sorted_wrt (\<lambda>a b. rq_Time a \<le> rq_Time b) xs"
  shows "takeWhile (\<lambda>r. rq_Time r \<le> now) xs = filter (\<lambda>r. rq_Time r \<le> now) xs"
    "drop (length (takeWhile (\<lambda>r. rq_Time r \<le> now) xs)) xs = filter (\<lambda>r. now < rq_Time r) xs"
proof -
  show "takeWhile (\<lambda>r. rq_Time r \<le> now) xs = filter (\<lambda>r. rq_Time r \<le> now) xs"
    using assms by (induction xs) (auto simp: empty_filter_conv)
  have "dropWhile (\<lambda>r. rq_Time r \<le> now) xs = filter (\<lambda>r. now < rq_Time r) xs"
    using assms by (induction xs) (auto intro!: filter_True[symmetric])
  then show "drop (length (takeWhile (\<lambda>r. rq_Time r \<le> now) xs)) xs = filter (\<lambda>r. now < rq_Time r) xs"
    by (simp add: dropWhile_eq_drop)
qed

definition due_amount :: "time \<Rightarrow> revoke_request list \<Rightarrow> int" where
  "due_amount now rs = (\<Sum>r\<leftarrow>filter (\<lambda>r. rq_Time r \<le> now) rs. rq_Amount r)"

lemma due_amount_mset: "mset xs = mset ys \<Longrightarrow> due_amount now xs = due_amount now ys"
  unfolding due_amount_def by (subst (1 2) sum_mset_sum_list[symmetric]) simp

context deleg_laws
begin

lemma undelegate_shift:
  assumes "balanced s" "undelegate k acc x s = (Ok (), s')"
  shows "bal (dk_sdk k) s' a d = bal (dk_sdk k) s a d
    + (if a = acc then of_denom ConfigMainDenom x d - of_denom ConfigRevokingDenom x d else 0)"
proof (cases "x = 0")
  case False
  then obtain s1 n where e: "exchange k acc ConfigRevokingDenom x ConfigMainDenom x s = (Ok (), s1)"
    and a: "amount_event k n acc x s1 = (Ok (), s')"
    using assms(2) by (auto simp: undelegate_def and_then_Ok_iff)
  have "balances s' = balances s1" using amount_event_bank[OF a] by simp
  from bank_frame(2)[OF this] show ?thesis
    using exchange_Ok(5)[OF assms(1) e known_denoms(3,1), of a d] by simp
qed (use assms in \<open>simp add: undelegate_def of_denom_def\<close>)

lemma pay_due_shift:
  assumes "balanced s" "for_each due (\<lambda>r. undelegate k acc (rq_Amount r)) s = (Ok (), s')"
  shows "bal (dk_sdk k) s' a d = bal (dk_sdk k) s a d + (if a = acc
    then of_denom ConfigMainDenom (\<Sum>r\<leftarrow>due. rq_Amount r) d - of_denom ConfigRevokingDenom (\<Sum>r\<leftarrow>due. rq_Amount r) d else 0)"
  using assms
proof (induction due arbitrary: s)
  case Nil
  then show ?case by (simp add: of_denom_def)
next
  case (Cons r due)
  then obtain s1 where s1: "undelegate k acc (rq_Amount r) s = (Ok (), s1)"
    "for_each due (\<lambda>r. undelegate k acc (rq_Amount r)) s1 = (Ok (), s')"
    by (auto simp: and_then_Ok_iff)
  show ?case
    using Cons.IH[OF undelegate_balanced[OF Cons.prems(1) s1(1)] s1(2)] undelegate_shift[OF Cons.prems(1) s1(1), of a d]
    by (simp add: of_denom_def)
qed

lemma performRevoking_pays:
  assumes s: "balanced s" and item: "deleg_store s acc = Some item" and sort: "sorts_by_time k"
    and ok: "performRevoking k acc s = (Ok (), s')"
  shows "(\<forall>a d. bal (dk_sdk k) s' a d = bal (dk_sdk k) s a d + (if a = acc
      then of_denom ConfigMainDenom (due_amount (block_time s) (Requests item)) d
        - of_denom ConfigRevokingDenom (due_amount (block_time s) (Requests item)) d else 0))
    \<and> (\<exists>item'. deleg_store s' acc = Some item' \<and> NextAccrue item' = NextAccrue item
      \<and> mset (Requests item') = {# r \<in># mset (Requests item). block_time s < rq_Time r #})"
proof -
  define xs where "xs = dk_sort k (\<lambda>a b. rq_Time a < rq_Time b) (Requests item)"
  have xs: "mset xs = mset (Requests item)" "sorted_wrt (\<lambda>a b. rq_Time a \<le> rq_Time b) xs"
    using sort by (simp_all add: sorts_by_time_def xs_def)
  define due where "due = due_requests k item (block_time s)"
  have due: "due = filter (\<lambda>r. rq_Time r \<le> block_time s) xs"
    "drop (length due) xs = filter (\<lambda>r. block_time s < rq_Time r) xs"
    using take_due[OF xs(2), of "block_time s"] by (simp_all add: due_def due_requests_def flip: xs_def)
  have amount: "(\<Sum>r\<leftarrow>due. rq_Amount r) = due_amount (block_time s) (Requests item)"
    using due_amount_mset[OF xs(1), of "block_time s"] by (simp add: due(1) due_amount_def)
  obtain s1 where pay: "for_each due (\<lambda>r. undelegate k acc (rq_Amount r)) s = (Ok (), s1)"
    and s': "s' = (if due = [] then s1 else write_record acc (item\<lparr>Requests := drop (length due) xs\<rparr>) s1)"
    using ok item by (auto simp: performRevoking_def and_then_Ok_iff Let_def Record_IsEmpty_def
        simp flip: xs_def due_def split: if_splits)
  have "balances s' = balances s1" by (simp add: s' write_record_def)
  note b = pay_due_shift[OF s pay, unfolded amount] bank_frame(2)[OF this]
  have "\<exists>item'. deleg_store s' acc = Some item' \<and> NextAccrue item' = NextAccrue item
      \<and> mset (Requests item') = {# r \<in># mset (Requests item). block_time s < rq_Time r #}"
  proof (cases "due = []")
    case True
    then have "filter (\<lambda>r. block_time s < rq_Time r) xs = xs" using due(2) by simp
    then have "{# r \<in># mset (Requests item). block_time s < rq_Time r #} = mset (Requests item)"
      using xs(1) by (metis mset_filter)
    then show ?thesis using True pay item by (simp add: s')
  next
    case False
    then show ?thesis using due(2) xs(1) by (simp add: s' write_record_def)
  qed
  then show ?thesis using b by simp
qed

end

section \<open>The daily percent\<close>

text \<open>The row that counts is the last one whose start the delegation has reached.\<close>

definition row_for :: "int \<Rightarrow> percentage_list_range list \<Rightarrow> percentage_list_range" where
  "row_for delegated table = last (filter (\<lambda>r. pl_Start r \<le> delegated) table)"

definition table_wf :: "percentage_list_range list \<Rightarrow> bool" where
  "table_wf table \<longleftrightarrow> list_all (\<lambda>r. list_all wf_frac (PercentList r)) table"

lemma table_ok_rows:
  assumes "table_ok prev table = Ok ()"
  shows "\<forall>r\<in>set table. length (PercentList r) = 5 \<and> (case prev of None \<Rightarrow> True | Some p \<Rightarrow> p < pl_Start r)"
    "sorted_wrt (\<lambda>a b. pl_Start a < pl_Start b) table"
proof -
  have "(\<forall>r\<in>set table. length (PercentList r) = 5 \<and> (case prev of None \<Rightarrow> True | Some p \<Rightarrow> p < pl_Start r))
    \<and> sorted_wrt (\<lambda>a b. pl_Start a < pl_Start b) table"
    using assms
  proof (induction table arbitrary: prev)
    case (Cons r table)
    then have "table_ok (Some (pl_Start r)) table = Ok ()" "length (PercentList r) = 5"
      "(case prev of None \<Rightarrow> True | Some p \<Rightarrow> p < pl_Start r)"
      by (auto simp: bind_res_Ok_iff PercentageListRange_Validate_def split: if_splits option.splits)
    then show ?case using Cons.IH[of "Some (pl_Start r)"] by (fastforce split: option.splits)
  qed simp
  then show "\<forall>r\<in>set table. length (PercentList r) = 5 \<and> (case prev of None \<Rightarrow> True | Some p \<Rightarrow> p < pl_Start r)"
    "sorted_wrt (\<lambda>a b. pl_Start a < pl_Start b) table" by simp_all
qed

lemma table_bonus_row:
  assumes "sorted_wrt (\<lambda>a b. pl_Start a < pl_Start b) table" "\<forall>r\<in>set table. i < length (PercentList r)"
  shows "table_bonus delegated i table b
    = Ok (if \<exists>r\<in>set table. pl_Start r \<le> delegated then PercentList (row_for delegated table) ! i else b)"
  using assms
proof (induction table arbitrary: b)
  case (Cons r table)
  show ?case
  proof (cases "pl_Start r \<le> delegated")
    case True
    show ?thesis
    proof (cases "\<exists>r\<in>set table. pl_Start r \<le> delegated")
      case ex: True
      then have "filter (\<lambda>r. pl_Start r \<le> delegated) table \<noteq> []" by (simp add: filter_empty_conv)
      then show ?thesis using Cons True ex by (simp add: row_for_def nth_res_def)
    next
      case none: False
      then have "filter (\<lambda>r. pl_Start r \<le> delegated) table = []" by (simp add: filter_empty_conv)
      then show ?thesis using Cons True none by (simp add: row_for_def nth_res_def)
    qed
  next
    case False
    then have "\<not> (\<exists>r\<in>set table. pl_Start r \<le> delegated)" using Cons.prems(1) by force
    then show ?thesis using False by simp
  qed
qed simp

lemma add_bonuses_val:
  assumes "\<And>i b. i < 5 \<Longrightarrow> table_bonus delegated i table b = Ok (q i)" "\<And>i. i < 5 \<Longrightarrow> wf_frac (q i)"
    and "wf_frac p" "i + length bs \<le> 5"
  shows "\<exists>z. add_bonuses delegated table i bs p = Ok z \<and> wf_frac z
    \<and> frac_val z = frac_val p + (\<Sum>j < length bs. if bs ! j then frac_val (q (i + j)) else 0)"
  using assms(3,4)
proof (induction bs arbitrary: i p)
  case (Cons b bs)
  have shift: "(\<Sum>j < length (b # bs). if (b # bs) ! j then frac_val (q (i + j)) else 0)
      = (if b then frac_val (q i) else 0) + (\<Sum>j < length bs. if bs ! j then frac_val (q (Suc i + j)) else 0)"
    by (simp add: sum.lessThan_Suc_shift del: sum.lessThan_Suc cong: if_cong)
  show ?case
  proof (cases b)
    case True
    obtain y where y: "Add p (q i) = Ok y" "wf_frac y" "frac_val y = frac_val p + frac_val (q i)"
      using Add_val[OF Cons.prems(1) assms(2)[of i]] Cons.prems(2) by auto
    have "table_bonus delegated i table FractionZero = Ok (q i)" using assms(1) Cons.prems(2) by simp
    then show ?thesis using Cons.IH[OF y(2), of "Suc i"] Cons.prems(2) y True shift by (simp add: add.assoc)
  next
    case False
    then show ?thesis using Cons.IH[OF Cons.prems(1), of "Suc i"] Cons.prems(2) shift by simp
  qed
qed simp

lemma daily_percent_row:
  assumes params: "deleg_params_Validate (deleg_GetParams s) = Ok ()" "table_wf (AccruePercentageTable (deleg_GetParams s))"
    and d: "in_int64 delegated" "0 \<le> delegated" "DustDelegation (bank_GetParams s) < delegated"
  shows "\<exists>q. daily_percent delegated profile validator vpn storage s = Ok q \<and> wf_frac q
    \<and> frac_val q = (\<Sum>i < 5. if [True, validator, profile, vpn, storage] ! i
        then frac_val (PercentList (row_for delegated (AccruePercentageTable (deleg_GetParams s))) ! i) else 0) / 30"
proof -
  let ?t = "AccruePercentageTable (deleg_GetParams s)"
  let ?row = "row_for delegated ?t"
  have t: "table_ok None ?t = Ok ()" "?t \<noteq> []"
    using params(1) by (auto simp: deleg_params_Validate_def bind_res_Ok_iff ValidatePercentageTable_def split: if_splits)
  note rows = table_ok_rows[OF t(1)]
  obtain r0 t0 where t0: "?t = r0 # t0" "pl_Start r0 = 0"
    using t by (cases ?t) (auto simp: bind_res_Ok_iff split: if_splits)
  then have ex: "\<exists>r\<in>set ?t. pl_Start r \<le> delegated" using d(2) by auto
  have "?row \<in> set (filter (\<lambda>r. pl_Start r \<le> delegated) ?t)"
    unfolding row_for_def using ex by (intro last_in_set) (auto simp: filter_empty_conv)
  then have row: "length (PercentList ?row) = 5" "list_all wf_frac (PercentList ?row)"
    using rows(1) params(2) by (auto simp: table_wf_def list_all_iff)
  have "\<And>i b. i < 5 \<Longrightarrow> table_bonus delegated i ?t b = Ok (PercentList ?row ! i)"
    using table_bonus_row[OF rows(2)] rows(1) ex by simp
  moreover have "\<And>i. i < 5 \<Longrightarrow> wf_frac (PercentList ?row ! i)" using row by (simp add: list_all_length)
  moreover have five: "length [True, validator, profile, vpn, storage] = 5" by simp
  ultimately obtain z where z: "add_bonuses delegated ?t 0 [True, validator, profile, vpn, storage] FractionZero = Ok z"
    "wf_frac z" "frac_val z = (\<Sum>j < 5. if [True, validator, profile, vpn, storage] ! j then frac_val (PercentList ?row ! j) else 0)"
    using add_bonuses_val[of delegated ?t "\<lambda>i. PercentList ?row ! i" FractionZero 0 "[True, validator, profile, vpn, storage]",
        unfolded five add_0]
    by (auto simp: FractionZero_def simp del: add_bonuses.simps sum.lessThan_Suc)
  obtain y where y: "Div z (NewFraction 30 1) = Ok y" "wf_frac y" "frac_val y = frac_val z / 30"
    using Div_val[OF z(2), of "NewFraction 30 1"] by auto
  obtain w where w: "Reduce y = Ok w" "wf_frac w" "frac_val w = frac_val y" using Reduce_val[OF y(2)] by auto
  have "daily_percent delegated profile validator vpn storage s = Ok w"
    using d(1,3) z(1) y(1) w(1) by (simp add: daily_percent_def Int64_def)
  then show ?thesis using w(2,3) y(3) z(3) by simp
qed

section \<open>An example\<close>

definition ex_dk :: "unit deleg_keeper" where
  "ex_dk = \<lparr>dk_bank = plain_bank ref_sdk, dk_ref = plain_ref ref_sdk,
     dk_sort = (\<lambda>before xs. foldr (insert_by before) xs [])\<rparr>"

definition ex_dctx :: "(addr \<rightharpoonup> deleg_record) \<Rightarrow> coins \<Rightarrow> deleg_ctx" where
  "ex_dctx records c = \<lparr>block_time = 1000, block_height = 7, events = [], sched_params_store = None,
     sched_store = Map.empty, accounts = {''alice''}, balances = [''alice'' \<mapsto> c], total_supply = Some c,
     bank_params_store = Some (bank_DefaultParams ref_sdk), denom_metadata = Map.empty, ref_store = Map.empty, ref_index = {},
     ref_params_store = None, nod_store = Map.empty, nod_operators = Map.empty, nod_proposers = Map.empty,
     nod_lottery = Map.empty, nod_params_store = None, nod_index_marked = True, prof_store = Map.empty,
     prof_aliases = Map.empty, prof_cards = Map.empty, prof_params_store = None, prof_index_marked = True,
     earn_store = Map.empty, earn_params_store = None, deleg_store = records,
     deleg_params_store = Some deleg_DefaultParams\<rparr>"

interpretation ex_dk: deleg_laws ex_dk
proof (rule deleg_laws.intro, rule bank_laws.intro)
  show "sdk_laws (bk_sdk (dk_bank ex_dk))" by (simp add: ex_dk_def ref_coins.sdk_laws_axioms)
qed (simp_all add: ex_dk_def)

lemma ex_dk_laws: "bank_laws (dk_bank ex_dk)"
  by (rule ex_dk.bank)

lemma ex_dctx_books:
  assumes "ref_valid c" "c \<noteq> []"
  shows "bank_inv (dk_sdk ex_dk) (ex_dctx records c)" "supply_matches (dk_sdk ex_dk) (ex_dctx records c)"
  using assms by (auto simp: bank_inv_def supply_matches_def circulating_def bal_def coins_of_def ex_dctx_def ex_dk_def
      ref_sdk_def split: if_splits)

definition ex_requests :: deleg_record where
  "ex_requests = \<lparr>NextAccrue = None, Requests = [\<lparr>rq_Time = 2000, rq_Amount = 10\<rparr>, \<lparr>rq_Time = 500, rq_Amount = 25\<rparr>,
     \<lparr>rq_Time = 1000, rq_Amount = 15\<rparr>], MissedPart = None\<rparr>"

definition ex_revoking :: deleg_ctx where
  "ex_revoking = ex_dctx [''alice'' \<mapsto> ex_requests] [(ConfigRevokingDenom, 50)]"

lemma insert_by_time:
  "sorted_wrt (\<lambda>a b. rq_Time a \<le> rq_Time b) xs \<Longrightarrow>
   sorted_wrt (\<lambda>a b. rq_Time a \<le> rq_Time b) (insert_by (\<lambda>a b. rq_Time a < rq_Time b) x xs)"
  by (induction xs) auto

lemma ex_sorts: "sorts_by_time ex_dk"
proof -
  have "mset (foldr (insert_by (\<lambda>a b. rq_Time a < rq_Time b)) xs []) = mset xs" for xs :: "revoke_request list" by (induction xs) auto
  moreover have "sorted_wrt (\<lambda>a b. rq_Time a \<le> rq_Time b) (foldr (insert_by (\<lambda>a b. rq_Time a < rq_Time b)) xs [])" for xs :: "revoke_request list"
    by (induction xs) (auto intro: insert_by_time)
  ultimately show ?thesis by (simp add: sorts_by_time_def ex_dk_def)
qed

section \<open>Properties\<close>

text \<open>C4. Through every operation of x/delegating the recorded supply stays what is in circulation, in every
  denomination. If it is so before Delegate, Revoke (of either kind), the revocation at a
  banishment, the payment of revoked coins or the daily award, and the call returns without
  error, it is so after: what is exchanged, burned, and newly paid to delegator, fee collector
  and validators is booked exactly, with no overflow of the validators' total.\<close>

theorem delegating_keeps_supply:
  assumes "bank_laws (dk_bank k)" "bank_inv (dk_sdk k) s" "supply_matches (dk_sdk k) s"
    and "Delegate k acc x s = (Ok (), s') \<or> Revoke k acc x express s = (Ok (), s') \<or> OnBanished k acc s = (Ok (), s')
      \<or> MustPerformRevoking k acc t s = (Ok (), s') \<or> MustPerformAccrue k acc t s = (Ok (), s')"
  shows "bank_inv (dk_sdk k) s' \<and> supply_matches (dk_sdk k) s'"
proof -
  note laws = deleg_laws.intro[OF assms(1)]
  have s: "ledger (dk_sdk k) s (\<lambda>d. 0)" using assms(2,3) by (simp add: ledger_zero)
  have "ledger (dk_sdk k) s' (\<lambda>d. 0)"
    using assms(4) deleg_laws.Delegate_balanced[OF laws s] deleg_laws.Revoke_balanced[OF laws s]
      deleg_laws.OnBanished_balanced[OF laws s] deleg_laws.performRevoking_balanced[OF laws s]
      deleg_laws.MustPerformAccrue_balanced[OF laws s]
    by (auto simp: MustPerformRevoking_def)
  then show ?thesis by (simp add: ledger_zero)
qed

theorem delegating_keeps_supply_witness:
  "\<exists>s'. Delegate ex_dk ''alice'' 500000 (ex_dctx Map.empty [(ConfigMainDenom, 1000000)]) = (Ok (), s')
    \<and> supply_matches (dk_sdk ex_dk) s'"
proof -
  have ok: "fst (Delegate ex_dk ''alice'' 500000 (ex_dctx Map.empty [(ConfigMainDenom, 1000000)])) = Ok ()" by code_simp
  have v: "ref_valid [(ConfigMainDenom, 1000000)]" by (simp add: ref_valid_def)
  show ?thesis
    using delegating_keeps_supply[OF ex_dk_laws ex_dctx_books[OF v]] pair_of_fst[OF ok] by blast
qed

text \<open>C20. Revoked coins are paid out exactly when they are due. The hook of the schedule turns into main coins
  of the account precisely the sum of its requests whose time has come, out of its revoking
  coins; no other balance changes in any denomination, exactly the requests that are not yet
  due remain, and the date of the next award stays.\<close>

theorem revoked_coins_paid_when_due:
  assumes "bank_laws (dk_bank k)" "bank_inv (dk_sdk k) s" "supply_matches (dk_sdk k) s" "sorts_by_time k"
    and "deleg_store s acc = Some item" "MustPerformRevoking k acc t s = (Ok (), s')"
  shows "(\<forall>a d. bal (dk_sdk k) s' a d = bal (dk_sdk k) s a d + (if a = acc
      then of_denom ConfigMainDenom (due_amount (block_time s) (Requests item)) d
        - of_denom ConfigRevokingDenom (due_amount (block_time s) (Requests item)) d else 0))
    \<and> (\<exists>item'. deleg_store s' acc = Some item' \<and> NextAccrue item' = NextAccrue item
      \<and> mset (Requests item') = {# r \<in># mset (Requests item). block_time s < rq_Time r #})"
proof -
  have "ledger (dk_sdk k) s (\<lambda>d. 0)" using assms(2,3) by (simp add: ledger_zero)
  from deleg_laws.performRevoking_pays[OF deleg_laws.intro[OF assms(1)] this assms(5,4)] assms(6)
  show ?thesis by (simp add: MustPerformRevoking_def)
qed

theorem revoked_coins_paid_when_due_witness:
  "\<exists>s'. MustPerformRevoking ex_dk ''alice'' 1000 ex_revoking = (Ok (), s')
    \<and> bal (dk_sdk ex_dk) s' ''alice'' ConfigMainDenom = 40 \<and> bal (dk_sdk ex_dk) s' ''alice'' ConfigRevokingDenom = 10"
proof -
  have ok: "fst (MustPerformRevoking ex_dk ''alice'' 1000 ex_revoking) = Ok ()" by code_simp
  have v: "ref_valid [(ConfigRevokingDenom, 50)]" by (simp add: ref_valid_def)
  have item: "deleg_store ex_revoking ''alice'' = Some ex_requests" by (simp add: ex_revoking_def ex_dctx_def)
  from revoked_coins_paid_when_due[OF ex_dk_laws ex_dctx_books[OF v list.distinct(2), of "[''alice'' \<mapsto> ex_requests]", folded ex_revoking_def] ex_sorts item pair_of_fst[OF ok]]
  have "bal (dk_sdk ex_dk) (snd (MustPerformRevoking ex_dk ''alice'' 1000 ex_revoking)) ''alice'' d
    = bal (dk_sdk ex_dk) ex_revoking ''alice'' d + of_denom ConfigMainDenom 40 d - of_denom ConfigRevokingDenom 40 d" for d
    by (simp add: due_amount_def ex_requests_def ex_revoking_def ex_dctx_def)
  then show ?thesis
    using pair_of_fst[OF ok] by (auto simp: ex_dctx_def ex_revoking_def ex_dk_def bal_def coins_of_def ref_sdk_def of_denom_def)
qed

text \<open>C22. The daily percent agrees with its reference definition. Under validated parameters whose table has no
  zero denominator, and for a delegation above the dust, it is a thirtieth of the sum of the
  entries of one row, the last one whose start the delegation has reached: the first entry
  always, the others for an active validator, profile, VPN and storage, in this order; and the
  calculation neither fails nor panics.\<close>

theorem daily_percent_is_row:
  assumes "deleg_params_Validate (deleg_GetParams s) = Ok ()" "table_wf (AccruePercentageTable (deleg_GetParams s))"
    and "in_int64 delegated" "0 \<le> delegated" "DustDelegation (bank_GetParams s) < delegated"
  shows "\<exists>q. daily_percent delegated profile validator vpn storage s = Ok q \<and> wf_frac q
    \<and> frac_val q = (\<Sum>i < 5. if [True, validator, profile, vpn, storage] ! i
        then frac_val (PercentList (row_for delegated (AccruePercentageTable (deleg_GetParams s))) ! i) else 0) / 30"
  by (rule daily_percent_row[OF assms])

theorem daily_percent_is_row_witness:
  "\<exists>q. daily_percent 5000000000 True True False False (ex_dctx Map.empty []) = Ok q \<and> frac_val q = 25 / 3000"
proof -
  have p: "deleg_params_Validate (deleg_GetParams (ex_dctx Map.empty [])) = Ok ()" by code_simp
  have t: "table_wf (AccruePercentageTable (deleg_GetParams (ex_dctx Map.empty [])))"
    by (simp add: table_wf_def deleg_GetParams_def ex_dctx_def deleg_DefaultParams_def deleg_NewParams_def
        DefaultAccruePercentageTable_def default_row_def Percent_def)
  have d: "DustDelegation (bank_GetParams (ex_dctx Map.empty [])) < 5000000000" by code_simp
  have "AccruePercentageTable (deleg_GetParams (ex_dctx Map.empty [])) = DefaultAccruePercentageTable"
    by (simp add: deleg_GetParams_def ex_dctx_def deleg_DefaultParams_def deleg_NewParams_def)
  moreover have "row_for 5000000000 DefaultAccruePercentageTable = default_row 1000000000 24"
    by (simp add: row_for_def DefaultAccruePercentageTable_def default_row_def)
  moreover have "in_int64 5000000000" by (simp add: in_int64_def)
  ultimately obtain q where "daily_percent 5000000000 True True False False (ex_dctx Map.empty []) = Ok q"
    "frac_val q = (\<Sum>i < 5. if [True, True, True, False, False] ! i then frac_val (PercentList (default_row 1000000000 24) ! i) else 0) / 30"
    using daily_percent_is_row[OF p t _ _ d, of True True False False] by (auto cong: if_cong)
  then show ?thesis by (simp add: default_row_def Percent_def numeral_eq_Suc)
qed

end
