(* ===== verification/Voting_Types.thy ===== *)
theory Voting_Types
  imports Delegating_Ops
begin

text \<open>
  The data of \<open>x/voting\<close>: proposals with their types and arguments, the government, polls, the
  genesis state, and the checks they pass before a transaction is let in or a genesis is accepted.
\<close>

section \<open>Proposals\<close>

datatype (plugins only: code) proposal_type =
    PROPOSAL_TYPE_UNSPECIFIED
  | PROPOSAL_TYPE_ENTER_PRICE
  | PROPOSAL_TYPE_DELEGATION_AWARD
  | PROPOSAL_TYPE_DELEGATION_NETWORK_AWARD
  | PROPOSAL_TYPE_PRODUCT_NETWORK_AWARD
  | PROPOSAL_TYPE_GOVERNMENT_ADD
  | PROPOSAL_TYPE_GOVERNMENT_REMOVE
  | PROPOSAL_TYPE_PRODUCT_VPN_BASE_PRICE
  | PROPOSAL_TYPE_PRODUCT_STORAGE_BASE_PRICE
  | PROPOSAL_TYPE_FREE_CREATOR_ADD
  | PROPOSAL_TYPE_FREE_CREATOR_REMOVE
  | PROPOSAL_TYPE_SOFTWARE_UPGRADE
  | PROPOSAL_TYPE_CANCEL_SOFTWARE_UPGRADE
  | PROPOSAL_TYPE_STAFF_VALIDATOR_ADD
  | PROPOSAL_TYPE_STAFF_VALIDATOR_REMOVE
  | PROPOSAL_TYPE_EARNING_SIGNER_ADD
  | PROPOSAL_TYPE_EARNING_SIGNER_REMOVE
  | PROPOSAL_TYPE_TOKEN_RATE_SIGNER_ADD
  | PROPOSAL_TYPE_TOKEN_RATE_SIGNER_REMOVE
  | PROPOSAL_TYPE_VPN_SIGNER_ADD
  | PROPOSAL_TYPE_VPN_SIGNER_REMOVE
  | PROPOSAL_TYPE_STORAGE_SIGNER_ADD
  | PROPOSAL_TYPE_STORAGE_SIGNER_REMOVE
  | PROPOSAL_TYPE_TRANSITION_PRICE
  | PROPOSAL_TYPE_MIN_SEND
  | PROPOSAL_TYPE_MIN_DELEGATE
  | PROPOSAL_TYPE_MAX_VALIDATORS
  | PROPOSAL_TYPE_LUCKY_VALIDATORS
  | PROPOSAL_TYPE_GENERAL_AMNESTY
  | PROPOSAL_TYPE_VALIDATOR_MINIMAL_STATUS
  | PROPOSAL_TYPE_VALIDATOR_MINIMAL_CRITERIA
  | PROPOSAL_TYPE_JAIL_AFTER
  | PROPOSAL_TYPE_REVOKE_PERIOD
  | PROPOSAL_TYPE_DUST_DELEGATION
  | PROPOSAL_TYPE_VOTING_POWER
  | PROPOSAL_TYPE_VALIDATOR_BONUS
  | PROPOSAL_TYPE_SUBSCRIPTION_BONUS
  | PROPOSAL_TYPE_VPN_BONUS
  | PROPOSAL_TYPE_STORAGE_BONUS
  | PROPOSAL_TYPE_VALIDATOR
  | PROPOSAL_TYPE_TRANSACTION_FEE
  | PROPOSAL_TYPE_BURN_ON_REVOKE
  | PROPOSAL_TYPE_MAX_TRANSACTION_FEE
  | PROPOSAL_TYPE_TRANSACTION_FEE_SPLIT_RATIOS
  | PROPOSAL_TYPE_ACCRUE_PERCENTAGE_RANGES
  | PROPOSAL_TYPE_ACCRUE_PERCENTAGE_TABLE
  | PROPOSAL_TYPE_BLOCKED_SENDER_ADD
  | PROPOSAL_TYPE_BLOCKED_SENDER_REMOVE
  | PROPOSAL_TYPE_REVOKE
  | PROPOSAL_TYPE_EXPRESS_REVOKE

text \<open>The arguments. A message nested in \<open>MinCriteriaArgs\<close> or \<open>RevokeArgs\<close> may be missing.\<close>

record upgrade_args =
  ua_Name :: string
  ua_Height :: int
  ua_Info :: string
  ua_Time :: "time option"

datatype proposal_args =
    A_Price int
  | A_DelegationAward percentage
  | A_NetworkAward network_award
  | A_Address string
  | A_SoftwareUpgrade upgrade_args
  | A_MinAmount int
  | A_Count int
  | A_Status status
  | A_MinCriteria "min_criteria option"
  | A_Period int
  | A_VotingPower distribution
  | A_Portion fraction
  | A_Portions "fraction list"
  | A_AccruePercentageRanges "percentage_range list"
  | A_AccruePercentageTable "percentage_list_range list"
  | A_Revoke "revoke_params option"

record proposal =
  prop_Name :: string
  prop_Author :: string
  prop_Type :: proposal_type
  EndBlock :: int
  prop_EndTime :: "time option"
  Args :: "proposal_args option"

definition zero_proposal :: proposal where
  "zero_proposal = \<lparr>prop_Name = [], prop_Author = [], prop_Type = PROPOSAL_TYPE_UNSPECIFIED,
     EndBlock = 0, prop_EndTime = None, Args = None\<rparr>"

definition SoftwareUpgrade_ValidateHistorical :: "upgrade_args \<Rightarrow> unit res" where
  "SoftwareUpgrade_ValidateHistorical a =
     (if ua_Name a = [] then Err (Text ''empty upgrade name'')
      else if (ua_Height a > 0) = (ua_Time a \<noteq> None)
        then Err (Text ''upgrade must be scheduled either by height or by time'') else Ok ())"

definition SoftwareUpgrade_Validate :: "upgrade_args \<Rightarrow> unit res" where
  "SoftwareUpgrade_Validate a = bind_res (SoftwareUpgrade_ValidateHistorical a) (\<lambda>_.
     if ua_Time a \<noteq> None then Err (Text ''upgrade time is deprecated, use height instead'')
     else if ua_Height a \<le> 0 then Err (Text ''upgrade height must be positive'') else Ok ())"

definition Period_Validate :: "int \<Rightarrow> unit res" where
  "Period_Validate days = (if days < 1 then Err (Text ''period must be at least one day'') else Ok ())"

definition Portion_Validate :: "fraction \<Rightarrow> unit res" where
  "Portion_Validate q =
     (if IsNullValue q then Err (Text ''should be in [0; 1)'')
      else bind_res (IsNegative q) (\<lambda>neg. if neg then Err (Text ''should be in [0; 1)'')
      else bind_res (GTE q (FractionInt 1)) (\<lambda>ge. if ge then Err (Text ''should be in [0; 1)'') else Ok ())))"

definition share_Validate :: "fraction \<Rightarrow> unit res" where
  "share_Validate q =
     (if IsNullValue q then Err (Text ''should be in [0; 1]'')
      else bind_res (IsNegative q) (\<lambda>neg. if neg then Err (Text ''should be in [0; 1]'')
      else bind_res (GT q (FractionInt 1)) (\<lambda>gt. if gt then Err (Text ''should be in [0; 1]'') else Ok ())))"

definition Portions_Validate :: "fraction list \<Rightarrow> unit res" where
  "Portions_Validate qs =
     bind_res (nth_res qs 0) (\<lambda>forProposer.
     bind_res (share_Validate forProposer) (\<lambda>_.
     bind_res (nth_res qs 1) (\<lambda>forCompany.
     bind_res (share_Validate forCompany) (\<lambda>_.
     bind_res (Add forProposer forCompany) (\<lambda>both.
     bind_res (GT both (FractionInt 1)) (\<lambda>gt.
     if gt then Err (Text ''sums must be less than or equal 1'')
     else bind_res (CalculateTransactionFeeSplitRatiosLCM forProposer forCompany) (\<lambda>lcm.
       if lcm > TransactionFeeSplitRatiosMaxLcm then Err (Text ''LCM must be less than or equal 100'')
       else Ok ())))))))"

fun deref_Validate :: "('a \<Rightarrow> unit res) \<Rightarrow> 'a option \<Rightarrow> unit res" where
  "deref_Validate f None = Panic nil_deref"
| "deref_Validate f (Some x) = f x"

text \<open>
  The check of the arguments of a given type: \<open>None\<close> where the arguments are of another type than
  the proposal needs.
\<close>

definition expect_args ::
    "(proposal_args \<Rightarrow> unit res option) \<Rightarrow> proposal_args option \<Rightarrow> unit res" where
  "expect_args f args =
     (case args of
        None \<Rightarrow> Err (Text ''invalid args: nil'')
      | Some a \<Rightarrow> (case f a of None \<Rightarrow> Err (Text ''invalid args: another type expected'') | Some r \<Rightarrow> r))"

definition price_args :: "proposal_args \<Rightarrow> unit res option" where
  "price_args a = (case a of A_Price _ \<Rightarrow> Some (Ok ()) | _ \<Rightarrow> None)"

definition address_args :: "sdk \<Rightarrow> proposal_args \<Rightarrow> unit res option" where
  "address_args L a = (case a of A_Address x \<Rightarrow> Some (parses L x) | _ \<Rightarrow> None)"

definition network_award_args :: "proposal_args \<Rightarrow> unit res option" where
  "network_award_args a = (case a of A_NetworkAward x \<Rightarrow> Some (NetworkAward_Validate x) | _ \<Rightarrow> None)"

definition min_amount_args :: "proposal_args \<Rightarrow> unit res option" where
  "min_amount_args a = (case a of A_MinAmount _ \<Rightarrow> Some (Ok ()) | _ \<Rightarrow> None)"

definition count_args :: "proposal_args \<Rightarrow> unit res option" where
  "count_args a = (case a of A_Count _ \<Rightarrow> Some (Ok ()) | _ \<Rightarrow> None)"

definition jail_after_args :: "proposal_args \<Rightarrow> unit res option" where
  "jail_after_args a =
     (case a of A_Count n \<Rightarrow> Some (if n \<le> 0 then Err (Text ''positive number expected'') else Ok ()) | _ \<Rightarrow> None)"

definition portion_args :: "proposal_args \<Rightarrow> unit res option" where
  "portion_args a = (case a of A_Portion q \<Rightarrow> Some (Portion_Validate q) | _ \<Rightarrow> None)"

definition revoke_args :: "proposal_args \<Rightarrow> unit res option" where
  "revoke_args a = (case a of A_Revoke r \<Rightarrow> Some (deref_Validate Revoke_Validate r) | _ \<Rightarrow> None)"

definition upgrade_args_ok :: "bool \<Rightarrow> proposal_args \<Rightarrow> unit res option" where
  "upgrade_args_ok historical a =
     (case a of
        A_SoftwareUpgrade u \<Rightarrow>
          Some (if historical then SoftwareUpgrade_ValidateHistorical u else SoftwareUpgrade_Validate u)
      | _ \<Rightarrow> None)"

definition args_Validate :: "sdk \<Rightarrow> bool \<Rightarrow> proposal_type \<Rightarrow> proposal_args option \<Rightarrow> unit res" where
  "args_Validate L historical t args =
     (if t \<in> {PROPOSAL_TYPE_CANCEL_SOFTWARE_UPGRADE, PROPOSAL_TYPE_GENERAL_AMNESTY}
        then (if args \<noteq> None then Err (Text ''args unexpected'') else Ok ())
      else if t \<in> {PROPOSAL_TYPE_ENTER_PRICE, PROPOSAL_TYPE_PRODUCT_VPN_BASE_PRICE,
          PROPOSAL_TYPE_PRODUCT_STORAGE_BASE_PRICE, PROPOSAL_TYPE_TRANSITION_PRICE}
        then expect_args price_args args
      else if t = PROPOSAL_TYPE_DELEGATION_AWARD
        then expect_args (\<lambda>a. case a of A_DelegationAward x \<Rightarrow> Some (Percentage_Validate x) | _ \<Rightarrow> None) args
      else if t \<in> {PROPOSAL_TYPE_DELEGATION_NETWORK_AWARD, PROPOSAL_TYPE_PRODUCT_NETWORK_AWARD}
        then expect_args network_award_args args
      else if t \<in> {PROPOSAL_TYPE_GOVERNMENT_ADD, PROPOSAL_TYPE_GOVERNMENT_REMOVE,
          PROPOSAL_TYPE_FREE_CREATOR_ADD, PROPOSAL_TYPE_FREE_CREATOR_REMOVE,
          PROPOSAL_TYPE_STAFF_VALIDATOR_ADD, PROPOSAL_TYPE_STAFF_VALIDATOR_REMOVE,
          PROPOSAL_TYPE_EARNING_SIGNER_ADD, PROPOSAL_TYPE_EARNING_SIGNER_REMOVE,
          PROPOSAL_TYPE_TOKEN_RATE_SIGNER_ADD, PROPOSAL_TYPE_TOKEN_RATE_SIGNER_REMOVE,
          PROPOSAL_TYPE_VPN_SIGNER_ADD, PROPOSAL_TYPE_VPN_SIGNER_REMOVE,
          PROPOSAL_TYPE_STORAGE_SIGNER_ADD, PROPOSAL_TYPE_STORAGE_SIGNER_REMOVE,
          PROPOSAL_TYPE_BLOCKED_SENDER_ADD, PROPOSAL_TYPE_BLOCKED_SENDER_REMOVE}
        then expect_args (address_args L) args
      else if t = PROPOSAL_TYPE_SOFTWARE_UPGRADE then expect_args (upgrade_args_ok historical) args
      else if t \<in> {PROPOSAL_TYPE_MIN_SEND, PROPOSAL_TYPE_MIN_DELEGATE, PROPOSAL_TYPE_DUST_DELEGATION,
          PROPOSAL_TYPE_MAX_TRANSACTION_FEE}
        then expect_args min_amount_args args
      else if t \<in> {PROPOSAL_TYPE_MAX_VALIDATORS, PROPOSAL_TYPE_LUCKY_VALIDATORS}
        then expect_args count_args args
      else if t = PROPOSAL_TYPE_JAIL_AFTER then expect_args jail_after_args args
      else if t = PROPOSAL_TYPE_VALIDATOR_MINIMAL_STATUS
        then expect_args (\<lambda>a. case a of A_Status x \<Rightarrow> Some (status_Validate x) | _ \<Rightarrow> None) args
      else if t = PROPOSAL_TYPE_VALIDATOR_MINIMAL_CRITERIA
        then expect_args (\<lambda>a. case a of
          A_MinCriteria x \<Rightarrow> Some (deref_Validate MinCriteria_Validate x) | _ \<Rightarrow> None) args
      else if t = PROPOSAL_TYPE_REVOKE_PERIOD
        then expect_args (\<lambda>a. case a of A_Period x \<Rightarrow> Some (Period_Validate x) | _ \<Rightarrow> None) args
      else if t = PROPOSAL_TYPE_VOTING_POWER
        then expect_args (\<lambda>a. case a of A_VotingPower x \<Rightarrow> Some (Distribution_Validate x) | _ \<Rightarrow> None) args
      else if t \<in> {PROPOSAL_TYPE_VALIDATOR_BONUS, PROPOSAL_TYPE_SUBSCRIPTION_BONUS, PROPOSAL_TYPE_VPN_BONUS,
          PROPOSAL_TYPE_STORAGE_BONUS, PROPOSAL_TYPE_VALIDATOR, PROPOSAL_TYPE_TRANSACTION_FEE,
          PROPOSAL_TYPE_BURN_ON_REVOKE}
        then expect_args portion_args args
      else if t = PROPOSAL_TYPE_TRANSACTION_FEE_SPLIT_RATIOS
        then expect_args (\<lambda>a. case a of A_Portions x \<Rightarrow> Some (Portions_Validate x) | _ \<Rightarrow> None) args
      else if t = PROPOSAL_TYPE_ACCRUE_PERCENTAGE_RANGES
        then expect_args (\<lambda>a. case a of
          A_AccruePercentageRanges x \<Rightarrow> Some (ValidatePercentageRanges x) | _ \<Rightarrow> None) args
      else if t = PROPOSAL_TYPE_ACCRUE_PERCENTAGE_TABLE
        then expect_args (\<lambda>a. case a of
          A_AccruePercentageTable x \<Rightarrow> Some (ValidatePercentageTable x) | _ \<Rightarrow> None) args
      else if t \<in> {PROPOSAL_TYPE_REVOKE, PROPOSAL_TYPE_EXPRESS_REVOKE} then expect_args revoke_args args
      else Err (Text ''invalid type''))"

definition proposal_validate :: "sdk \<Rightarrow> bool \<Rightarrow> proposal \<Rightarrow> unit res" where
  "proposal_validate L historical p =
     (if prop_Name p = [] then Err (Text ''invalid name: empty string'')
      else bind_res (parses L (prop_Author p)) (\<lambda>_. args_Validate L historical (prop_Type p) (Args p)))"

definition Proposal_Validate :: "sdk \<Rightarrow> proposal \<Rightarrow> unit res" where
  "Proposal_Validate L p = proposal_validate L False p"

definition Proposal_ValidateHistorical :: "sdk \<Rightarrow> proposal \<Rightarrow> unit res" where
  "Proposal_ValidateHistorical L p = proposal_validate L True p"

section \<open>The government and the history\<close>

definition gov_Contains :: "sdk \<Rightarrow> string list \<Rightarrow> addr \<Rightarrow> bool" where
  "gov_Contains L g a \<longleftrightarrow> AccString L a \<in> set g"

definition gov_Remove :: "sdk \<Rightarrow> addr \<Rightarrow> string list \<Rightarrow> string list" where
  "gov_Remove L a g = remove1 (AccString L a) g"

definition gov_Append :: "sdk \<Rightarrow> addr \<Rightarrow> string list \<Rightarrow> string list" where
  "gov_Append L a g = g @ [AccString L a]"

definition gov_GetMembers :: "sdk \<Rightarrow> string list \<Rightarrow> addr list res" where
  "gov_GetMembers L g = fill_slots L 0 g (replicate (length g) [])"

definition gov_GetMember :: "sdk \<Rightarrow> string list \<Rightarrow> int \<Rightarrow> addr res" where
  "gov_GetMember L g i = bind_res (nth_res g i) (msg_address L)"

record history_record =
  hr_Proposal :: proposal
  hr_Government :: "string list"
  hr_Agreed :: "string list"
  hr_Disagreed :: "string list"
  hr_Started :: int
  hr_Finished :: int

text \<open>
  \<open>r.Government == nil\<close> asks for a missing list; a record read back from the store or from JSON
  has none exactly when it is empty in the first case, and \<open>nil_gov\<close> says so for the second.
\<close>

definition history_Validate :: "sdk \<Rightarrow> bool \<Rightarrow> history_record \<Rightarrow> unit res" where
  "history_Validate L nil_gov r =
     bind_res (Proposal_ValidateHistorical L (hr_Proposal r)) (\<lambda>_.
     if nil_gov then Err (Text ''invalid government: empty list'')
     else
       bind_res (prof_addresses_ok L (hr_Government r)) (\<lambda>_.
       bind_res (prof_addresses_ok L (hr_Agreed r)) (\<lambda>_.
       bind_res (prof_addresses_ok L (hr_Disagreed r)) (\<lambda>_.
       if hr_Started r \<le> 0 then Err (Text ''invalid started: must be positive'')
       else if hr_Finished r \<le> 0 then Err (Text ''invalid finished: must be positive'') else Ok ()))))"

section \<open>Polls\<close>

datatype requirements = CanValidate | MinStatus status

record poll =
  poll_Name :: string
  poll_Author :: string
  Question :: string
  poll_StartTime :: "time option"
  poll_EndTime :: "time option"
  Quorum :: "fraction option"
  Requirements :: "requirements option"

datatype decision = DECISION_UNSPECIFIED | DECISION_POSITIVE | DECISION_NEGATIVE

record poll_history_item =
  ph_Poll :: poll
  ph_Yes :: "64 word"
  ph_No :: "64 word"
  Decision :: decision

definition NewPollValidators :: "sdk \<Rightarrow> addr \<Rightarrow> string \<Rightarrow> string \<Rightarrow> fraction \<Rightarrow> poll" where
  "NewPollValidators L author name txt quorum =
     \<lparr>poll_Name = name, poll_Author = AccString L author, Question = txt, poll_StartTime = None,
      poll_EndTime = None, Quorum = Some quorum, Requirements = Some CanValidate\<rparr>"

definition NewPollStatus :: "sdk \<Rightarrow> addr \<Rightarrow> string \<Rightarrow> string \<Rightarrow> fraction \<Rightarrow> status \<Rightarrow> poll" where
  "NewPollStatus L author name txt quorum status =
     \<lparr>poll_Name = name, poll_Author = AccString L author, Question = txt, poll_StartTime = None,
      poll_EndTime = None, Quorum = Some quorum, Requirements = Some (MinStatus status)\<rparr>"

definition quorum_Validate :: "fraction option \<Rightarrow> unit res" where
  "quorum_Validate q =
     (case q of
        None \<Rightarrow> Ok ()
      | Some x \<Rightarrow> bind_res (IsNegative x) (\<lambda>neg. if neg then Err (Text ''quorum must be nil or in [0; 1]'')
          else bind_res (GT x (FractionInt 1)) (\<lambda>gt.
            if gt then Err (Text ''quorum must be nil or in [0; 1]'') else Ok ())))"

definition Poll_Validate :: "sdk \<Rightarrow> poll \<Rightarrow> unit res" where
  "Poll_Validate L p =
     (if poll_Name p = [] \<and> Question p = [] then Err (Text ''neither name nor question specified'')
      else
        bind_res (parses L (poll_Author p)) (\<lambda>_.
        bind_res (quorum_Validate (Quorum p)) (\<lambda>_.
        bind_res (case Requirements p of Some (MinStatus st) \<Rightarrow> status_Validate st | _ \<Rightarrow> Ok ()) (\<lambda>_.
        (case (poll_StartTime p, poll_EndTime p) of
           (Some a, Some b) \<Rightarrow> if b \<le> a then Err (Text ''start_time after end_time'') else Ok ()
         | _ \<Rightarrow> Ok ())))))"

section \<open>Parameters, genesis, messages\<close>

record voting_params =
  VotingPeriod :: int
  PollPeriod :: int

definition DefaultVotingPeriod :: int where "DefaultVotingPeriod = 24"

definition voting_NewParams :: "int \<Rightarrow> int \<Rightarrow> voting_params" where
  "voting_NewParams votingPeriod pollPeriod = \<lparr>VotingPeriod = votingPeriod, PollPeriod = pollPeriod\<rparr>"

definition voting_DefaultParams :: voting_params where
  "voting_DefaultParams = voting_NewParams DefaultVotingPeriod DefaultVotingPeriod"

definition validateVotingPeriod :: "int \<Rightarrow> unit res" where
  "validateVotingPeriod v =
     (if v < 1 then Err (Text ''validating period must be at least 1 hour'') else Ok ())"

definition voting_params_Validate :: "voting_params \<Rightarrow> unit res" where
  "voting_params_Validate p =
     bind_res (validateVotingPeriod (VotingPeriod p)) (\<lambda>_. validateVotingPeriod (PollPeriod p))"

record voting_genesis =
  vg_Government :: "string list"
  vg_Params :: voting_params
  vg_CurrentProposal :: proposal
  vg_StartBlock :: int
  vg_Agreed :: "string list"
  vg_Disagreed :: "string list"
  vg_History :: "history_record list"
  vg_CurrentPoll :: "poll option"
  vg_PollAnswers :: "(string \<times> bool) list"
  vg_PollHistory :: "poll_history_item list"

definition voting_DefaultGenesisState :: voting_genesis where
  "voting_DefaultGenesisState = \<lparr>vg_Government = [], vg_Params = voting_DefaultParams,
     vg_CurrentProposal = zero_proposal, vg_StartBlock = 0, vg_Agreed = [], vg_Disagreed = [],
     vg_History = [], vg_CurrentPoll = None, vg_PollAnswers = [], vg_PollHistory = []\<rparr>"

definition voting_NewGenesisState :: "voting_params \<Rightarrow> string list \<Rightarrow> proposal option \<Rightarrow> int \<Rightarrow>
    string list \<Rightarrow> string list \<Rightarrow> history_record list \<Rightarrow> voting_genesis" where
  "voting_NewGenesisState p gov current start agreed disagreed history =
     \<lparr>vg_Government = gov, vg_Params = p,
      vg_CurrentProposal = (case current of None \<Rightarrow> zero_proposal | Some c \<Rightarrow> c), vg_StartBlock = start,
      vg_Agreed = agreed, vg_Disagreed = disagreed, vg_History = history, vg_CurrentPoll = None,
      vg_PollAnswers = [], vg_PollHistory = []\<rparr>"

fun histories_ok :: "sdk \<Rightarrow> (history_record \<Rightarrow> bool) \<Rightarrow> history_record list \<Rightarrow> unit res" where
  "histories_ok L nil_gov [] = Ok ()"
| "histories_ok L nil_gov (r # rs) =
     bind_res (history_Validate L (nil_gov r) r) (\<lambda>_. histories_ok L nil_gov rs)"

definition current_proposal_ok :: "sdk \<Rightarrow> voting_genesis \<Rightarrow> unit res" where
  "current_proposal_ok L g =
     (if vg_CurrentProposal g = zero_proposal then
        (if vg_StartBlock g \<noteq> 0 then Err (Text ''start_block must be zero unless current_proposal is set'')
         else if vg_Agreed g \<noteq> [] then Err (Text ''agreed must be empty unless current_proposal is set'')
         else if vg_Disagreed g \<noteq> [] then Err (Text ''disagreed must be empty unless current_proposal is set'')
         else Ok ())
      else
        bind_res (Proposal_Validate L (vg_CurrentProposal g)) (\<lambda>_.
        if vg_StartBlock g \<le> 0 then Err (Text ''start_block must be positive as current_proposal is set'')
        else bind_res (prof_addresses_ok L (vg_Agreed g)) (\<lambda>_. prof_addresses_ok L (vg_Disagreed g))))"

definition voting_ValidateGenesis :: "sdk \<Rightarrow> (history_record \<Rightarrow> bool) \<Rightarrow> voting_genesis \<Rightarrow> unit res" where
  "voting_ValidateGenesis L nil_gov g =
     (if vg_Government g = [] then Err (Text ''invalid government: empty list'')
      else
        bind_res (prof_addresses_ok L (vg_Government g)) (\<lambda>_.
        bind_res (voting_params_Validate (vg_Params g)) (\<lambda>_.
        bind_res (current_proposal_ok L g) (\<lambda>_. histories_ok L nil_gov (vg_History g)))))"

definition MsgPropose_ValidateBasic :: "sdk \<Rightarrow> proposal \<Rightarrow> unit res" where
  "MsgPropose_ValidateBasic L p =
     (if prop_EndTime p \<noteq> None then Err (Text ''end_time should be empty'') else Proposal_Validate L p)"

definition MsgVote_ValidateBasic :: "sdk \<Rightarrow> string \<Rightarrow> unit res" where
  "MsgVote_ValidateBasic L voter = parses L voter"

definition MsgStartPoll_ValidateBasic :: "sdk \<Rightarrow> poll \<Rightarrow> unit res" where
  "MsgStartPoll_ValidateBasic L p =
     (if poll_StartTime p \<noteq> None then Err (Text ''start_time should be empty'')
      else if poll_EndTime p \<noteq> None then Err (Text ''end_time should be empty'')
      else Poll_Validate L p)"

definition MsgAnswerPoll_ValidateBasic :: "sdk \<Rightarrow> string \<Rightarrow> unit res" where
  "MsgAnswerPoll_ValidateBasic L respondent = parses L respondent"

end
