(* ===== verification/Profile_Services.thy ===== *)
theory Profile_Services
  imports Profile
begin

text \<open>
  The rest of \<open>x/profile\<close>: storage, VPN and IM space bought and given up, the monthly hooks of
  the scheduler, genesis, messages and queries.
\<close>

section \<open>Purchases\<close>

text \<open>The price is paid to the company, less the transaction fee.\<close>

definition pay_service :: "'s prof_keeper \<Rightarrow> addr \<Rightarrow> int \<Rightarrow> 's prof_ctx_scheme \<Rightarrow> coins res \<times> 's prof_ctx_scheme" where
  "pay_service k addr fee s =
     and_then (lift_res (Uartrs (pk_sdk k) fee) s) (\<lambda>coins s.
     and_then (PayTxFee (pk_bank k) addr coins s) (\<lambda>txFee s.
     and_then (lift_res (SubC (pk_sdk k) coins txFee) s) (\<lambda>coins s.
     and_then (lift_res (GetForSubscription (pk_sdk k) (ForSubscription (ref_GetParams s))) s) (\<lambda>company s.
     and_then (SendCoins (pk_bank k) addr company coins s) (\<lambda>_ s. (Ok coins, s))))))"

definition coins_total :: "'s prof_keeper \<Rightarrow> coins \<Rightarrow> int res" where
  "coins_total k coins = Uint64 (AmountOf (pk_sdk k) coins ConfigMainDenom)"

definition times_word :: "fraction \<Rightarrow> int \<Rightarrow> int \<Rightarrow> fraction res" where
  "times_word rate gb price = MulInt64 rate (wrap64 (gb * price))"

definition purchase_event :: "'s prof_keeper \<Rightarrow> string \<Rightarrow> addr \<Rightarrow> int list \<Rightarrow> event" where
  "purchase_event k name addr ns = (name, AStr (AccString (pk_sdk k) addr) # map AInt ns)"

definition BuyStorage :: "'s prof_keeper \<Rightarrow> addr \<Rightarrow> int \<Rightarrow> 's prof_op" where
  "BuyStorage k addr extraGb s =
     (case GetProfile addr s of
        None \<Rightarrow> (Panic nil_deref, s)
      | Some prof \<Rightarrow>
          if \<not> prof_IsActive prof s then (Err (Text ''account is not active''), s)
          else
            let p = prof_GetParams s; base = gigabytes (BaseStorageGb p);
                prof = (if StorageLimit prof < base then prof\<lparr>StorageLimit := base\<rparr> else prof)
            in and_then (lift_res (bind_res (monthPart (the (ActiveUntil prof)) s) (\<lambda>part.
                 bind_res (times_word (TokenRate p) extraGb (StorageGbPrice p)) (\<lambda>x.
                 bind_res (Mul x part) Frac_Int64))) s) (\<lambda>fee s.
               if fee \<le> 0 then (Panic (Text ''free storage''), s)
               else
                 and_then (pay_service k addr fee s) (\<lambda>coins s.
                 let prof = prof\<lparr>StorageLimit := StorageLimit prof + gigabytes extraGb\<rparr>
                 in and_then (SetProfile k addr prof s) (\<lambda>_ s.
                    and_then (lift_res (coins_total k coins) s) (\<lambda>n s.
                    (Ok (), emit (purchase_event k ''buy_storage'' addr
                       [uint (StorageLimit prof), uint (StorageCurrent prof), n]) s))))))"

definition BuyImStorage :: "'s prof_keeper \<Rightarrow> addr \<Rightarrow> int \<Rightarrow> 's prof_op" where
  "BuyImStorage k addr extraGb s =
     (case GetProfile addr s of
        None \<Rightarrow> (Panic nil_deref, s)
      | Some prof \<Rightarrow>
          let timerSet = IsExtraImStorageActive prof s; p = prof_GetParams s
          in and_then (lift_res (bind_res
                 (if timerSet then monthPart (the (ExtraImUntil prof)) s else Ok (FractionInt 1)) (\<lambda>part.
               bind_res (times_word (TokenRate p) extraGb (StorageGbPrice p)) (\<lambda>x.
               bind_res (Mul x part) Frac_Int64))) s) (\<lambda>fee s.
             if fee \<le> 0 then
               (Panic (if ExtraImUntil prof = None then nil_deref else Text ''free IM extra''), s)
             else
               and_then (pay_service k addr fee s) (\<lambda>coins s.
               and_then
                 (if timerSet then (Ok (prof\<lparr>ImLimitExtra := ImLimitExtra prof + word_of_int extraGb\<rparr>), s)
                  else
                    let until = block_time s + OneMonth s
                    in and_then (scheduleRenewIm addr until s) (\<lambda>_ s.
                       (Ok (prof\<lparr>ImLimitExtra := word_of_int extraGb, ExtraImUntil := Some until\<rparr>), s))) (\<lambda>prof s.
               and_then (SetProfile k addr prof s) (\<lambda>_ s.
               and_then (lift_res (coins_total k coins) s) (\<lambda>n s.
               (Ok (), emit (purchase_event k ''buy_extra_im_storage'' addr
                  [uint (ImLimitTotal prof s), n, the (ExtraImUntil prof)]) s)))))))"

definition BuyVpn :: "'s prof_keeper \<Rightarrow> addr \<Rightarrow> int \<Rightarrow> 's prof_op" where
  "BuyVpn k addr vpnGb s =
     (case GetProfile addr s of
        None \<Rightarrow> (Panic nil_deref, s)
      | Some prof \<Rightarrow>
          if \<not> prof_IsActive prof s then (Err (Text ''account is not active''), s)
          else
            let p = prof_GetParams s
            in and_then (lift_res (bind_res (times_word (TokenRate p) vpnGb (VpnGbPrice p)) Frac_Int64) s) (\<lambda>fee s.
               if fee < 0 then (Panic (Text ''free VPN''), s)
               else
                 and_then (pay_service k addr fee s) (\<lambda>coins s.
                 let prof = prof\<lparr>VpnLimit := VpnLimit prof + gigabytes vpnGb\<rparr>
                 in and_then (SetProfile k addr prof s) (\<lambda>_ s.
                    and_then (lift_res (coins_total k coins) s) (\<lambda>n s.
                    (Ok (), emit (purchase_event k ''buy_vpn'' addr
                       [uint (VpnLimit prof), uint (VpnCurrent prof), n]) s))))))"

definition GiveStorageUp :: "'s prof_keeper \<Rightarrow> addr \<Rightarrow> int \<Rightarrow> 's prof_op" where
  "GiveStorageUp k addr amountGb s =
     (case GetProfile addr s of
        None \<Rightarrow> (Panic nil_deref, s)
      | Some prof \<Rightarrow>
          let base = gigabytes (BaseStorageGb (prof_GetParams s));
              newLimit = (if gigabytes amountGb < base then base else gigabytes amountGb)
          in if newLimit < StorageCurrent prof then
               (Err (Text ''resulting limit less than current consumption''), s)
             else if newLimit \<ge> StorageLimit prof then
               (Err (Text ''new limit greater than or equal current one''), s)
             else
               and_then (SetProfile k addr (prof\<lparr>StorageLimit := newLimit\<rparr>) s) (\<lambda>_ s.
               (Ok (), emit (purchase_event k ''give_up_storage'' addr
                  [uint newLimit, uint (StorageCurrent prof)]) s)))"

definition GiveImStorageUp :: "'s prof_keeper \<Rightarrow> addr \<Rightarrow> int \<Rightarrow> 's prof_op" where
  "GiveImStorageUp k addr extraGb s =
     (case GetProfile addr s of
        None \<Rightarrow> (Panic nil_deref, s)
      | Some prof \<Rightarrow>
          let current = (if IsExtraImStorageActive prof s then ImLimitExtra prof else 0)
          in if word_of_int extraGb \<ge> current then
               (Err (Text ''new value greater than or equal previous one''), s)
             else
               and_then
                 (if extraGb = 0 then
                    and_then (Delete (the (ExtraImUntil prof)) RefreshImHookName addr s) (\<lambda>_ s.
                    (Ok (prof\<lparr>ImLimitExtra := 0, ExtraImUntil := None\<rparr>), s))
                  else (Ok (prof\<lparr>ImLimitExtra := word_of_int extraGb\<rparr>), s)) (\<lambda>prof s.
               and_then (SetProfile k addr prof s) (\<lambda>_ s.
               (Ok (), emit (purchase_event k ''give_up_im_storage'' addr [uint (ImLimitTotal prof s)]) s))))"

text \<open>\<open>prolongImExtra\<close> changes the profile it is given only when it succeeds.\<close>

definition prolongImExtra ::
    "'s prof_keeper \<Rightarrow> addr \<Rightarrow> profile \<Rightarrow> 's prof_ctx_scheme \<Rightarrow> profile res \<times> 's prof_ctx_scheme" where
  "prolongImExtra k addr prof s =
     (case ExtraImUntil prof of
        None \<Rightarrow> (Err (Text ''nothing to prolong''), s)
      | Some until \<Rightarrow>
          if ImLimitExtra prof = 0 then (Err (Text ''nothing to prolong''), s)
          else
            let p = prof_GetParams s
            in and_then (lift_res (bind_res (times_word (TokenRate p) (sint (ImLimitExtra prof)) (StorageGbPrice p))
                 Frac_Int64) s) (\<lambda>fee s.
               if fee \<le> 0 then (Panic (Text ''free IM extra''), s)
               else
                 and_then (pay_service k addr fee s) (\<lambda>coins s.
                 let t = until + OneMonth s
                 in and_then (Delete until RefreshImHookName addr s) (\<lambda>_ s.
                    and_then (scheduleRenewIm addr t s) (\<lambda>_ s.
                    let prof = prof\<lparr>ExtraImUntil := Some t\<rparr>
                    in and_then (lift_res (coins_total k coins) s) (\<lambda>n s.
                       (Ok prof, emit (purchase_event k ''buy_extra_im_storage'' addr
                          [uint (ImLimitTotal prof s), n, t]) s)))))))"

definition ProlongImExtra :: "'s prof_keeper \<Rightarrow> addr \<Rightarrow> 's prof_op" where
  "ProlongImExtra k addr s =
     (case GetProfile addr s of
        None \<Rightarrow> (Panic nil_deref, s)
      | Some prof \<Rightarrow> and_then (prolongImExtra k addr prof s) (\<lambda>prof s. must (SetProfile k addr prof s)))"

section \<open>The monthly hooks\<close>

text \<open>A deferred \<open>MustSetActive\<close> runs when the routine returns.\<close>

definition monthlyRoutine :: "'s prof_keeper \<Rightarrow> addr \<Rightarrow> 's prof_op" where
  "monthlyRoutine k addr s =
     (case GetProfile addr s of
        None \<Rightarrow> (Panic nil_deref, s)
      | Some prof \<Rightarrow>
          if prof_IsActive prof s then
            (case resetLimits k addr (prof_GetParams s) prof s of (prof, s) \<Rightarrow> SetProfile k addr prof s)
          else if AutoPay prof then
            (case PayTariff k addr 0 True s of
               (Err e, s) \<Rightarrow> MustSetActive (pk_ref k) (AccString (pk_sdk k) addr) False
                 (emit (EventActivityChanged k addr False)
                   (emit (''auto_pay_failed'', [AStr (AccString (pk_sdk k) addr), AStr (ErrorText (pk_text k) e)]) s))
             | r \<Rightarrow> r)
          else
            MustSetActive (pk_ref k) (AccString (pk_sdk k) addr) False (emit (EventActivityChanged k addr False) s))"

definition monthlyImRoutine :: "'s prof_keeper \<Rightarrow> addr \<Rightarrow> 's prof_op" where
  "monthlyImRoutine k addr s =
     (case GetProfile addr s of
        None \<Rightarrow> (Panic nil_deref, s)
      | Some prof \<Rightarrow>
          and_then
            (case (if AutoPayImExtra prof then prolongImExtra k addr prof s
                   else (Err (Text ''disabled by user''), s)) of
               (Err e, s) \<Rightarrow> (Ok (prof\<lparr>ImLimitExtra := 0, ExtraImUntil := None, AutoPayImExtra := False\<rparr>),
                 emit (''im_auto_pay_failed'', [AStr (AccString (pk_sdk k) addr), AStr (ErrorText (pk_text k) e)]) s)
             | r \<Rightarrow> r) (SetProfile k addr))"

definition HandleRenewHook :: "'s prof_keeper \<Rightarrow> 's prof_ctx_scheme hook" where
  "HandleRenewHook k d t s = must (monthlyRoutine k d s)"

definition HandleRenewImHook :: "'s prof_keeper \<Rightarrow> 's prof_ctx_scheme hook" where
  "HandleRenewImHook k d t s = must (monthlyImRoutine k d s)"

section \<open>Genesis\<close>

definition ExportProfileRecords :: "'s prof_keeper \<Rightarrow> 's prof_ctx_scheme \<Rightarrow> prof_genesis_item list" where
  "ExportProfileRecords k s = map (\<lambda>(acc, p).
     \<lparr>gp_Address = AccString (pk_sdk k) acc, gp_Profile = p\<lparr>CardNumber := 0\<rparr>\<rparr>) (store_items (prof_store s))"

text \<open>The account is asked for its number before it is looked whether there is one.\<close>

definition import_profile :: "'s prof_keeper \<Rightarrow> prof_genesis_item \<Rightarrow> 's prof_op" where
  "import_profile k item s =
     and_then (lift_res (msg_address (pk_sdk k) (gp_Address item)) s) (\<lambda>addr s.
     if addr \<notin> accounts s then (Panic nil_deref, s)
     else
       let p = (gp_Profile item)\<lparr>CardNumber := CardNumberByAccountNumber (pk_number k addr) s\<rparr>;
           nickname = TrimSpace (pk_text k) (Nickname p);
           s = (if nickname \<noteq> [] then setProfileAccountByNickname k nickname addr s else s);
           s = setProfileAccountByCardNumber (CardNumber p) addr s;
           s = write_profile addr p s
       in and_then (if prof_IsActive p s
            then MustSetActiveWithoutStatusUpdate (pk_ref k) (AccString (pk_sdk k) addr) True s
            else (Ok (), s)) (\<lambda>_ s.
          must (SetProfile k addr p s)))"

definition ImportProfileRecords :: "'s prof_keeper \<Rightarrow> prof_genesis_item list \<Rightarrow> 's prof_op" where
  "ImportProfileRecords k data s =
     and_then (for_each data (import_profile k) s) (\<lambda>_ s.
     Iterate (pk_ref k) (\<lambda>acc r. (r, False, True)) s)"

definition prof_InitGenesis :: "'s prof_keeper \<Rightarrow> prof_genesis \<Rightarrow> 's prof_op" where
  "prof_InitGenesis k data s =
     and_then (prof_SetParams (pg_Params data) (prof_MarkIndexStores s)) (\<lambda>_ s.
     ImportProfileRecords k (pg_Profiles data) s)"

definition prof_ExportGenesis :: "'s prof_keeper \<Rightarrow> 's prof_ctx_scheme \<Rightarrow> prof_genesis" where
  "prof_ExportGenesis k s = \<lparr>pg_Params = prof_GetParams s, pg_Profiles = ExportProfileRecords k s\<rparr>"

section \<open>Messages\<close>

definition tagged :: "string \<Rightarrow> unit res \<times> 's prof_ctx_scheme \<Rightarrow> unit res \<times> 's prof_ctx_scheme" where
  "tagged action r = and_then r (\<lambda>_ s. (Ok (), TagTx ''profile'' (''artery.profile.v1beta1.'' @ action) s))"

definition creation_fee :: "'s prof_keeper \<Rightarrow> string \<Rightarrow> 's prof_op" where
  "creation_fee k creator s =
     (let p = prof_GetParams s
      in if RenamePrice p > 0 \<and> creator \<notin> set (Creators p) then
           and_then (lift_res (msg_address (pk_sdk k) creator) s) (\<lambda>payer s.
           and_then (lift_res (Uartrs (pk_sdk k) (RenamePrice p)) s) (\<lambda>fee s.
           SendCoinsFromAccountToModule (pk_bank k) payer FeeCollectorName fee s))
         else (Ok (), s))"

definition msg_CreateAccount :: "'s prof_keeper \<Rightarrow> MsgCreateAccount \<Rightarrow> 's prof_op" where
  "msg_CreateAccount k msg s =
     and_then (lift_res (msg_address (pk_sdk k) (ca_Address msg)) s) (\<lambda>addr s.
     if addr \<in> accounts s then (Err ErrAccountAlreadyExists, s)
     else
       and_then (creation_fee k (ca_Creator msg) s) (\<lambda>_ s.
       and_then (lift_res (msg_address (pk_sdk k) (ca_Referrer msg)) s) (\<lambda>referrer s.
       tagged ''MsgCreateAccount''
         (case ca_Profile msg of
            Some p \<Rightarrow> CreateAccountWithProfile k addr referrer p s
          | None \<Rightarrow> CreateAccount k addr referrer s))))"

definition msg_UpdateProfile :: "'s prof_keeper \<Rightarrow> MsgUpdateProfile \<Rightarrow> 's prof_op" where
  "msg_UpdateProfile k msg s =
     and_then (lift_res (msg_address (pk_sdk k) (up_Address msg)) s) (\<lambda>addr s.
     (case GetProfile addr s of
        None \<Rightarrow> (Panic nil_deref, s)
      | Some p \<Rightarrow> tagged ''MsgUpdateProfile'' (SetProfile k addr (fold apply_update (Updates msg) p) s)))"

definition msg_SetStorageCurrent :: "'s prof_keeper \<Rightarrow> string \<Rightarrow> string \<Rightarrow> 64 word \<Rightarrow> 's prof_op" where
  "msg_SetStorageCurrent k sender address v s =
     (if sender \<notin> set (StorageSigners (prof_GetParams s)) then (Err prof_ErrUnauthorized, s)
      else and_then (lift_res (msg_address (pk_sdk k) address) s) (\<lambda>addr s.
        tagged ''MsgSetStorageCurrent'' (SetStorageCurrent addr v s)))"

definition msg_SetVpnCurrent :: "'s prof_keeper \<Rightarrow> string \<Rightarrow> string \<Rightarrow> 64 word \<Rightarrow> 's prof_op" where
  "msg_SetVpnCurrent k sender address v s =
     (if sender \<notin> set (VpnSigners (prof_GetParams s)) then (Err prof_ErrUnauthorized, s)
      else and_then (lift_res (msg_address (pk_sdk k) address) s) (\<lambda>addr s.
        tagged ''MsgSetVpnCurrent'' (SetVpnCurrent addr v s)))"

definition msg_PayTariff :: "'s prof_keeper \<Rightarrow> string \<Rightarrow> int \<Rightarrow> 's prof_op" where
  "msg_PayTariff k address storageAmount s =
     and_then (lift_res (msg_address (pk_sdk k) address) s) (\<lambda>addr s.
     tagged ''MsgPayTariff'' (PayTariff k addr storageAmount False s))"

definition msg_BuyStorage :: "'s prof_keeper \<Rightarrow> string \<Rightarrow> int \<Rightarrow> 's prof_op" where
  "msg_BuyStorage k address extra s =
     and_then (lift_res (msg_address (pk_sdk k) address) s) (\<lambda>addr s.
     tagged ''MsgBuyStorage'' (BuyStorage k addr extra s))"

definition msg_GiveStorageUp :: "'s prof_keeper \<Rightarrow> string \<Rightarrow> int \<Rightarrow> 's prof_op" where
  "msg_GiveStorageUp k address amount s =
     and_then (lift_res (msg_address (pk_sdk k) address) s) (\<lambda>addr s.
     tagged ''MsgGiveStorageUp'' (GiveStorageUp k addr amount s))"

definition msg_BuyVpn :: "'s prof_keeper \<Rightarrow> string \<Rightarrow> int \<Rightarrow> 's prof_op" where
  "msg_BuyVpn k address extra s =
     and_then (lift_res (msg_address (pk_sdk k) address) s) (\<lambda>addr s.
     tagged ''MsgBuyVpn'' (BuyVpn k addr extra s))"

definition msg_SetRate :: "string \<Rightarrow> fraction \<Rightarrow> 's prof_op" where
  "msg_SetRate sender v s =
     (let p = prof_GetParams s
      in if sender \<notin> set (TokenRateSigners p) then (Err prof_ErrUnauthorized, s)
         else tagged ''MsgSetRate'' (prof_SetParams (p\<lparr>TokenRate := v\<rparr>) s))"

definition msg_BuyImExtraStorage :: "'s prof_keeper \<Rightarrow> string \<Rightarrow> int \<Rightarrow> 's prof_op" where
  "msg_BuyImExtraStorage k address extra s =
     and_then (lift_res (msg_address (pk_sdk k) address) s) (\<lambda>addr s.
     tagged ''MsgBuyImExtraStorage'' (BuyImStorage k addr extra s))"

definition msg_GiveUpImExtra :: "'s prof_keeper \<Rightarrow> string \<Rightarrow> int \<Rightarrow> 's prof_op" where
  "msg_GiveUpImExtra k address amount s =
     and_then (lift_res (msg_address (pk_sdk k) address) s) (\<lambda>addr s.
     tagged ''MsgGiveUpImExtra'' (GiveImStorageUp k addr amount s))"

definition msg_ProlongImExtra :: "'s prof_keeper \<Rightarrow> string \<Rightarrow> 's prof_op" where
  "msg_ProlongImExtra k address s =
     and_then (lift_res (msg_address (pk_sdk k) address) s) (\<lambda>addr s.
     tagged ''MsgProlongImExtra'' (ProlongImExtra k addr s))"

section \<open>Queries\<close>

definition prof_query_GetByAddress :: "'s prof_keeper \<Rightarrow> string \<Rightarrow> 's prof_ctx_scheme \<Rightarrow> profile res" where
  "prof_query_GetByAddress k address s = bind_res (msg_address (pk_sdk k) address) (\<lambda>addr.
     (case GetProfile addr s of None \<Rightarrow> Err prof_ErrNotFound | Some p \<Rightarrow> Ok p))"

definition found_profile :: "'s prof_keeper \<Rightarrow> addr option \<Rightarrow> 's prof_ctx_scheme \<Rightarrow> (string \<times> profile) res" where
  "found_profile k found s =
     (case found of
        None \<Rightarrow> Err prof_ErrNotFound
      | Some addr \<Rightarrow>
          if addr = [] then Err prof_ErrNotFound
          else (case GetProfile addr s of None \<Rightarrow> Panic nil_deref | Some p \<Rightarrow> Ok (AccString (pk_sdk k) addr, p)))"

definition prof_query_GetByNickname :: "'s prof_keeper \<Rightarrow> string \<Rightarrow> 's prof_ctx_scheme \<Rightarrow> (string \<times> profile) res" where
  "prof_query_GetByNickname k nickname s = found_profile k (GetProfileAccountByNickname k nickname s) s"

definition prof_query_GetByCardNumber :: "'s prof_keeper \<Rightarrow> 64 word \<Rightarrow> 's prof_ctx_scheme \<Rightarrow> (string \<times> profile) res" where
  "prof_query_GetByCardNumber k cardNumber s = found_profile k (GetProfileAccountByCardNumber cardNumber s) s"

definition prof_query_Params :: "'s prof_ctx_scheme \<Rightarrow> prof_params res" where
  "prof_query_Params s = Ok (prof_GetParams s)"

end
