(* ===== verification/Voting.thy ===== *)
theory Voting
  imports Voting_Types Noding_Updates Profile_Services
begin

text \<open>
  The keeper of \<open>x/voting\<close>: proposals of the government, the votes on them and what an agreed
  proposal changes in the other modules, and polls of all accounts. The state extends that of
  \<open>x/delegating\<close>, so that a proposal acts on the stores of every module.

  \<open>x/upgrade\<close> belongs to the SDK: \<open>vk_ScheduleUpgrade\<close> and \<open>vk_ClearUpgradePlan\<close> stand for its two
  operations, \<open>vk_paginate page limit\<close> for the paginated iterator of the SDK's store.
\<close>

section \<open>State\<close>

record voting_ctx = deleg_ctx +
  vt_params_store :: "voting_params option"
  vt_government :: "string list"
  vt_current :: "proposal option"
  vt_agreed :: "string list"
  vt_disagreed :: "string list"
  vt_start_block :: "int option"
  vt_history :: "64 word \<rightharpoonup> history_record"
  vt_poll :: "poll option"
  vt_answers :: "string \<rightharpoonup> bool"
  vt_yes :: "64 word option"
  vt_no :: "64 word option"
  vt_poll_history :: "64 word \<rightharpoonup> poll_history_item"

record upgrade_plan =
  plan_Name :: string
  plan_Info :: string
  plan_Height :: int

record 's voting_keeper =
  vk_bank :: "'s voting_ctx_ext deleg_ctx_ext earn_ctx_ext prof_ctx_ext nod_ctx_ext ref_ctx_ext bank_keeper"
  vk_noding :: "'s voting_ctx_ext deleg_ctx_ext earn_ctx_ext prof_ctx_ext nod_keeper"
  vk_profile :: "'s voting_ctx_ext deleg_ctx_ext earn_ctx_ext prof_keeper"
  vk_ScheduleUpgrade :: "upgrade_plan \<Rightarrow> 's voting_ctx_scheme \<Rightarrow> unit res \<times> 's voting_ctx_scheme"
  vk_ClearUpgradePlan :: "'s voting_ctx_scheme \<Rightarrow> 's voting_ctx_scheme"
  vk_paginate :: "int \<Rightarrow> int \<Rightarrow> poll_history_item list \<Rightarrow> poll_history_item list"

abbreviation vk_sdk :: "'s voting_keeper \<Rightarrow> sdk" where "vk_sdk k \<equiv> bk_sdk (vk_bank k)"

type_synonym 's voting_op = "'s voting_ctx_scheme \<Rightarrow> unit res \<times> 's voting_ctx_scheme"

definition VoteHookName :: string where "VoteHookName = ''voting/complete''"
definition PollHookName :: string where "PollHookName = ''voting/poll''"

definition ErrSignerNotAllowed :: error where "ErrSignerNotAllowed = Registered ''voting'' 1"
definition ErrOtherActive :: error where "ErrOtherActive = Registered ''voting'' 2"
definition ErrAlreadyVoted :: error where "ErrAlreadyVoted = Registered ''voting'' 3"
definition ErrNoActiveProposals :: error where "ErrNoActiveProposals = Registered ''voting'' 4"
definition ErrNoActivePoll :: error where "ErrNoActivePoll = Registered ''voting'' 8"
definition ErrRespondentNotAllowed :: error where "ErrRespondentNotAllowed = Registered ''voting'' 9"

definition voting_GetParams :: "'s voting_ctx_scheme \<Rightarrow> voting_params" where
  "voting_GetParams s = (case vt_params_store s of None \<Rightarrow> \<lparr>VotingPeriod = 0, PollPeriod = 0\<rparr> | Some p \<Rightarrow> p)"

definition voting_SetParams :: "voting_params \<Rightarrow> 's voting_ctx_scheme \<Rightarrow> 's voting_ctx_scheme" where
  "voting_SetParams p s = s\<lparr>vt_params_store := Some p\<rparr>"

definition hours :: "int \<Rightarrow> duration" where "hours n = wrap64 (n * Hour)"

section \<open>The government\<close>

definition GetGovernment :: "'s voting_ctx_scheme \<Rightarrow> string list" where
  "GetGovernment s = vt_government s"

definition SetGovernment :: "string list \<Rightarrow> 's voting_ctx_scheme \<Rightarrow> 's voting_ctx_scheme" where
  "SetGovernment g s = s\<lparr>vt_government := g\<rparr>"

definition AddGovernor :: "'s voting_keeper \<Rightarrow> addr \<Rightarrow> 's voting_ctx_scheme \<Rightarrow> 's voting_ctx_scheme" where
  "AddGovernor k a s = SetGovernment (gov_Append (vk_sdk k) a (GetGovernment s)) s"

definition RemoveGovernor :: "'s voting_keeper \<Rightarrow> addr \<Rightarrow> 's voting_ctx_scheme \<Rightarrow> 's voting_ctx_scheme" where
  "RemoveGovernor k a s = SetGovernment (gov_Remove (vk_sdk k) a (GetGovernment s)) s"

section \<open>Proposals\<close>

definition GetCurrentProposal :: "'s voting_ctx_scheme \<Rightarrow> proposal option" where
  "GetCurrentProposal s = vt_current s"

definition SetCurrentProposal :: "proposal \<Rightarrow> 's voting_ctx_scheme \<Rightarrow> 's voting_ctx_scheme" where
  "SetCurrentProposal p s = s\<lparr>vt_current := Some p\<rparr>"

definition GetAgreed :: "'s voting_ctx_scheme \<Rightarrow> string list" where "GetAgreed s = vt_agreed s"

definition SetAgreed :: "string list \<Rightarrow> 's voting_ctx_scheme \<Rightarrow> 's voting_ctx_scheme" where
  "SetAgreed g s = s\<lparr>vt_agreed := g\<rparr>"

definition GetDisagreed :: "'s voting_ctx_scheme \<Rightarrow> string list" where "GetDisagreed s = vt_disagreed s"

definition SetDisagreed :: "string list \<Rightarrow> 's voting_ctx_scheme \<Rightarrow> 's voting_ctx_scheme" where
  "SetDisagreed g s = s\<lparr>vt_disagreed := g\<rparr>"

text \<open>A vote is complete when all have voted, agreed when two thirds of all are for it.\<close>

definition voting_Validate :: "string list \<Rightarrow> string list \<Rightarrow> string list \<Rightarrow> bool \<times> bool" where
  "voting_Validate gov aGov dGov =
     (if length gov = length aGov + length dGov then (True, length aGov * 3 \<ge> length gov * 2)
      else (False, False))"

definition SetStartBlock :: "'s voting_ctx_scheme \<Rightarrow> 's voting_ctx_scheme" where
  "SetStartBlock s = s\<lparr>vt_start_block := Some (block_height s)\<rparr>"

definition GetStartBlock :: "'s voting_ctx_scheme \<Rightarrow> int res" where
  "GetStartBlock s = (case vt_start_block s of None \<Rightarrow> Panic index_out_of_range | Some h \<Rightarrow> Ok h)"

definition AddProposalHistoryRecord :: "history_record \<Rightarrow> 's voting_ctx_scheme \<Rightarrow> 's voting_ctx_scheme" where
  "AddProposalHistoryRecord r s = s\<lparr>vt_history := (vt_history s)(word_of_int (hr_Finished r) \<mapsto> r)\<rparr>"

definition SaveProposalToHistory :: "'s voting_op" where
  "SaveProposalToHistory s =
     (case GetCurrentProposal s of
        None \<Rightarrow> (Panic nil_deref, s)
      | Some p \<Rightarrow>
          and_then (lift_res (GetStartBlock s) s) (\<lambda>started s.
          (Ok (), AddProposalHistoryRecord
             \<lparr>hr_Proposal = p, hr_Government = GetGovernment s, hr_Agreed = GetAgreed s,
              hr_Disagreed = GetDisagreed s, hr_Started = started, hr_Finished = block_height s\<rparr> s)))"

section \<open>What an agreed proposal does\<close>

text \<open>The getters of the arguments give a nil pointer when the arguments are of another type.\<close>

definition arg_price :: "proposal \<Rightarrow> int res" where
  "arg_price p = (case Args p of Some (A_Price x) \<Rightarrow> Ok x | _ \<Rightarrow> Panic nil_deref)"

definition arg_address :: "sdk \<Rightarrow> proposal \<Rightarrow> addr res" where
  "arg_address L p = (case Args p of Some (A_Address x) \<Rightarrow> msg_address L x | _ \<Rightarrow> Panic nil_deref)"

definition arg_min_amount :: "proposal \<Rightarrow> int res" where
  "arg_min_amount p = (case Args p of Some (A_MinAmount x) \<Rightarrow> Ok x | _ \<Rightarrow> Panic nil_deref)"

definition arg_count :: "proposal \<Rightarrow> int res" where
  "arg_count p = (case Args p of Some (A_Count x) \<Rightarrow> Ok x | _ \<Rightarrow> Panic nil_deref)"

definition arg_min_criteria :: "proposal \<Rightarrow> min_criteria res" where
  "arg_min_criteria p = (case Args p of Some (A_MinCriteria (Some x)) \<Rightarrow> Ok x | _ \<Rightarrow> Panic nil_deref)"

definition arg_voting_power :: "proposal \<Rightarrow> distribution res" where
  "arg_voting_power p = (case Args p of Some (A_VotingPower x) \<Rightarrow> Ok x | _ \<Rightarrow> Panic nil_deref)"

definition arg_portion :: "proposal \<Rightarrow> fraction res" where
  "arg_portion p = (case Args p of Some (A_Portion x) \<Rightarrow> Ok x | _ \<Rightarrow> Panic nil_deref)"

definition arg_portions :: "proposal \<Rightarrow> (fraction \<times> fraction) res" where
  "arg_portions p =
     (case Args p of
        Some (A_Portions xs) \<Rightarrow> bind_res (nth_res xs 0) (\<lambda>a. bind_res (nth_res xs 1) (\<lambda>b. Ok (a, b)))
      | _ \<Rightarrow> Panic nil_deref)"

definition arg_table :: "proposal \<Rightarrow> percentage_list_range list res" where
  "arg_table p = (case Args p of Some (A_AccruePercentageTable x) \<Rightarrow> Ok x | _ \<Rightarrow> Panic nil_deref)"

definition arg_revoke :: "proposal \<Rightarrow> revoke_params res" where
  "arg_revoke p = (case Args p of Some (A_Revoke (Some x)) \<Rightarrow> Ok x | _ \<Rightarrow> Panic nil_deref)"

definition arg_upgrade :: "proposal \<Rightarrow> upgrade_plan res" where
  "arg_upgrade p =
     (case Args p of
        Some (A_SoftwareUpgrade u) \<Rightarrow>
          Ok \<lparr>plan_Name = ua_Name u, plan_Info = ua_Info u, plan_Height = ua_Height u\<rparr>
      | _ \<Rightarrow> Panic nil_deref)"

text \<open>A pure change of the state with the argument of the proposal, and a change of parameters.\<close>

definition with_arg :: "'a res \<Rightarrow> ('a \<Rightarrow> 's \<Rightarrow> 's) \<Rightarrow> 's \<Rightarrow> unit res \<times> 's" where
  "with_arg x f s = and_then (lift_res x s) (\<lambda>v s. (Ok (), f v s))"

definition set_bank_params :: "'s voting_keeper \<Rightarrow> bank_params \<Rightarrow> 's voting_op" where
  "set_bank_params k p s =
     and_then (lift_res (bank_params_Validate (vk_sdk k) p) s) (\<lambda>_ s. (Ok (), bank_SetParams p s))"

definition set_deleg_params :: "deleg_params \<Rightarrow> 's voting_op" where
  "set_deleg_params p s =
     and_then (lift_res (deleg_params_Validate p) s) (\<lambda>_ s. (Ok (), deleg_SetParams p s))"

definition deprecated :: error where "deprecated = Text ''parameter is deprecated''"

definition apply_proposal :: "'s voting_keeper \<Rightarrow> proposal \<Rightarrow> 's voting_op" where
  "apply_proposal k p s =
     (let address = arg_address (vk_sdk k) p;
          on_address = (\<lambda>f. and_then (lift_res address s) f);
          prof = prof_GetParams s; bp = bank_GetParams s; dp = deleg_GetParams s; np = nod_GetParams s
      in case prop_Type p of
        PROPOSAL_TYPE_ENTER_PRICE \<Rightarrow> and_then (lift_res (arg_price p) s) (\<lambda>x.
          prof_SetParams (prof\<lparr>SubscriptionPrice := x\<rparr>))
      | PROPOSAL_TYPE_GOVERNMENT_ADD \<Rightarrow> with_arg address (AddGovernor k) s
      | PROPOSAL_TYPE_GOVERNMENT_REMOVE \<Rightarrow> with_arg address (RemoveGovernor k) s
      | PROPOSAL_TYPE_PRODUCT_VPN_BASE_PRICE \<Rightarrow> and_then (lift_res (arg_price p) s) (\<lambda>x.
          prof_SetParams (prof\<lparr>VpnGbPrice := x\<rparr>))
      | PROPOSAL_TYPE_PRODUCT_STORAGE_BASE_PRICE \<Rightarrow> and_then (lift_res (arg_price p) s) (\<lambda>x.
          prof_SetParams (prof\<lparr>StorageGbPrice := x\<rparr>))
      | PROPOSAL_TYPE_FREE_CREATOR_ADD \<Rightarrow> on_address (AddFreeCreator (vk_profile k))
      | PROPOSAL_TYPE_FREE_CREATOR_REMOVE \<Rightarrow> on_address (RemoveFreeCreator (vk_profile k))
      | PROPOSAL_TYPE_SOFTWARE_UPGRADE \<Rightarrow> and_then (lift_res (arg_upgrade p) s) (vk_ScheduleUpgrade k)
      | PROPOSAL_TYPE_CANCEL_SOFTWARE_UPGRADE \<Rightarrow> (Ok (), vk_ClearUpgradePlan k s)
      | PROPOSAL_TYPE_STAFF_VALIDATOR_ADD \<Rightarrow> on_address AddToStaff
      | PROPOSAL_TYPE_STAFF_VALIDATOR_REMOVE \<Rightarrow> on_address (RemoveFromStaff (vk_noding k))
      | PROPOSAL_TYPE_EARNING_SIGNER_ADD \<Rightarrow> with_arg address (AddSigner (vk_sdk k)) s
      | PROPOSAL_TYPE_EARNING_SIGNER_REMOVE \<Rightarrow> with_arg address (RemoveSigner (vk_sdk k)) s
      | PROPOSAL_TYPE_TOKEN_RATE_SIGNER_ADD \<Rightarrow> on_address (AddTokenRateSigner (vk_profile k))
      | PROPOSAL_TYPE_TOKEN_RATE_SIGNER_REMOVE \<Rightarrow> on_address (RemoveTokenRateSigner (vk_profile k))
      | PROPOSAL_TYPE_VPN_SIGNER_ADD \<Rightarrow> on_address (AddVpnCurrentSigner (vk_profile k))
      | PROPOSAL_TYPE_VPN_SIGNER_REMOVE \<Rightarrow> on_address (RemoveVpnCurrentSigner (vk_profile k))
      | PROPOSAL_TYPE_STORAGE_SIGNER_ADD \<Rightarrow> on_address (AddStorageCurrentSigner (vk_profile k))
      | PROPOSAL_TYPE_STORAGE_SIGNER_REMOVE \<Rightarrow> on_address (RemoveStorageCurrentSigner (vk_profile k))
      | PROPOSAL_TYPE_TRANSITION_PRICE \<Rightarrow> with_arg (arg_price p) (\<lambda>x s.
          ref_SetParams ((ref_GetParams s)\<lparr>TransitionPrice := x\<rparr>) s) s
      | PROPOSAL_TYPE_MIN_SEND \<Rightarrow> with_arg (arg_min_amount p) (\<lambda>x. bank_SetParams (bp\<lparr>MinSend := x\<rparr>)) s
      | PROPOSAL_TYPE_MIN_DELEGATE \<Rightarrow> with_arg (arg_min_amount p) (\<lambda>x. deleg_SetParams (dp\<lparr>MinDelegate := x\<rparr>)) s
      | PROPOSAL_TYPE_MAX_VALIDATORS \<Rightarrow> with_arg (arg_count p) (\<lambda>x. nod_SetParams (np\<lparr>MaxValidators := x\<rparr>)) s
      | PROPOSAL_TYPE_GENERAL_AMNESTY \<Rightarrow> (Ok (), GeneralAmnesty s)
      | PROPOSAL_TYPE_LUCKY_VALIDATORS \<Rightarrow> with_arg (arg_count p) (\<lambda>x. nod_SetParams (np\<lparr>LotteryValidators := x\<rparr>)) s
      | PROPOSAL_TYPE_VALIDATOR_MINIMAL_CRITERIA \<Rightarrow>
          with_arg (arg_min_criteria p) (\<lambda>x. nod_SetParams (np\<lparr>MinCriteria := x\<rparr>)) s
      | PROPOSAL_TYPE_JAIL_AFTER \<Rightarrow> with_arg (arg_count p) (\<lambda>x. nod_SetParams (np\<lparr>JailAfter := x\<rparr>)) s
      | PROPOSAL_TYPE_DUST_DELEGATION \<Rightarrow> with_arg (arg_min_amount p) (\<lambda>x. bank_SetParams (bp\<lparr>DustDelegation := x\<rparr>)) s
      | PROPOSAL_TYPE_VOTING_POWER \<Rightarrow> with_arg (arg_voting_power p) (\<lambda>x. nod_SetParams (np\<lparr>VotingPower := x\<rparr>)) s
      | PROPOSAL_TYPE_TRANSACTION_FEE \<Rightarrow> and_then (lift_res (arg_portion p) s) (\<lambda>x.
          set_bank_params k (bp\<lparr>TransactionFee := x\<rparr>))
      | PROPOSAL_TYPE_MAX_TRANSACTION_FEE \<Rightarrow> and_then (lift_res (arg_min_amount p) s) (\<lambda>x.
          set_bank_params k (bp\<lparr>MaxTransactionFee := x\<rparr>))
      | PROPOSAL_TYPE_TRANSACTION_FEE_SPLIT_RATIOS \<Rightarrow> and_then (lift_res (arg_portions p) s) (\<lambda>(a, b).
          set_bank_params k (bp\<lparr>TransactionFeeSplitRatios := \<lparr>ForProposer = a, ForCompany = b\<rparr>\<rparr>))
      | PROPOSAL_TYPE_ACCRUE_PERCENTAGE_TABLE \<Rightarrow> and_then (lift_res (arg_table p) s) (\<lambda>x.
          set_deleg_params (dp\<lparr>AccruePercentageTable := x\<rparr>))
      | PROPOSAL_TYPE_BLOCKED_SENDER_ADD \<Rightarrow> with_arg address (AddBlockedSender (vk_bank k)) s
      | PROPOSAL_TYPE_BLOCKED_SENDER_REMOVE \<Rightarrow> with_arg address (RemoveBlockedSender (vk_bank k)) s
      | PROPOSAL_TYPE_REVOKE \<Rightarrow> with_arg (arg_revoke p) (\<lambda>x. deleg_SetParams (dp\<lparr>Revoke_Params := x\<rparr>)) s
      | PROPOSAL_TYPE_EXPRESS_REVOKE \<Rightarrow> with_arg (arg_revoke p) (\<lambda>x. deleg_SetParams (dp\<lparr>ExpressRevoke := x\<rparr>)) s
      | PROPOSAL_TYPE_UNSPECIFIED \<Rightarrow> (Err (Text ''unknown proposal type''), s)
      | _ \<Rightarrow> (Err deprecated, s))"

text \<open>An error of the change is only logged; a panic is not caught here.\<close>

fun logged :: "unit res \<times> 's \<Rightarrow> unit res \<times> 's" where
  "logged (Err e, s) = (Ok (), s)"
| "logged r = r"

definition clear_proposal :: "'s voting_ctx_scheme \<Rightarrow> 's voting_ctx_scheme" where
  "clear_proposal s = s\<lparr>vt_current := None, vt_agreed := [], vt_disagreed := [], vt_start_block := None\<rparr>"

definition EndProposal :: "'s voting_keeper \<Rightarrow> proposal \<Rightarrow> bool \<Rightarrow> 's voting_op" where
  "EndProposal k p agreed s =
     (case prop_EndTime p of
        None \<Rightarrow> (Panic nil_deref, s)
      | Some t \<Rightarrow>
          and_then (DeleteAll t VoteHookName s) (\<lambda>_ s.
          and_then (SaveProposalToHistory s) (\<lambda>_ s.
          let s = emit (''voting_finished'', [AStr (prop_Name p), ABool agreed]) (clear_proposal s)
          in if agreed then logged (apply_proposal k p s) else (Ok (), s))))"

definition ScheduleEnding :: "time \<Rightarrow> 's voting_op" where
  "ScheduleEnding t s = ScheduleTask t VoteHookName [] s"

definition ProcessSchedule :: "'s voting_keeper \<Rightarrow> 's voting_ctx_scheme hook" where
  "ProcessSchedule k d t s =
     (case GetCurrentProposal s of
        None \<Rightarrow> (Ok (), s)
      | Some p \<Rightarrow> EndProposal k p (snd (voting_Validate (GetGovernment s) (GetAgreed s) (GetDisagreed s))) s)"

definition GetHistory :: "int \<Rightarrow> int \<Rightarrow> 's voting_ctx_scheme \<Rightarrow> history_record list" where
  "GetHistory limit page s =
     list_page 0 (wrap32 (limit * wrap32 (page - 1))) (wrap32 (limit * page)) (map snd (store_items (vt_history s)))"

text \<open>The event of a new proposal, its type left out.\<close>

definition EventProposalCreated :: "proposal \<Rightarrow> event" where
  "EventProposalCreated p = (''proposal_created'', [AStr (prop_Name p), AStr (prop_Author p)])"

definition Propose :: "'s voting_keeper \<Rightarrow> proposal \<Rightarrow> 's voting_op" where
  "Propose k p s =
     (if GetCurrentProposal s \<noteq> None then (Err ErrOtherActive, s)
      else
        and_then (lift_res (msg_address (vk_sdk k) (prop_Author p)) s) (\<lambda>author s.
        let gov = GetGovernment s
        in if \<not> gov_Contains (vk_sdk k) gov author then (Err ErrSignerNotAllowed, s)
           else
             let endTime = block_time s + hours (VotingPeriod (voting_GetParams s));
                 p = p\<lparr>prop_EndTime := Some endTime\<rparr>; agreed = [prop_Author p]
             in and_then (ScheduleEnding endTime (SetDisagreed [] (SetAgreed agreed (SetCurrentProposal p s)))) (\<lambda>_ s.
                let s = emit (EventProposalCreated p) (SetStartBlock s)
                in case voting_Validate gov agreed [] of (all_voted, agree) \<Rightarrow>
                     if all_voted then EndProposal k p agree s else (Ok (), s))))"

definition EventProposalVote :: "'s voting_keeper \<Rightarrow> addr \<Rightarrow> bool \<Rightarrow> event" where
  "EventProposalVote k voter agree = (''proposal_vote'', [AStr (AccString (vk_sdk k) voter), ABool agree])"

definition Vote :: "'s voting_keeper \<Rightarrow> addr \<Rightarrow> bool \<Rightarrow> 's voting_op" where
  "Vote k voter agree s =
     (let L = vk_sdk k; gov = GetGovernment s; agreed = GetAgreed s; disagreed = GetDisagreed s
      in case GetCurrentProposal s of
           None \<Rightarrow> (Err ErrNoActiveProposals, s)
         | Some p \<Rightarrow>
             if \<not> gov_Contains L gov voter then (Err ErrSignerNotAllowed, s)
             else if gov_Contains L agreed voter then (Err ErrAlreadyVoted, s)
             else if gov_Contains L disagreed voter then (Err ErrAlreadyVoted, s)
             else
               let agreed = (if agree then gov_Append L voter agreed else agreed);
                   disagreed = (if agree then disagreed else gov_Append L voter disagreed);
                   s = (if agree then SetAgreed agreed s else SetDisagreed disagreed s);
                   s = emit (EventProposalVote k voter agree) s
               in case voting_Validate gov agreed disagreed of (all_voted, agree) \<Rightarrow>
                    if all_voted then EndProposal k p agree s else (Ok (), s))"

end
