(* ===== verification/Voting_Polls.thy ===== *)
theory Voting_Polls
  imports Voting
begin

text \<open>
  Polls of \<open>x/voting\<close>: started by a governor, answered by the accounts that meet the requirements,
  counted when their time is over. Then genesis, messages and queries of the module.
\<close>

section \<open>Polls\<close>

definition GetCurrentPoll :: "'s voting_ctx_scheme \<Rightarrow> poll option" where
  "GetCurrentPoll s = vt_poll s"

definition counted :: "64 word option \<Rightarrow> 64 word" where
  "counted c = (case c of None \<Rightarrow> 0 | Some n \<Rightarrow> n)"

definition GetPollStatus :: "'s voting_ctx_scheme \<Rightarrow> 64 word \<times> 64 word" where
  "GetPollStatus s = (counted (vt_yes s), counted (vt_no s))"

definition StartPoll :: "'s voting_keeper \<Rightarrow> poll \<Rightarrow> 's voting_op" where
  "StartPoll k p s =
     (if vt_poll s \<noteq> None then (Err ErrOtherActive, s)
      else if poll_Author p \<notin> set (GetGovernment s) then (Err ErrSignerNotAllowed, s)
      else
        let start = block_time s; stop = start + hours (PollPeriod (voting_GetParams s))
        in and_then (ScheduleTask stop PollHookName [] s) (\<lambda>_ s.
           (Ok (), s\<lparr>vt_poll := Some (p\<lparr>poll_StartTime := Some start, poll_EndTime := Some stop\<rparr>)\<rparr>)))"

text \<open>Whether an account may answer; a failed look at it is a panic.\<close>

definition may_answer :: "'s voting_keeper \<Rightarrow> poll \<Rightarrow> string \<Rightarrow> addr \<Rightarrow> 's voting_ctx_scheme \<Rightarrow> bool res" where
  "may_answer k p acc a s =
     (case Requirements p of
        None \<Rightarrow> Ok True
      | Some CanValidate \<Rightarrow>
          (case IsQualified (vk_noding k) a s of
             Ok (q, _, _) \<Rightarrow> Ok q
           | Err e \<Rightarrow> Panic e
           | Panic e \<Rightarrow> Panic e)
      | Some (MinStatus st) \<Rightarrow> Ok (r_Status (ref_Get acc s) \<ge> st))"

definition count_answer :: "string \<Rightarrow> bool \<Rightarrow> 's voting_ctx_scheme \<Rightarrow> 's voting_ctx_scheme" where
  "count_answer acc yes s =
     (let s = s\<lparr>vt_answers := (vt_answers s)(acc \<mapsto> yes)\<rparr>
      in if yes then s\<lparr>vt_yes := Some (counted (vt_yes s) + 1)\<rparr>
         else s\<lparr>vt_no := Some (counted (vt_no s) + 1)\<rparr>)"

definition Answer :: "'s voting_keeper \<Rightarrow> string \<Rightarrow> bool \<Rightarrow> 's voting_op" where
  "Answer k acc yes s =
     (case GetCurrentPoll s of
        None \<Rightarrow> (Err ErrNoActivePoll, s)
      | Some p \<Rightarrow>
          and_then (lift_res (msg_address (vk_sdk k) acc) s) (\<lambda>a s.
          and_then (lift_res (may_answer k p acc a s) s) (\<lambda>allowed s.
          if \<not> allowed then (Err ErrRespondentNotAllowed, s)
          else if vt_answers s acc \<noteq> None then (Err ErrAlreadyVoted, s)
          else (Ok (), count_answer acc yes s))))"

text \<open>A poll with no quorum decides nothing; one with no answer for it is decided against.\<close>

definition poll_decision :: "fraction option \<Rightarrow> 64 word \<Rightarrow> 64 word \<Rightarrow> decision res" where
  "poll_decision quorum yes no =
     (case quorum of
        None \<Rightarrow> Ok DECISION_UNSPECIFIED
      | Some q \<Rightarrow>
          if yes = 0 then Ok DECISION_NEGATIVE
          else bind_res (Mul q (FractionInt (sint (yes + no)))) (\<lambda>needed.
            bind_res (GTE (FractionInt (sint yes)) needed) (\<lambda>ge.
            Ok (if ge then DECISION_POSITIVE else DECISION_NEGATIVE))))"

definition Unix :: "time \<Rightarrow> int" where "Unix t = t div 1000000000"

definition poll_key :: "time \<Rightarrow> 64 word" where "poll_key t = word_of_int (Unix t)"

definition EventPollFinished :: "poll \<Rightarrow> 64 word \<Rightarrow> 64 word \<Rightarrow> event" where
  "EventPollFinished p yes no = (''poll_finished'', [AStr (poll_Name p), AInt (uint yes), AInt (uint no)])"

text \<open>The writes go to a cache that is written at the end: a panic leaves the stores as they were.\<close>

definition EndPoll :: "'s voting_op" where
  "EndPoll s =
     (case vt_poll s of
        None \<Rightarrow> (Panic ErrNoActivePoll, s)
      | Some p \<Rightarrow>
          case GetPollStatus s of (yes, no) \<Rightarrow>
            and_then (lift_res (poll_decision (Quorum p) yes no) s) (\<lambda>decision s.
            let s = emit (EventPollFinished p yes no) s
            in case poll_EndTime p of
                 None \<Rightarrow> (Panic nil_deref, s)
               | Some t \<Rightarrow>
                   (Ok (), s\<lparr>vt_poll_history := (vt_poll_history s)(poll_key t \<mapsto>
                       \<lparr>ph_Poll = p, ph_Yes = yes, ph_No = no, Decision = decision\<rparr>),
                     vt_poll := None, vt_yes := None, vt_no := None, vt_answers := Map.empty\<rparr>)))"

definition EndPollHandler :: "'s voting_ctx_scheme hook" where
  "EndPollHandler d t s = EndPoll s"

definition GetPollHistory :: "'s voting_keeper \<Rightarrow> int \<Rightarrow> int \<Rightarrow> 's voting_ctx_scheme \<Rightarrow> poll_history_item list" where
  "GetPollHistory k limit page s =
     (let items = map snd (store_items (vt_poll_history s))
      in if limit > 0 then vk_paginate k (wrapu64 page) (wrapu64 limit) items else items)"

definition GetPollHistoryAll :: "'s voting_keeper \<Rightarrow> 's voting_ctx_scheme \<Rightarrow> poll_history_item list" where
  "GetPollHistoryAll k s = GetPollHistory k 0 0 s"

text \<open>The callback says whether to stop; its panic is an error here.\<close>

fun answers_loop :: "(string \<times> bool) list \<Rightarrow> (string \<Rightarrow> bool \<Rightarrow> 'a \<Rightarrow> bool res \<times> 'a) \<Rightarrow> 'a \<Rightarrow> unit res \<times> 'a" where
  "answers_loop [] f x = (Ok (), x)"
| "answers_loop ((acc, ans) # rest) f x =
     and_then (f acc ans x) (\<lambda>stop x. if stop then (Ok (), x) else answers_loop rest f x)"

definition IterateThroughCurrentPollAnswers ::
    "(string \<Rightarrow> bool \<Rightarrow> 'a \<Rightarrow> bool res \<times> 'a) \<Rightarrow> 's voting_ctx_scheme \<Rightarrow> 'a \<Rightarrow> unit res \<times> 'a" where
  "IterateThroughCurrentPollAnswers f s x =
     (if vt_poll s = None then (Err ErrNoActivePoll, x)
      else recover_err (answers_loop (store_items (vt_answers s)) f x))"

section \<open>Genesis\<close>

definition load_history :: "poll_history_item list \<Rightarrow> 's voting_op" where
  "load_history items = for_each items (\<lambda>i s.
     (case poll_EndTime (ph_Poll i) of
        None \<Rightarrow> (Panic nil_deref, s)
      | Some t \<Rightarrow> (Ok (), s\<lparr>vt_poll_history := (vt_poll_history s)(poll_key t \<mapsto> i)\<rparr>)))"

definition LoadPolls :: "'s voting_keeper \<Rightarrow> voting_genesis \<Rightarrow> 's voting_op" where
  "LoadPolls k g s =
     and_then
       (case vg_CurrentPoll g of
          None \<Rightarrow> (Ok (), s)
        | Some p \<Rightarrow> for_each (vg_PollAnswers g) (\<lambda>(acc, ans) s. must (Answer k acc ans s)) (s\<lparr>vt_poll := Some p\<rparr>))
       (\<lambda>_ s. load_history (vg_PollHistory g) s)"

definition voting_InitGenesis :: "'s voting_keeper \<Rightarrow> voting_genesis \<Rightarrow> 's voting_op" where
  "voting_InitGenesis k g s =
     (let s = SetGovernment (vg_Government g) (voting_SetParams (vg_Params g) s);
          s = (if prop_Type (vg_CurrentProposal g) \<noteq> PROPOSAL_TYPE_UNSPECIFIED
               then (SetCurrentProposal (vg_CurrentProposal g) s)\<lparr>vt_start_block := Some (vg_StartBlock g)\<rparr> else s);
          s = (if vg_Agreed g \<noteq> [] then SetAgreed (vg_Agreed g) s else s);
          s = (if vg_Disagreed g \<noteq> [] then SetDisagreed (vg_Disagreed g) s else s);
          s = fold AddProposalHistoryRecord (vg_History g) s
      in LoadPolls k g s)"

definition collect_answers :: "'s voting_ctx_scheme \<Rightarrow> (string \<times> bool) list" where
  "collect_answers s =
     snd (IterateThroughCurrentPollAnswers (\<lambda>acc ans xs. (Ok False, xs @ [(acc, ans)])) s [])"

definition voting_ExportGenesis :: "'s voting_keeper \<Rightarrow> 's voting_ctx_scheme \<Rightarrow> voting_genesis res" where
  "voting_ExportGenesis k s =
     bind_res (case GetCurrentProposal s of None \<Rightarrow> Ok 0 | Some _ \<Rightarrow> GetStartBlock s) (\<lambda>start.
     let g = voting_NewGenesisState (voting_GetParams s) (GetGovernment s) (GetCurrentProposal s) start
       (GetAgreed s) (GetDisagreed s) (GetHistory (2 ^ 31 - 1) 1 s);
         g = (case GetCurrentPoll s of
                None \<Rightarrow> g
              | Some p \<Rightarrow> g\<lparr>vg_CurrentPoll := Some p, vg_PollAnswers := collect_answers s\<rparr>)
     in Ok (g\<lparr>vg_PollHistory := GetPollHistoryAll k s\<rparr>))"

section \<open>Messages and queries\<close>

definition tagged_voting :: "string \<Rightarrow> unit res \<times> 's voting_ctx_scheme \<Rightarrow> unit res \<times> 's voting_ctx_scheme" where
  "tagged_voting action r =
     and_then r (\<lambda>_ s. (Ok (), TagTx ''voting'' (''artery.voting.v1beta1.'' @ action) s))"

definition msg_Propose :: "'s voting_keeper \<Rightarrow> proposal \<Rightarrow> 's voting_op" where
  "msg_Propose k p s = tagged_voting ''MsgPropose'' (Propose k p s)"

definition msg_Vote :: "'s voting_keeper \<Rightarrow> string \<Rightarrow> bool \<Rightarrow> 's voting_op" where
  "msg_Vote k voter agree s =
     and_then (lift_res (msg_address (vk_sdk k) voter) s) (\<lambda>a s. tagged_voting ''MsgVote'' (Vote k a agree s))"

definition msg_StartPoll :: "'s voting_keeper \<Rightarrow> poll \<Rightarrow> 's voting_op" where
  "msg_StartPoll k p s = tagged_voting ''MsgStartPoll'' (StartPoll k p s)"

definition msg_AnswerPoll :: "'s voting_keeper \<Rightarrow> string \<Rightarrow> bool \<Rightarrow> 's voting_op" where
  "msg_AnswerPoll k respondent yes s = tagged_voting ''MsgAnswerPoll'' (Answer k respondent yes s)"

definition voting_query_History :: "int \<Rightarrow> int \<Rightarrow> 's voting_ctx_scheme \<Rightarrow> history_record list res" where
  "voting_query_History limit page s = Ok (GetHistory limit page s)"

definition voting_query_Government :: "'s voting_ctx_scheme \<Rightarrow> string list res" where
  "voting_query_Government s = Ok (GetGovernment s)"

definition voting_query_Current ::
    "'s voting_ctx_scheme \<Rightarrow> (proposal \<times> string list \<times> string list \<times> string list) res" where
  "voting_query_Current s =
     (case GetCurrentProposal s of
        None \<Rightarrow> Ok (zero_proposal, [], [], [])
      | Some p \<Rightarrow> Ok (p, GetGovernment s, GetAgreed s, GetDisagreed s))"

definition voting_query_Params :: "'s voting_ctx_scheme \<Rightarrow> voting_params res" where
  "voting_query_Params s = Ok (voting_GetParams s)"

definition not_found :: error where "not_found = Registered ''grpc'' 5"

definition voting_query_Poll :: "'s voting_ctx_scheme \<Rightarrow> (poll \<times> 64 word \<times> 64 word) res" where
  "voting_query_Poll s =
     (case GetCurrentPoll s of
        None \<Rightarrow> Err not_found
      | Some p \<Rightarrow> (case GetPollStatus s of (yes, no) \<Rightarrow> Ok (p, yes, no)))"

definition voting_query_PollHistory ::
    "'s voting_keeper \<Rightarrow> int \<Rightarrow> int \<Rightarrow> 's voting_ctx_scheme \<Rightarrow> poll_history_item list res" where
  "voting_query_PollHistory k limit page s = Ok (GetPollHistory k limit page s)"

end
