(* ===== verification/Voting_Props.thy ===== *)
theory Voting_Props
  imports Voting_Polls Noding_Lottery Examples
begin

text \<open>
  Properties of \<open>x/voting\<close>. A voting step is a message that returned without error, a block whose
  scheduled tasks run, or anything another module does: the store of the module is reached with
  its own key only, so that leaves it alone. The same holds of the operations of the other
  modules an agreed proposal calls, which is proved for those of the model; \<open>x/upgrade\<close> and the
  other modules' hooks are assumed to keep to it.
\<close>

section \<open>What the other modules leave alone\<close>

lemma nod_set_more [simp]: "nod_ctx.more (nod_set a d s) = nod_ctx.more s"
  by (simp add: nod_set_def)

lemma emit_nod_more [simp]: "nod_ctx.more (emit e s) = nod_ctx.more s"
  by (simp add: emit_def)

lemma more_and_then:
  assumes "nod_ctx.more (snd r) = m" "\<And>v s. nod_ctx.more s = m \<Longrightarrow> nod_ctx.more (snd (f v s)) = m"
  shows "nod_ctx.more (snd (and_then r f)) = m"
  using assms by (cases r; cases "fst r") auto

lemma more_lift [simp]: "nod_ctx.more (snd (lift_res r s)) = nod_ctx.more s"
  by (simp add: lift_res_def)

lemma when_queued_more [simp]: "nod_ctx.more (snd (when_queued lotteryExclude d s)) = nod_ctx.more s"
  by (simp add: when_queued_def lotteryExclude_def)

lemma nod_update_more:
  assumes "\<And>d s. nod_ctx.more (snd (cb d s)) = nod_ctx.more s"
  shows "nod_ctx.more (snd (nod_update a cb s)) = nod_ctx.more s"
  by (auto simp: nod_update_def assms split: option.splits intro!: more_and_then)

lemma SwitchOff_more [simp]: "nod_ctx.more (snd (SwitchOff a s)) = nod_ctx.more s"
  by (auto simp: SwitchOff_def intro!: nod_update_more more_and_then)

lemma OnStatusUpdate_more [simp]: "nod_ctx.more (snd (OnStatusUpdate k a s)) = nod_ctx.more s"
  by (auto simp: OnStatusUpdate_def intro!: more_and_then)

lemma OnStakeChanged_more [simp]: "nod_ctx.more (snd (OnStakeChanged k a s)) = nod_ctx.more s"
  by (auto simp: OnStakeChanged_def split: option.splits prod.splits intro!: more_and_then)

lemma AddToStaff_more [simp]: "nod_ctx.more (snd (AddToStaff a s)) = nod_ctx.more s"
  by (auto simp: AddToStaff_def intro!: nod_update_more)

lemma RemoveFromStaff_more [simp]: "nod_ctx.more (snd (RemoveFromStaff k a s)) = nod_ctx.more s"
  by (auto simp: RemoveFromStaff_def split: option.splits intro!: nod_update_more more_and_then)

lemma GeneralAmnesty_more [simp]: "nod_ctx.more (GeneralAmnesty s) = nod_ctx.more s"
proof -
  have "nod_ctx.more (fold (\<lambda>(acc, item) s. if n_Strokes item = 0 \<and> n_JailCount item = 0 then s
      else nod_set acc (f item) s) xs s) = nod_ctx.more s" for f xs
    by (induction xs arbitrary: s) auto
  then show ?thesis by (simp add: GeneralAmnesty_def)
qed

text \<open>The part of the state that belongs to the module.\<close>

definition voting_part :: "'s voting_ctx_scheme \<Rightarrow> 's voting_ctx_ext" where
  "voting_part s = deleg_ctx.more s"

lemma voting_part_nod: "nod_ctx.more s = nod_ctx.more t \<Longrightarrow> voting_part s = voting_part t"
  by (cases s; cases t) (simp add: voting_part_def)

lemma voting_part_eq:
  assumes "voting_part s = voting_part t"
  shows "vt_params_store s = vt_params_store t" "vt_government s = vt_government t"
    "vt_current s = vt_current t" "vt_agreed s = vt_agreed t" "vt_disagreed s = vt_disagreed t"
    "vt_start_block s = vt_start_block t" "vt_history s = vt_history t" "vt_poll s = vt_poll t"
    "vt_answers s = vt_answers t" "vt_yes s = vt_yes t" "vt_no s = vt_no t"
    "vt_poll_history s = vt_poll_history t"
  using assms by (cases s; cases t; simp add: voting_part_def)+

lemma voting_part_prof: "prof_ctx.more s = prof_ctx.more t \<Longrightarrow> voting_part s = voting_part t"
  by (cases s; cases t) (simp add: voting_part_def)

lemma prof_SetParams_more [simp]: "prof_ctx.more (snd (prof_SetParams p s)) = prof_ctx.more s"
  by (simp add: prof_SetParams_def split: option.splits)

lemma prof_signers_more [simp]:
  "prof_ctx.more (snd (AddFreeCreator k a s)) = prof_ctx.more s"
  "prof_ctx.more (snd (RemoveFreeCreator k a s)) = prof_ctx.more s"
  "prof_ctx.more (snd (AddTokenRateSigner k a s)) = prof_ctx.more s"
  "prof_ctx.more (snd (RemoveTokenRateSigner k a s)) = prof_ctx.more s"
  "prof_ctx.more (snd (AddVpnCurrentSigner k a s)) = prof_ctx.more s"
  "prof_ctx.more (snd (RemoveVpnCurrentSigner k a s)) = prof_ctx.more s"
  "prof_ctx.more (snd (AddStorageCurrentSigner k a s)) = prof_ctx.more s"
  "prof_ctx.more (snd (RemoveStorageCurrentSigner k a s)) = prof_ctx.more s"
  by (simp_all add: AddFreeCreator_def RemoveFreeCreator_def AddTokenRateSigner_def RemoveTokenRateSigner_def
      AddVpnCurrentSigner_def RemoveVpnCurrentSigner_def AddStorageCurrentSigner_def
      RemoveStorageCurrentSigner_def Let_def)

lemma params_part [simp]:
  "voting_part (bank_SetParams bp s) = voting_part s" "voting_part (deleg_SetParams dp s) = voting_part s"
  "voting_part (nod_SetParams np s) = voting_part s" "voting_part (ref_SetParams rp s) = voting_part s"
  "voting_part (earn_SetParams ep s) = voting_part s" "voting_part (emit e s) = voting_part s"
  "voting_part (snd (prof_SetParams pp s)) = voting_part s"
  by (simp_all add: voting_part_def bank_SetParams_def deleg_SetParams_def nod_SetParams_def ref_SetParams_def
      earn_SetParams_def emit_def prof_SetParams_def split: option.splits)

section \<open>An agreed proposal\<close>

text \<open>What is asked of \<open>x/upgrade\<close>.\<close>

definition upgrade_frame :: "'s voting_keeper \<Rightarrow> bool" where
  "upgrade_frame k \<longleftrightarrow> (\<forall>plan s. voting_part (snd (vk_ScheduleUpgrade k plan s)) = voting_part s)
     \<and> (\<forall>s. voting_part (vk_ClearUpgradePlan k s) = voting_part s)"

definition other_than_government :: "'s voting_ctx_scheme \<Rightarrow> 's voting_ctx_scheme \<Rightarrow> bool" where
  "other_than_government s t \<longleftrightarrow> vt_params_store t = vt_params_store s \<and> vt_current t = vt_current s
     \<and> vt_agreed t = vt_agreed s \<and> vt_disagreed t = vt_disagreed s \<and> vt_start_block t = vt_start_block s
     \<and> vt_history t = vt_history s \<and> vt_poll t = vt_poll s \<and> vt_answers t = vt_answers s
     \<and> vt_yes t = vt_yes s \<and> vt_no t = vt_no s \<and> vt_poll_history t = vt_poll_history s"

lemma voting_part_other: "voting_part t = voting_part s \<Longrightarrow> other_than_government s t"
  unfolding other_than_government_def by (intro conjI; erule voting_part_eq)

lemma voting_part_and_then:
  assumes "voting_part (snd r) = m" "\<And>v s. voting_part s = m \<Longrightarrow> voting_part (snd (f v s)) = m"
  shows "voting_part (snd (and_then r f)) = m"
  using assms by (cases r; cases "fst r") auto

lemma voting_part_lift [simp]: "voting_part (snd (lift_res r s)) = voting_part s"
  by (simp add: lift_res_def)

lemma voting_part_with_arg:
  assumes "\<And>v. voting_part (f v s) = voting_part s"
  shows "voting_part (snd (with_arg x f s)) = voting_part s"
  by (cases x) (simp_all add: with_arg_def lift_res_def assms)

lemma voting_part_arg:
  assumes "\<And>v. voting_part (snd (f v s)) = voting_part s"
  shows "voting_part (snd (and_then (lift_res x s) f)) = voting_part s"
  by (cases x) (simp_all add: lift_res_def assms)

lemma set_params_part [simp]:
  "voting_part (snd (set_bank_params k bp s)) = voting_part s"
  "voting_part (snd (set_deleg_params dp s)) = voting_part s"
  by (auto simp: set_bank_params_def set_deleg_params_def intro!: voting_part_arg)

lemma noding_part [simp]:
  "voting_part (snd (AddToStaff a s)) = voting_part s" "voting_part (snd (RemoveFromStaff nk a s)) = voting_part s"
  "voting_part (GeneralAmnesty s) = voting_part s"
  by (rule voting_part_nod, simp)+

lemma signers_part [simp]:
  "voting_part (AddSigner L a s) = voting_part s" "voting_part (RemoveSigner L a s) = voting_part s"
  "voting_part (AddBlockedSender bk a s) = voting_part s" "voting_part (RemoveBlockedSender bk a s) = voting_part s"
  by (simp_all add: AddSigner_def RemoveSigner_def AddBlockedSender_def RemoveBlockedSender_def Let_def)

lemmas profile_part [simp] = prof_signers_more [THEN voting_part_prof]

text \<open>Only the two proposals about the government touch the store of the module.\<close>

lemma apply_proposal_part:
  assumes "upgrade_frame k" "prop_Type p \<noteq> PROPOSAL_TYPE_GOVERNMENT_ADD" "prop_Type p \<noteq> PROPOSAL_TYPE_GOVERNMENT_REMOVE"
  shows "voting_part (snd (apply_proposal k p s)) = voting_part s"
  using assms
  by (cases "prop_Type p") (simp_all add: apply_proposal_def Let_def upgrade_frame_def
      voting_part_arg voting_part_with_arg split_beta)

lemma apply_proposal_other:
  assumes "upgrade_frame k"
  shows "other_than_government s (snd (apply_proposal k p s))"
proof (cases "prop_Type p = PROPOSAL_TYPE_GOVERNMENT_ADD \<or> prop_Type p = PROPOSAL_TYPE_GOVERNMENT_REMOVE")
  case True
  then show ?thesis
    by (cases "arg_address (vk_sdk k) p") (auto simp: apply_proposal_def Let_def with_arg_def lift_res_def
        other_than_government_def AddGovernor_def RemoveGovernor_def SetGovernment_def)
qed (simp add: voting_part_other apply_proposal_part assms)

lemma logged_snd [simp]: "snd (logged r) = snd r"
  by (cases r; cases "fst r") auto

section \<open>The invariant of votes and answers\<close>

definition answered :: "bool \<Rightarrow> 's voting_ctx_scheme \<Rightarrow> string set" where
  "answered yes s = {a. vt_answers s a = Some yes}"

definition votes_ok :: "'s voting_ctx_scheme \<Rightarrow> bool" where
  "votes_ok s \<longleftrightarrow>
     (case vt_current s of
        None \<Rightarrow> vt_agreed s = [] \<and> vt_disagreed s = []
      | Some p \<Rightarrow> distinct (vt_agreed s @ vt_disagreed s) \<and> set (vt_agreed s @ vt_disagreed s) \<subseteq> set (vt_government s)
          \<and> length (vt_agreed s @ vt_disagreed s) \<noteq> length (vt_government s)
          \<and> vt_start_block s \<noteq> None \<and> (\<exists>t. prop_EndTime p = Some t \<and> key_ok t))"

definition poll_ok :: "'s voting_ctx_scheme \<Rightarrow> bool" where
  "poll_ok s \<longleftrightarrow> finite (dom (vt_answers s))
     \<and> counted (vt_yes s) = of_nat (card (answered True s)) \<and> counted (vt_no s) = of_nat (card (answered False s))
     \<and> (vt_poll s = None \<longrightarrow> vt_answers s = Map.empty)"

definition voting_ok :: "'s voting_ctx_scheme \<Rightarrow> bool" where
  "voting_ok s \<longleftrightarrow> votes_ok s \<and> poll_ok s"

lemma voting_ok_part:
  assumes "voting_part t = voting_part s"
  shows "voting_ok s \<Longrightarrow> voting_ok t"
  using voting_part_eq[OF assms]
  by (cases "vt_current s") (simp_all add: voting_ok_def votes_ok_def poll_ok_def answered_def)

lemma poll_ok_other: "other_than_government s t \<Longrightarrow> poll_ok s \<Longrightarrow> poll_ok t"
  by (simp add: other_than_government_def poll_ok_def answered_def)

lemma voting_ok_ended:
  "other_than_government s t \<Longrightarrow> vt_current s = None \<Longrightarrow> voting_ok s \<Longrightarrow> voting_ok t"
  using poll_ok_other[of s t] by (auto simp: voting_ok_def votes_ok_def other_than_government_def)

text \<open>
  Ending a proposal takes it, its votes and its start away and records it in the history, whatever
  it then does. \<open>m\<close> is the task store without the end of the vote.
\<close>

definition ended_record :: "proposal \<Rightarrow> int \<Rightarrow> 's voting_ctx_scheme \<Rightarrow> history_record" where
  "ended_record q h s = \<lparr>hr_Proposal = q, hr_Government = vt_government s, hr_Agreed = vt_agreed s,
     hr_Disagreed = vt_disagreed s, hr_Started = h, hr_Finished = block_height s\<rparr>"

definition ended_state :: "proposal \<Rightarrow> bool \<Rightarrow> history_record \<Rightarrow> (int \<rightharpoonup> task list) \<Rightarrow> 's voting_ctx_scheme \<Rightarrow> 's voting_ctx_scheme" where
  "ended_state p agreed r m s = emit (''voting_finished'', [AStr (prop_Name p), ABool agreed])
     (clear_proposal (AddProposalHistoryRecord r (s\<lparr>sched_store := m\<rparr>)))"

lemma ended_state_simps [simp]:
  "vt_current (ended_state p agreed r m s) = None" "vt_agreed (ended_state p agreed r m s) = []"
  "vt_disagreed (ended_state p agreed r m s) = []" "vt_government (ended_state p agreed r m s) = vt_government s"
  "vt_poll (ended_state p agreed r m s) = vt_poll s" "vt_answers (ended_state p agreed r m s) = vt_answers s"
  "vt_yes (ended_state p agreed r m s) = vt_yes s" "vt_no (ended_state p agreed r m s) = vt_no s"
  by (simp_all add: ended_state_def emit_def clear_proposal_def AddProposalHistoryRecord_def)

lemma DeleteAll_runs:
  assumes "key_ok t"
  shows "\<exists>m. DeleteAll t n s = (Ok (), s\<lparr>sched_store := m\<rparr>)"
proof (cases "sched_store s t")
  case None
  then have "DeleteAll t n s = (Ok (), s\<lparr>sched_store := sched_store s\<rparr>)"
    by (simp add: DeleteAll_def sched_delete_def Key_ok assms lift_res_def)
  then show ?thesis by (rule exI[of _ "sched_store s"])
next
  case (Some items)
  then show ?thesis by (simp add: DeleteAll_def sched_delete_def Key_ok assms lift_res_def Let_def) blast
qed

lemma EndProposal_runs:
  assumes "prop_EndTime p = Some t" "key_ok t" "vt_current s = Some q" "vt_start_block s = Some h"
  shows "\<exists>m. EndProposal k p agreed s = (if agreed then logged (apply_proposal k p (ended_state p agreed (ended_record q h s) m s))
    else (Ok (), ended_state p agreed (ended_record q h s) m s))"
proof -
  obtain m where d: "DeleteAll t VoteHookName s = (Ok (), s\<lparr>sched_store := m\<rparr>)"
    using DeleteAll_runs[OF assms(2)] by blast
  have "SaveProposalToHistory (s\<lparr>sched_store := m\<rparr>)
      = (Ok (), AddProposalHistoryRecord (ended_record q h s) (s\<lparr>sched_store := m\<rparr>))"
    using assms by (simp add: SaveProposalToHistory_def GetCurrentProposal_def GetStartBlock_def
        lift_res_def GetGovernment_def GetAgreed_def GetDisagreed_def ended_record_def)
  then show ?thesis
    using assms by (intro exI[of _ m]) (simp add: EndProposal_def d ended_state_def Let_def)
qed

lemma EndProposal_voting_ok:
  assumes "upgrade_frame k" "prop_EndTime p = Some t" "key_ok t" "vt_current s = Some q" "vt_start_block s = Some h" "poll_ok s"
  shows "voting_ok (snd (EndProposal k p agreed s)) \<and> vt_current (snd (EndProposal k p agreed s)) = None"
proof -
  obtain m where e: "EndProposal k p agreed s = (if agreed then logged (apply_proposal k p (ended_state p agreed (ended_record q h s) m s))
      else (Ok (), ended_state p agreed (ended_record q h s) m s))"
    using EndProposal_runs[OF assms(2-5)] by blast
  let ?s = "ended_state p agreed (ended_record q h s) m s"
  have ok: "voting_ok ?s"
    using assms(6) by (simp add: voting_ok_def votes_ok_def poll_ok_def answered_def)
  have o: "other_than_government ?s (snd (apply_proposal k p ?s))"
    by (rule apply_proposal_other[OF assms(1)])
  have "voting_ok (snd (apply_proposal k p ?s))" by (rule voting_ok_ended[OF o _ ok]) simp
  moreover have "vt_current (snd (apply_proposal k p ?s)) = None" using o by (simp add: other_than_government_def)
  ultimately show ?thesis using ok e by (cases agreed) simp_all
qed

section \<open>The steps\<close>

definition voting_hooks :: "'s voting_keeper \<Rightarrow> 's voting_ctx_scheme hooks \<Rightarrow> 's voting_ctx_scheme hooks" where
  "voting_hooks k others = others(VoteHookName \<mapsto> ProcessSchedule k, PollHookName \<mapsto> EndPollHandler)"

definition others_frame :: "'s voting_ctx_scheme hooks \<Rightarrow> bool" where
  "others_frame others \<longleftrightarrow> (\<forall>n h d t s. others n = Some h \<longrightarrow> voting_part (snd (h d t s)) = voting_part s)"

text \<open>
  A bech32 text may be written in capitals, and is then another text of the same address. The
  author of a proposal is kept as the text of the message, so a step that proposes asks for the
  usual text.
\<close>

inductive voting_step :: "'s voting_keeper \<Rightarrow> 's voting_ctx_scheme hooks \<Rightarrow> 's voting_ctx_scheme \<Rightarrow> 's voting_ctx_scheme \<Rightarrow> bool"
  for k :: "'s voting_keeper" and others :: "'s voting_ctx_scheme hooks" where
  step_propose: "Propose k p s = (Ok (), t) \<Longrightarrow> msg_address (vk_sdk k) (prop_Author p) = Ok a \<Longrightarrow>
    AccString (vk_sdk k) a = prop_Author p \<Longrightarrow> voting_step k others s t"
| step_vote: "Vote k a agree s = (Ok (), t) \<Longrightarrow> voting_step k others s t"
| step_start: "StartPoll k q s = (Ok (), t) \<Longrightarrow> voting_step k others s t"
| step_answer: "Answer k acc yes s = (Ok (), t) \<Longrightarrow> voting_step k others s t"
| step_block: "voting_step k others s (snd (sched_BeginBlocker (voting_hooks k others) s))"
| step_other: "voting_part t = voting_part s \<Longrightarrow> voting_step k others s t"

inductive_cases voting_stepE: "voting_step k others s t"

lemma gov_simps [simp]:
  "gov_Contains L g a \<longleftrightarrow> AccString L a \<in> set g" "gov_Append L a g = g @ [AccString L a]"
  by (simp_all add: gov_Contains_def gov_Append_def)

lemma voting_Validate_simps:
  "fst (voting_Validate g a d) \<longleftrightarrow> length g = length a + length d"
  "snd (voting_Validate g a d) \<longleftrightarrow> length g = length a + length d \<and> length a * 3 \<ge> length g * 2"
  by (simp_all add: voting_Validate_def)

text \<open>What follows a vote: the end of the proposal, or a state where someone has still to vote.\<close>

lemma after_vote_ok:
  assumes "upgrade_frame k" and part: "vt_current s = Some p" "vt_start_block s \<noteq> None" "prop_EndTime p = Some e" "key_ok e" "poll_ok s"
    and lists: "distinct (vt_agreed s @ vt_disagreed s)" "set (vt_agreed s @ vt_disagreed s) \<subseteq> set (vt_government s)"
    and run: "(case voting_Validate (vt_government s) (vt_agreed s) (vt_disagreed s) of (all_voted, agree) \<Rightarrow>
      if all_voted then EndProposal k p agree s else (Ok (), s)) = (Ok (), t)"
  shows "voting_ok t"
proof (cases "fst (voting_Validate (vt_government s) (vt_agreed s) (vt_disagreed s))")
  case True
  then have "t = snd (EndProposal k p (snd (voting_Validate (vt_government s) (vt_agreed s) (vt_disagreed s))) s)"
    using run by (simp add: split_beta)
  then show ?thesis
    using EndProposal_voting_ok[OF assms(1) part(3,4,1) _ part(5)] part(2) by auto
next
  case False
  then have "t = s" using run by (simp add: split_beta)
  then show ?thesis
    using False part lists by (simp add: voting_ok_def votes_ok_def voting_Validate_simps)
qed

lemma Vote_ok:
  assumes "upgrade_frame k" "voting_ok s" "Vote k a agree s = (Ok (), t)"
  shows "voting_ok t"
proof -
  obtain p where p: "vt_current s = Some p"
    using assms(3) by (cases "vt_current s") (auto simp: Vote_def GetCurrentProposal_def Let_def)
  let ?x = "AccString (vk_sdk k) a"
  let ?s = "emit (EventProposalVote k a agree) (if agree then SetAgreed (vt_agreed s @ [?x]) s else SetDisagreed (vt_disagreed s @ [?x]) s)"
  have mem: "?x \<in> set (vt_government s)" "?x \<notin> set (vt_agreed s)" "?x \<notin> set (vt_disagreed s)"
    using assms(3) p by (auto simp: Vote_def GetCurrentProposal_def Let_def GetGovernment_def GetAgreed_def
        GetDisagreed_def split: if_splits)
  have sel: "vt_current ?s = Some p" "vt_start_block ?s = vt_start_block s" "vt_government ?s = vt_government s"
    "vt_agreed ?s = (if agree then vt_agreed s @ [?x] else vt_agreed s)"
    "vt_disagreed ?s = (if agree then vt_disagreed s else vt_disagreed s @ [?x])"
    "poll_ok ?s = poll_ok s"
    using p by (simp_all add: emit_def SetAgreed_def SetDisagreed_def poll_ok_def answered_def)
  have run: "(case voting_Validate (vt_government ?s) (vt_agreed ?s) (vt_disagreed ?s) of (all_voted, agree) \<Rightarrow>
      if all_voted then EndProposal k p agree ?s else (Ok (), ?s)) = (Ok (), t)"
    using assms(3) p mem unfolding sel by (simp add: Vote_def GetCurrentProposal_def Let_def GetGovernment_def
        GetAgreed_def GetDisagreed_def split_beta split: if_splits)
  obtain e where "prop_EndTime p = Some e" "key_ok e" "vt_start_block s \<noteq> None" "poll_ok s"
    "distinct (vt_agreed s @ vt_disagreed s)" "set (vt_agreed s @ vt_disagreed s) \<subseteq> set (vt_government s)"
    using assms(2) p by (auto simp: voting_ok_def votes_ok_def)
  then show ?thesis
    using after_vote_ok[OF assms(1) _ _ _ _ _ _ _ run] sel mem by (simp split: if_splits)
qed

lemma Propose_ok:
  assumes "upgrade_frame k" "voting_ok s" "Propose k p s = (Ok (), t)"
    and a: "msg_address (vk_sdk k) (prop_Author p) = Ok a" "AccString (vk_sdk k) a = prop_Author p"
  shows "voting_ok t"
proof -
  let ?e = "block_time s + hours (VotingPeriod (voting_GetParams s))"
  let ?p = "p\<lparr>prop_EndTime := Some ?e\<rparr>"
  let ?s = "SetDisagreed [] (SetAgreed [prop_Author p] (SetCurrentProposal ?p s))"
  have cur: "vt_current s = None" "prop_Author p \<in> set (vt_government s)"
    using assms(3) a by (auto simp: Propose_def GetCurrentProposal_def lift_res_def GetGovernment_def Let_def split: if_splits)
  obtain m where m: "ScheduleEnding ?e ?s = (Ok (), ?s\<lparr>sched_store := m\<rparr>)" and e: "key_ok ?e"
    using assms(3) cur a by (auto simp: Propose_def GetCurrentProposal_def lift_res_def GetGovernment_def Let_def
        and_then_Ok_iff ScheduleEnding_def ScheduleTask_def scheduleTask_def Key_Ok_iff)
  let ?s2 = "emit (EventProposalCreated ?p) (SetStartBlock (?s\<lparr>sched_store := m\<rparr>))"
  have sel: "vt_current ?s2 = Some ?p" "vt_start_block ?s2 \<noteq> None" "vt_government ?s2 = vt_government s"
    "vt_agreed ?s2 = [prop_Author p]" "vt_disagreed ?s2 = []" "poll_ok ?s2 = poll_ok s"
    by (simp_all add: emit_def SetStartBlock_def SetDisagreed_def SetAgreed_def SetCurrentProposal_def poll_ok_def answered_def)
  have run: "(case voting_Validate (vt_government ?s2) (vt_agreed ?s2) (vt_disagreed ?s2) of (all_voted, agree) \<Rightarrow>
      if all_voted then EndProposal k ?p agree ?s2 else (Ok (), ?s2)) = (Ok (), t)"
    using assms(3) cur a m unfolding sel by (simp add: Propose_def GetCurrentProposal_def lift_res_def GetGovernment_def Let_def)
  show ?thesis
    using after_vote_ok[OF assms(1) _ _ _ e _ _ _ run] sel cur assms(2) by (simp add: voting_ok_def)
qed

lemma Answer_ok:
  assumes "voting_ok s" "Answer k acc yes s = (Ok (), t)"
  shows "voting_ok t"
proof -
  have t: "t = count_answer acc yes s" "vt_answers s acc = None" "vt_poll s \<noteq> None"
    using assms(2) by (auto simp: Answer_def GetCurrentPoll_def and_then_Ok_iff lift_res_def split: option.splits if_splits)
  have fin: "finite (answered b s)" "acc \<notin> answered b s" for b
    using assms(1) t(2) finite_subset[of "answered b s" "dom (vt_answers s)"]
    by (auto simp: voting_ok_def poll_ok_def answered_def)
  have "answered yes t = insert acc (answered yes s)" "answered (\<not> yes) t = answered (\<not> yes) s"
    using t fin by (auto simp: count_answer_def Let_def answered_def)
  moreover have "votes_ok t = votes_ok s"
    using t(1) by (simp add: votes_ok_def count_answer_def Let_def cong: option.case_cong)
  ultimately show ?thesis
    using assms(1) t fin by (cases yes) (simp_all add: voting_ok_def poll_ok_def count_answer_def Let_def counted_def)
qed

lemma StartPoll_ok:
  assumes "voting_ok s" "StartPoll k q s = (Ok (), t)"
  shows "voting_ok t"
proof -
  obtain m x where "t = s\<lparr>sched_store := m, vt_poll := Some x\<rparr>"
    using assms(2) by (auto simp: StartPoll_def Let_def and_then_Ok_iff ScheduleTask_def scheduleTask_def lift_res_def split: if_splits)
  then show ?thesis
    using assms(1) by (cases "vt_current s") (simp_all add: voting_ok_def votes_ok_def poll_ok_def answered_def)
qed

lemma EndPoll_ok:
  assumes "voting_ok s"
  shows "voting_ok (snd (EndPoll s))"
proof (cases "vt_poll s")
  case None
  then show ?thesis using assms by (simp add: EndPoll_def)
next
  case (Some p)
  let ?d = "poll_decision (Quorum p) (fst (GetPollStatus s)) (snd (GetPollStatus s))"
  have e: "voting_ok (emit ev s)" for ev by (rule voting_ok_part[OF _ assms]) simp
  show ?thesis
  proof (cases "is_ok ?d \<and> poll_EndTime p \<noteq> None")
    case True
    then show ?thesis
      using assms Some by (cases ?d; cases "vt_current s") (auto simp: EndPoll_def split_beta lift_res_def Let_def
          voting_ok_def votes_ok_def poll_ok_def answered_def counted_def emit_def)
  next
    case False
    then show ?thesis using assms Some e by (cases ?d) (auto simp: EndPoll_def split_beta lift_res_def Let_def)
  qed
qed

lemma ProcessSchedule_ok:
  assumes "upgrade_frame k" "voting_ok s"
  shows "voting_ok (snd (ProcessSchedule k d t s))"
proof (cases "vt_current s")
  case (Some p)
  then show ?thesis
    using assms(2) EndProposal_voting_ok[OF assms(1), of p _ s p]
    unfolding voting_ok_def[of s] by (auto simp: ProcessSchedule_def GetCurrentProposal_def votes_ok_def)
qed (simp add: ProcessSchedule_def GetCurrentProposal_def assms)

lemma voting_hook_cases:
  assumes "voting_hooks k others n = Some h"
  obtains "h = ProcessSchedule k" | "h = EndPollHandler" | "others n = Some h"
  using assms unfolding voting_hooks_def
  by (cases "n = PollHookName"; cases "n = VoteHookName") simp_all

text \<open>The hooks of the module as clients of the scheduler.\<close>

interpretation voting_run: hook_invariant "voting_hooks k others"
  "\<lambda>s. upgrade_frame k \<and> others_frame others \<longrightarrow> voting_ok s" for k others
proof
  show "upgrade_frame k \<and> others_frame others \<longrightarrow> voting_ok (snd (h d t s))"
    if hook: "voting_hooks k others n = Some h" and ok: "upgrade_frame k \<and> others_frame others \<longrightarrow> voting_ok s" for n h s d t
  proof (intro impI)
    assume f: "upgrade_frame k \<and> others_frame others"
    show "voting_ok (snd (h d t s))"
      using hook
    proof (cases rule: voting_hook_cases)
      case 3
      then have "voting_part (snd (h d t s)) = voting_part s" using f by (auto simp: others_frame_def)
      then show ?thesis using voting_ok_part f ok by blast
    qed (use f ok in \<open>simp_all add: ProcessSchedule_ok EndPollHandler_def EndPoll_ok\<close>)
  qed
  show "upgrade_frame k \<and> others_frame others \<longrightarrow> voting_ok (s\<lparr>sched_store := sched_store s |` A\<rparr>)"
    if "upgrade_frame k \<and> others_frame others \<longrightarrow> voting_ok s" for s A
    using that voting_ok_part[of "s\<lparr>sched_store := sched_store s |` A\<rparr>" s] by (simp add: voting_part_def)
qed

lemma voting_step_ok:
  assumes "voting_step k others s t" "upgrade_frame k" "others_frame others" "voting_ok s"
  shows "voting_ok t"
  using assms(1)
proof cases
  case step_block
  then show ?thesis
    using voting_run.PerformSchedule_keeps[of k others s] assms by (simp add: sched_BeginBlocker_def)
qed (use assms in \<open>blast intro: Propose_ok Vote_ok StartPoll_ok Answer_ok voting_ok_part\<close>)+

section \<open>Example\<close>

text \<open>A keeper whose addresses may be written in capitals, and a context with two governors.\<close>

definition cap_sdk :: sdk where
  "cap_sdk = ref_sdk\<lparr>AccAddressFromBech32 := (\<lambda>x.
     if take 5 x = ''artr1'' \<or> take 5 x = ''ARTR1'' then Some (drop 5 x) else None)\<rparr>"

definition ex_vk :: "unit voting_keeper" where
  "ex_vk = \<lparr>vk_bank = plain_bank cap_sdk,
     vk_noding = \<lparr>nk_bank = plain_bank cap_sdk, nk_keys = ex_keys, nk_sort = (\<lambda>before xs. xs),
       nk_feeCollectorName = ''fee_collector'', nk_splittableFeeCollectorName = ''splittable_fee_collector''\<rparr>,
     vk_profile = plain_prof cap_sdk,
     vk_ScheduleUpgrade = (\<lambda>plan s. (Ok (), s)), vk_ClearUpgradePlan = (\<lambda>s. s), vk_paginate = (\<lambda>page limit xs. xs)\<rparr>"

definition ex_vctx :: "string list \<Rightarrow> voting_ctx" where
  "ex_vctx gov = \<lparr>block_time = 1000, block_height = 7, events = [], sched_params_store = None, sched_store = Map.empty,
     accounts = {}, balances = Map.empty, total_supply = Some [], bank_params_store = None,
     denom_metadata = Map.empty, ref_store = Map.empty, ref_index = {}, ref_params_store = None,
     nod_store = Map.empty, nod_operators = Map.empty, nod_proposers = Map.empty, nod_lottery = Map.empty,
     nod_params_store = None, nod_index_marked = True, prof_store = Map.empty, prof_aliases = Map.empty,
     prof_cards = Map.empty, prof_params_store = None, prof_index_marked = True, earn_store = Map.empty,
     earn_params_store = None, deleg_store = Map.empty, deleg_params_store = None,
     vt_params_store = Some voting_DefaultParams, vt_government = gov, vt_current = None, vt_agreed = [],
     vt_disagreed = [], vt_start_block = None, vt_history = Map.empty, vt_poll = None, vt_answers = Map.empty,
     vt_yes = None, vt_no = None, vt_poll_history = Map.empty\<rparr>"

definition ex_proposal :: "string \<Rightarrow> proposal_type \<Rightarrow> proposal_args option \<Rightarrow> proposal" where
  "ex_proposal author t args = \<lparr>prop_Name = ''name'', prop_Author = author, prop_Type = t, EndBlock = 0,
     prop_EndTime = None, Args = args\<rparr>"

lemma ex_vctx_sel [simp]:
  "vt_government (ex_vctx g) = g" "vt_current (ex_vctx g) = None" "vt_agreed (ex_vctx g) = []"
  "vt_disagreed (ex_vctx g) = []" "vt_poll (ex_vctx g) = None" "vt_answers (ex_vctx g) = Map.empty"
  "vt_yes (ex_vctx g) = None" "vt_no (ex_vctx g) = None" "block_time (ex_vctx g) = 1000"
  "vt_params_store (ex_vctx g) = Some voting_DefaultParams" "sched_store (ex_vctx g) = Map.empty"
  by (simp_all add: ex_vctx_def)

lemma ex_vk_sel [simp]:
  "AccString (vk_sdk ex_vk) a = ''artr1'' @ a" "msg_address (vk_sdk ex_vk) (CHR ''a'' # CHR ''r'' # CHR ''t'' # CHR ''r'' # CHR ''1'' # x) = Ok x"
  "msg_address (vk_sdk ex_vk) (CHR ''A'' # CHR ''R'' # CHR ''T'' # CHR ''R'' # CHR ''1'' # x) = Ok x"
  by (simp_all add: ex_vk_def cap_sdk_def ref_sdk_def msg_address_def)

lemma ex_upgrade_frame: "upgrade_frame ex_vk"
  by (simp add: upgrade_frame_def ex_vk_def)

lemma ex_others_frame: "others_frame Map.empty"
  by (simp add: others_frame_def)

lemma ex_key_ok: "key_ok (1000 + hours (VotingPeriod (voting_GetParams (ex_vctx g))))"
  by (simp add: voting_GetParams_def voting_DefaultParams_def voting_NewParams_def DefaultVotingPeriod_def hours_def
      Hour_def wrap64_def key_ok_def year_2263_def)

section \<open>Properties\<close>

lemma voting_run_ok:
  assumes "upgrade_frame k" "others_frame others" "(voting_step k others)\<^sup>*\<^sup>* s t" "voting_ok s"
  shows "voting_ok t"
  using assms(3,4) by (induction rule: rtranclp_induct) (blast intro: voting_step_ok assms(1,2))+

definition fresh_voting :: "'s voting_ctx_scheme \<Rightarrow> bool" where
  "fresh_voting s \<longleftrightarrow> vt_current s = None \<and> vt_agreed s = [] \<and> vt_disagreed s = [] \<and> vt_poll s = None
     \<and> vt_answers s = Map.empty \<and> vt_yes s = None \<and> vt_no s = None"

lemma fresh_voting_ok: "fresh_voting s \<Longrightarrow> voting_ok s"
  by (simp add: fresh_voting_def voting_ok_def votes_ok_def poll_ok_def answered_def counted_def)

lemma pending_incomplete:
  assumes "voting_ok s" "vt_current s = Some p"
  shows "length (vt_agreed s @ vt_disagreed s) < length (vt_government s)"
proof -
  have v: "distinct (vt_agreed s @ vt_disagreed s)" "set (vt_agreed s @ vt_disagreed s) \<subseteq> set (vt_government s)"
    "length (vt_agreed s @ vt_disagreed s) \<noteq> length (vt_government s)"
    using assms by (simp_all add: voting_ok_def votes_ok_def)
  have "length (vt_agreed s @ vt_disagreed s) = card (set (vt_agreed s @ vt_disagreed s))"
    using v(1) by (simp only: distinct_card)
  also have "\<dots> \<le> card (set (vt_government s))" by (rule card_mono[OF _ v(2)]) simp
  also have "\<dots> \<le> length (vt_government s)" by (rule card_length)
  finally show ?thesis using v(3) by simp
qed

text \<open>C3. Votes and answers are counted right at all times. From a store without proposal and poll,
  and through any sequence of proposals (by authors who write their address the usual way), votes,
  polls, answers, blocks and steps of other modules: no governor has two votes, only governors of
  the government at hand have one, there is no vote without a proposal, a pending proposal always
  lacks somebody's vote, and the two counters of a poll are the numbers of its answers
  (as 64-bit integers).\<close>

theorem voting_counts_votes:
  assumes "upgrade_frame k" "others_frame others" "fresh_voting s" "(voting_step k others)\<^sup>*\<^sup>* s t"
  shows "distinct (vt_agreed t @ vt_disagreed t) \<and> set (vt_agreed t @ vt_disagreed t) \<subseteq> set (GetGovernment t)
    \<and> (GetCurrentProposal t = None \<longrightarrow> GetAgreed t = [] \<and> GetDisagreed t = [])
    \<and> (GetCurrentProposal t \<noteq> None \<longrightarrow> length (GetAgreed t) + length (GetDisagreed t) < length (GetGovernment t))
    \<and> GetPollStatus t = (of_nat (card {a. vt_answers t a = Some True}), of_nat (card {a. vt_answers t a = Some False}))"
proof -
  have ok: "voting_ok t" by (rule voting_run_ok[OF assms(1,2,4) fresh_voting_ok[OF assms(3)]])
  show ?thesis
    using ok pending_incomplete[OF ok] by (cases "vt_current t") (simp_all add: voting_ok_def votes_ok_def poll_ok_def
        answered_def GetGovernment_def GetCurrentProposal_def GetAgreed_def GetDisagreed_def GetPollStatus_def)
qed

lemma ex_fresh: "fresh_voting (ex_vctx g)"
  by (simp add: fresh_voting_def)

definition ex_amnesty :: proposal where
  "ex_amnesty = ex_proposal ''artr1g'' PROPOSAL_TYPE_GENERAL_AMNESTY None"

definition ex_pending :: voting_ctx where
  "ex_pending = snd (Propose ex_vk ex_amnesty (ex_vctx [''artr1g'', ''artr1h'']))"

lemma ex_pending_run: "Propose ex_vk ex_amnesty (ex_vctx [''artr1g'', ''artr1h'']) = (Ok (), ex_pending)"
  and ex_pending_current: "\<exists>p. vt_current ex_pending = Some p"
  and ex_pending_lists: "vt_agreed ex_pending = [''artr1g'']" "vt_government ex_pending = [''artr1g'', ''artr1h'']"
  by (simp_all add: ex_pending_def Propose_def GetCurrentProposal_def ex_amnesty_def ex_proposal_def lift_res_def Let_def
      GetGovernment_def ScheduleEnding_def ScheduleTask_def scheduleTask_def Key_ok ex_key_ok SetDisagreed_def SetAgreed_def
      SetCurrentProposal_def voting_Validate_def SetStartBlock_def emit_def cong: and_then_weak)

theorem voting_counts_votes_witness:
  "distinct (vt_agreed ex_pending @ vt_disagreed ex_pending)
    \<and> length (GetAgreed ex_pending) + length (GetDisagreed ex_pending) < 2"
proof -
  have "voting_step ex_vk Map.empty (ex_vctx [''artr1g'', ''artr1h'']) ex_pending"
    by (rule step_propose[OF ex_pending_run]) (simp_all add: ex_amnesty_def ex_proposal_def)
  then show ?thesis
    using voting_counts_votes[OF ex_upgrade_frame ex_others_frame ex_fresh r_into_rtranclp] ex_pending_current
    by (fastforce simp: GetCurrentProposal_def GetGovernment_def ex_pending_lists)
qed



text \<open>What a proposal starts with.\<close>

definition proposed_state :: "proposal \<Rightarrow> (int \<rightharpoonup> task list) \<Rightarrow> 's voting_ctx_scheme \<Rightarrow> 's voting_ctx_scheme" where
  "proposed_state p m s = emit (EventProposalCreated p) (SetStartBlock
     ((SetDisagreed [] (SetAgreed [prop_Author p] (SetCurrentProposal p s)))\<lparr>sched_store := m\<rparr>))"

lemma proposed_state_simps [simp]:
  "vt_current (proposed_state p m s) = Some p" "vt_agreed (proposed_state p m s) = [prop_Author p]"
  "vt_disagreed (proposed_state p m s) = []" "vt_government (proposed_state p m s) = vt_government s"
  "vt_start_block (proposed_state p m s) = Some (block_height s)"
  by (simp_all add: proposed_state_def SetStartBlock_def SetDisagreed_def SetAgreed_def SetCurrentProposal_def emit_def)

lemma Propose_runs:
  assumes "vt_current s = None" "msg_address (vk_sdk k) (prop_Author p) = Ok a" "AccString (vk_sdk k) a \<in> set (vt_government s)"
    and e: "e = block_time s + hours (VotingPeriod (voting_GetParams s))" "key_ok e"
  shows "\<exists>m. Propose k p s = (case voting_Validate (vt_government s) [prop_Author p] [] of (all_voted, agree) \<Rightarrow>
     if all_voted then EndProposal k (p\<lparr>prop_EndTime := Some e\<rparr>) agree (proposed_state (p\<lparr>prop_EndTime := Some e\<rparr>) m s)
     else (Ok (), proposed_state (p\<lparr>prop_EndTime := Some e\<rparr>) m s))"
proof -
  let ?s = "SetDisagreed [] (SetAgreed [prop_Author p] (SetCurrentProposal (p\<lparr>prop_EndTime := Some e\<rparr>) s))"
  have "ScheduleEnding e ?s = (Ok (), ?s\<lparr>sched_store := (sched_store ?s)(e \<mapsto> bucket ?s e @
      [\<lparr>task_time = e, HandlerName = VoteHookName, Data = []\<rparr>])\<rparr>)"
    by (simp add: ScheduleEnding_def ScheduleTask_def scheduleTask_def Key_ok e(2) lift_res_def)
  then show ?thesis
    using assms(1-3) e(1)
    by (intro exI[of _ "(sched_store ?s)(e \<mapsto> bucket ?s e @ [\<lparr>task_time = e, HandlerName = VoteHookName, Data = []\<rparr>])"])
      (simp add: Propose_def GetCurrentProposal_def lift_res_def GetGovernment_def Let_def proposed_state_def split_beta)
qed

lemma EndPoll_government:
  "vt_government (snd (EndPoll s)) = vt_government s" "vt_current (snd (EndPoll s)) = vt_current s"
  by (auto simp: EndPoll_def Let_def lift_res_def emit_def and_then_eq split_beta split: option.splits res.splits)

interpretation empty_run: hook_invariant "voting_hooks k others"
  "\<lambda>s. others_frame others \<longrightarrow> vt_government s = [] \<and> vt_current s = None" for k others
proof
  show "others_frame others \<longrightarrow> vt_government (snd (h d t s)) = [] \<and> vt_current (snd (h d t s)) = None"
    if hook: "voting_hooks k others n = Some h" and ok: "others_frame others \<longrightarrow> vt_government s = [] \<and> vt_current s = None"
    for n h s d t
    using hook
  proof (cases rule: voting_hook_cases)
    case 3
    then show ?thesis using ok voting_part_eq[of "snd (h d t s)" s] by (auto simp: others_frame_def)
  qed (use ok in \<open>simp_all add: ProcessSchedule_def GetCurrentProposal_def EndPollHandler_def EndPoll_government\<close>)
qed simp

lemma empty_government_step:
  assumes "voting_step k others s t" "others_frame others" "vt_government s = []" "vt_current s = None"
  shows "vt_government t = [] \<and> vt_current t = None"
  using assms(1)
proof cases
  case (step_propose p a)
  then show ?thesis using assms by (simp add: Propose_def GetCurrentProposal_def lift_res_def GetGovernment_def Let_def)
next
  case (step_vote a agree)
  then show ?thesis using assms by (simp add: Vote_def GetCurrentProposal_def Let_def)
next
  case (step_start q)
  then show ?thesis using assms by (simp add: StartPoll_def GetGovernment_def split: if_splits)
next
  case (step_answer acc yes)
  then show ?thesis
    using assms by (auto simp: Answer_def and_then_Ok_iff lift_res_def count_answer_def Let_def split: option.splits if_splits)
next
  case step_block
  then show ?thesis
    using empty_run.PerformSchedule_keeps[of others s k] assms by (simp add: sched_BeginBlocker_def)
next
  case step_other
  then show ?thesis using assms voting_part_eq[of t s] by simp
qed



text \<open>C25. A governor can vote twice. The author of a proposal is kept as the text of the message,
  and a vote is looked up by the usual text of its address; when the author wrote the address
  differently (bech32 allows capitals), its vote as a voter is taken as well. In a government
  of two this alone decides: the proposal is agreed, its two votes both of its author, without
  the other governor.\<close>

theorem governor_votes_twice:
  assumes "GetGovernment s = [g, h]" "GetCurrentProposal s = None"
    and x: "msg_address (vk_sdk k) x = Ok a" "AccString (vk_sdk k) a = g" "x \<noteq> g" "prop_Author p = x"
    and e: "key_ok (block_time s + hours (VotingPeriod (voting_GetParams s)))"
  shows "\<exists>t q r m u. Propose k p s = (Ok (), t)
    \<and> Vote k a True t = logged (apply_proposal k q (ended_state q True r m u))
    \<and> prop_Type q = prop_Type p \<and> Args q = Args p \<and> hr_Agreed r = [x, g] \<and> hr_Disagreed r = []"
proof -
  let ?e = "block_time s + hours (VotingPeriod (voting_GetParams s))"
  let ?p = "p\<lparr>prop_EndTime := Some ?e\<rparr>"
  have s: "vt_government s = [g, h]" "vt_current s = None"
    using assms(1,2) by (simp_all add: GetGovernment_def GetCurrentProposal_def)
  obtain m where P: "Propose k p s = (Ok (), proposed_state ?p m s)"
    using Propose_runs[OF s(2) _ _ refl e, of k p a] s x by (auto simp: voting_Validate_def)
  let ?t = "proposed_state ?p m s"
  let ?u = "emit (EventProposalVote k a True) (SetAgreed [x, g] ?t)"
  have u: "vt_current ?u = Some ?p" "vt_start_block ?u = Some (block_height s)" "vt_agreed ?u = [x, g]" "vt_disagreed ?u = []"
    by (simp_all add: emit_def SetAgreed_def)
  have "Vote k a True ?t = EndProposal k ?p True ?u"
    using s x by (simp add: Vote_def GetGovernment_def GetAgreed_def GetDisagreed_def GetCurrentProposal_def Let_def
        voting_Validate_def)
  moreover obtain m' where "EndProposal k ?p True ?u
      = logged (apply_proposal k ?p (ended_state ?p True (ended_record ?p (block_height s) ?u) m' ?u))"
    using EndProposal_runs[of ?p ?e ?u ?p "block_height s" k True] u e by auto
  ultimately have V: "Vote k a True ?t
      = logged (apply_proposal k ?p (ended_state ?p True (ended_record ?p (block_height s) ?u) m' ?u))"
    by simp
  have r: "hr_Agreed (ended_record ?p (block_height s) ?u) = [x, g]" "hr_Disagreed (ended_record ?p (block_height s) ?u) = []"
    using u by (simp_all add: ended_record_def)
  show ?thesis
    by (intro exI conjI, rule P, rule V) (simp_all add: r)
qed

theorem governor_votes_twice_witness:
  "\<exists>t u. Propose ex_vk (ex_proposal ''ARTR1g'' PROPOSAL_TYPE_GOVERNMENT_REMOVE (Some (A_Address ''artr1h'')))
       (ex_vctx [''artr1g'', ''artr1h'']) = (Ok (), t) \<and> Vote ex_vk ''g'' True t = (Ok (), u)"
proof -
  let ?p = "ex_proposal ''ARTR1g'' PROPOSAL_TYPE_GOVERNMENT_REMOVE (Some (A_Address ''artr1h''))"
  have "key_ok (block_time (ex_vctx [''artr1g'', ''artr1h'']) + hours (VotingPeriod (voting_GetParams (ex_vctx [''artr1g'', ''artr1h'']))))"
    using ex_key_ok by simp
  then obtain t q r m u where run: "Propose ex_vk ?p (ex_vctx [''artr1g'', ''artr1h'']) = (Ok (), t)"
      "Vote ex_vk ''g'' True t = logged (apply_proposal ex_vk q (ended_state q True r m u))"
      "prop_Type q = prop_Type ?p" "Args q = Args ?p"
    using governor_votes_twice[of "ex_vctx [''artr1g'', ''artr1h'']" "''artr1g''" "''artr1h''" ex_vk "''ARTR1g''" "''g''" ?p]
    by (auto simp: GetGovernment_def GetCurrentProposal_def ex_proposal_def)
  have "apply_proposal ex_vk q (ended_state q True r m u) = (Ok (), RemoveGovernor ex_vk ''h'' (ended_state q True r m u))"
    using run(3,4) by (simp add: ex_proposal_def apply_proposal_def Let_def with_arg_def arg_address_def lift_res_def)
  then show ?thesis using run(1,2) by auto
qed

end
