(* ===== verification/Referral_View.thy ===== *)
theory Referral_View
  imports Referral_Props
begin

text \<open>
  What the operations of \<open>x/referral\<close> leave alone. A \<open>view\<close> is a part of the state that neither
  the referral records and their index nor the tasks of the module nor the events belong to. When the callbacks of
  statuses and stakes keep a view, so do the hook of the bank and the switches of activity.
\<close>

text \<open>The tasks the module schedules and deletes.\<close>

definition tree_tasks :: "string set" where
  "tree_tasks = {StatusDowngradeHookName, CompressionHookName, TransitionTimeoutHookName, BanishHookName}"

lemma tree_tasks_mem [simp]:
  "StatusDowngradeHookName \<in> tree_tasks" "CompressionHookName \<in> tree_tasks" "BanishHookName \<in> tree_tasks"
  by (simp_all add: tree_tasks_def)

text \<open>Scheduling and deleting write to the store of the scheduler only.\<close>

lemma ScheduleTask_writes: "\<exists>m. snd (ScheduleTask t n d s) = s\<lparr>sched_store := m\<rparr>"
proof -
  have "\<exists>m. s = s\<lparr>sched_store := m\<rparr>" by (rule exI[of _ "sched_store s"]) simp
  then show ?thesis
    by (auto simp: ScheduleTask_def scheduleTask_def lift_res_def and_then_eq split: res.splits)
qed

lemma Delete_writes: "\<exists>m. snd (Delete t n d s) = s\<lparr>sched_store := m\<rparr>"
proof -
  have "\<exists>m. s = s\<lparr>sched_store := m\<rparr>" by (rule exI[of _ "sched_store s"]) simp
  then show ?thesis
    by (auto simp: Delete_def sched_delete_def lift_res_def and_then_eq Let_def split: res.splits option.splits)
qed

lemma writes_view:
  assumes "\<And>m. view (s\<lparr>sched_store := m\<rparr>) = view s"
  shows "view (snd (ScheduleTask t n d s)) = view s" "view (snd (Delete t n d s)) = view s"
  using ScheduleTask_writes[of t n d s] Delete_writes[of t n d s] assms by metis+

text \<open>An updater that has kept a view, and will call callbacks of statuses and stakes only.\<close>

definition calm :: "('s ref_ctx_scheme \<Rightarrow> 'v) \<Rightarrow> 'v \<Rightarrow> 's bu_st \<Rightarrow> bool" where
  "calm view m st \<longleftrightarrow> view (fst st) = m \<and> (\<forall>cb\<in>set (bu_callbacks (snd st)). tree_event (fst cb))"

named_theorems calm_intros

lemma lift_res_snd [simp]: "snd (lift_res r st) = st"
  by (simp add: lift_res_def)

locale ref_view =
  fixes view :: "'s ref_ctx_scheme \<Rightarrow> 'v"
  assumes view_events: "view (s\<lparr>events := es\<rparr>) = view s"
    and view_ScheduleTask: "n \<in> tree_tasks \<Longrightarrow> view (snd (ScheduleTask t n d s)) = view s"
    and view_Delete: "n \<in> tree_tasks \<Longrightarrow> view (snd (Delete t n d s)) = view s"
    and view_store: "view (s\<lparr>ref_store := r\<rparr>) = view s"
    and view_index: "view (s\<lparr>ref_index := i\<rparr>) = view s"
begin

lemma view_emit [simp]: "view (emit e s) = view s"
  using view_events by (simp add: emit_def)

declare view_ScheduleTask [simp] view_Delete [simp]

lemma calm_new [calm_intros]: "calm view (view s) (s, newBunchUpdater)"
  by (simp add: calm_def newBunchUpdater_def)

lemma calm_and_then [calm_intros]:
  "calm view m (snd r) \<Longrightarrow> (\<And>v st. r = (Ok v, st) \<Longrightarrow> calm view m st \<Longrightarrow> calm view m (snd (f v st))) \<Longrightarrow> calm view m (snd (and_then r f))"
  by (cases r; cases "fst r") auto

lemma calm_addCallback [calm_intros]: "calm view m st \<Longrightarrow> tree_event e \<Longrightarrow> calm view m (addCallback e a st)"
  by (auto simp: calm_def addCallback_def)

lemma calm_on_ctx [calm_intros]:
  "calm view m st \<Longrightarrow> view (snd (f (fst st))) = view (fst st) \<Longrightarrow> calm view m (snd (on_ctx f st))"
  by (simp add: calm_def on_ctx_def)

lemma calm_emit [simp]: "calm view m (emit e s, b) = calm view m (s, b)"
  by (simp add: calm_def)

lemma view_scheduleBanishment [simp]: "view (snd (scheduleBanishment acc v s)) = view s"
  by (simp add: scheduleBanishment_def Let_def and_then_eq split: res.split)

lemma calm_change_status [calm_intros]: "calm view m st \<Longrightarrow> calm view m (snd (change_status a v x st))"
  by (auto simp: calm_def change_status_def Let_def setStatus_def addCallback_def view_index)

lemma calm_cancel_downgrade [calm_intros]: "calm view m st \<Longrightarrow> calm view m (snd (cancel_downgrade a v st))"
  by (simp add: cancel_downgrade_def calm_def)

lemma calm_downgrade_later [calm_intros]: "calm view m st \<Longrightarrow> calm view m (snd (downgrade_later a v st))"
  by (auto simp: downgrade_later_def Let_def intro!: calm_intros)

lemma calm_promote [calm_intros]: "calm view m st \<Longrightarrow> calm view m (snd (promote a v st))"
  by (auto simp: promote_def intro!: calm_intros)

lemma calm_status_update [calm_intros]: "calm view m st \<Longrightarrow> calm view m (snd (status_update a v st))"
  by (auto simp: status_update_def upgrade_now_def Let_def intro!: calm_intros)

lemma calm_bu_set [calm_intros]: "calm view m st \<Longrightarrow> calm view m (bu_set a v st)"
  by (simp add: calm_def bu_set_def)

lemma calm_bu_update [calm_intros]:
  "(\<And>v. calm view m (snd (cb v st))) \<Longrightarrow> calm view m (snd (bu_update a check cb st))"
  by (auto simp: bu_update_def intro!: calm_intros)

lemma calm_walk_up [calm_intros]:
  assumes "\<And>a st. calm view m st \<Longrightarrow> calm view m (note a st)"
  shows "calm view m st \<Longrightarrow> calm view m (snd (walk_up f check note lvls anc st))"
  by (induction lvls arbitrary: anc st) (auto intro!: calm_intros assms)

lemma calm_note_stake [calm_intros]: "calm view m st \<Longrightarrow> calm view m (note_stake cb a st)"
  by (auto simp: note_stake_def intro!: calm_intros)

lemma calm_credit_levels [calm_intros]: "calm view m st \<Longrightarrow> calm view m (snd (credit_levels cb c d lvls anc st))"
  unfolding credit_levels_def by (intro calm_intros)

lemma calm_obc_come_back [calm_intros]: "calm view m st \<Longrightarrow> calm view m (snd (obc_come_back k acc v st))"
  by (auto simp: obc_come_back_def attach_def Let_def intro!: calm_intros)

lemma calm_obc_stake [calm_intros]: "calm view m st \<Longrightarrow> calm view m (snd (obc_stake k acc nd v st))"
  by (auto simp: obc_stake_def split: option.split intro!: calm_intros)

lemma calm_obc_self [calm_intros]: "calm view m st \<Longrightarrow> calm view m (snd (obc_self k acc v st))"
  by (auto simp: obc_self_def Let_def intro!: calm_intros)

end

section \<open>The callbacks and the hook of the bank\<close>

locale view_callbacks = tree_callbacks k + ref_view view
  for k :: "'s ref_keeper" and view :: "'s ref_ctx_scheme \<Rightarrow> 'v" +
  assumes hook_view: "(e, h) \<in> set (rk_hooks k) \<Longrightarrow> tree_event e \<Longrightarrow> view (snd (h a s)) = view s"
begin

lemma callback_view:
  assumes "tree_event e"
  shows "view (snd (callback k e acc s)) = view s"
  unfolding callback_def
proof (rule keeps_for_each[where P = "\<lambda>s'. view s' = view s"])
  fix h and s' :: "'s ref_ctx_scheme"
  assume "h \<in> set (map snd (filter (\<lambda>h. fst h = e) (rk_hooks k)))" and s: "view s' = view s"
  then have "(e, h) \<in> set (rk_hooks k)" by auto
  from hook_view[OF this assms] s
  show "view (snd (case AccAddressFromBech32 (rk_sdk k) acc of
      None \<Rightarrow> (Err (Text ''invalid account address''), s') | Some a \<Rightarrow> h a s')) = view s"
    by (simp split: option.split)
qed simp

lemma view_write_data [simp]: "view (write_data ds s) = view s"
proof -
  have "view (fold (\<lambda>d. ref_set (fst d) (snd d)) ds s) = view s" for s :: "'s ref_ctx_scheme"
    by (induction ds arbitrary: s) (simp_all add: ref_set_def view_store)
  then show ?thesis by (simp add: write_data_def)
qed

lemma commit_view:
  assumes "calm view m st"
  shows "view (snd (bu_commit k st)) = m"
  unfolding bu_commit_def
proof (rule keeps_for_each[where P = "\<lambda>s. view s = m"])
  fix cb and s :: "'s ref_ctx_scheme"
  assume "cb \<in> set (remdups_adj (sort_key snd (sort_key fst (bu_callbacks (snd st)))))" "view s = m"
  then show "view (snd (callback k (fst cb) (snd cb) s)) = m"
    using assms callback_view by (auto simp: calm_def)
qed (use assms in \<open>simp add: calm_def\<close>)

lemma commit_after_view:
  assumes "calm view m (snd r)"
  shows "view (snd (commit_after k r)) = m"
proof -
  obtain v st where r: "r = (v, st)" by (cases r)
  show ?thesis using assms commit_view[of m st]
    by (cases v) (auto simp: r commit_after_def and_then_eq calm_def split: res.split)
qed

lemma OnBalanceChanged_view: "view (snd (OnBalanceChanged k acc s)) = view s"
proof -
  let ?r = "bu_update acc True (obc_self k acc) (s, newBunchUpdater)"
  have r: "calm view (view s) (snd ?r)" by (intro calm_intros)
  obtain v st where st: "?r = (v, st)" by (cases ?r)
  show ?thesis
  proof (cases v)
    case (Ok x)
    obtain node banished dc dd where x: "x = (node, banished, dc, dd)" by (cases x)
    have "calm view (view s) (snd (if banished then (Ok (), st) else credit_levels (dd \<noteq> 0) dc dd [1..<11] node st))"
      using r st by (auto intro!: calm_intros)
    from commit_after_view[OF this] show ?thesis by (simp add: OnBalanceChanged_def st Ok x)
  qed (use r st in \<open>simp_all add: OnBalanceChanged_def calm_def\<close>)
qed

text \<open>The switches of activity.\<close>

lemma calm_set_active_self [calm_intros]: "calm view m st \<Longrightarrow> calm view m (snd (set_active_self acc v x st))"
  by (auto simp: set_active_self_def Let_def split: bool.split option.split intro!: calm_intros)

lemma calm_set_active_levels [calm_intros]:
  "calm view m st \<Longrightarrow> calm view m (snd (set_active_levels acc v check lvls anc st))"
  unfolding set_active_levels_def by (intro calm_intros)

lemma SetActive_view: "view (snd (SetActive k acc value check s)) = view s"
proof -
  let ?r = "bu_update acc False (set_active_self acc value) (s, newBunchUpdater)"
  have r: "calm view (view s) (snd ?r)" by (intro calm_intros)
  obtain v st where st: "?r = (v, st)" by (cases ?r)
  show ?thesis
  proof (cases v)
    case (Ok x)
    obtain set parent where x: "x = (set, parent)" by (cases x)
    let ?c = "and_then (set_active_levels acc value check [1..<11] parent st) (\<lambda>_ st.
      if parent \<noteq> [] \<and> \<not> value
      then on_ctx (\<lambda>s. ScheduleCompression acc (block_time s + CompressionPeriod s) s) st else (Ok (), st))"
    have "calm view (view s) (snd ?c)"
      using r st by (auto simp: ScheduleCompression_def intro!: calm_intros)
    from commit_after_view[OF this] show ?thesis using r by (simp add: SetActive_def st Ok x calm_def)
  qed (use r st in \<open>simp_all add: SetActive_def calm_def\<close>)
qed

lemma MustSetActive_view: "view (snd (MustSetActive k acc v s)) = view s"
  using SetActive_view[of acc v True s] by (cases "SetActive k acc v True s"; cases "fst (SetActive k acc v True s)") (auto simp: MustSetActive_def)

text \<open>A new account.\<close>

lemma calm_appendChild_core [calm_intros]:
  "calm view m st \<Longrightarrow> calm view m (snd (appendChild_core p c skip cs d item st))"
  by (auto simp: appendChild_core_def Let_def tree_event_def intro!: calm_intros)

lemma AppendChild_view: "view (snd (AppendChild k p c s)) = view s"
proof -
  have "view (snd (with_bu k (appendChild_core p c skip cs d item) s)) = view s" for skip cs d item
    unfolding with_bu_def
    by (rule commit_after_view) (intro calm_intros)
  then show ?thesis
    by (auto simp: AppendChild_def appendChild_def Let_def and_then_eq lift_res_def split: res.split)
qed

end

end
