(* ===== verification/App.thy ===== *)
theory App
  imports Delegating_Props Voting_Props Profile_Services Referral_View
begin

text \<open>
  How \<open>app/app.go\<close> puts the modules together: \<open>x/bank\<close> tells \<open>x/referral\<close> of every balance it
  writes, and \<open>x/referral\<close> tells \<open>x/noding\<close> of statuses and stakes and \<open>x/delegating\<close> of
  banishments. The keepers refer to each other in a circle, so they are built to a depth: at
  depth 0 a callback is the panic \<open>out_of_fuel\<close>. A banishment revokes the delegation, that
  changes balances, a balance changes statuses and stakes, and there the calls end; depth 3 is
  enough.
\<close>

section \<open>The keepers\<close>

definition update_referral ::
    "'s ref_keeper \<Rightarrow> addr \<Rightarrow> 's ref_ctx_scheme \<Rightarrow> unit res \<times> 's ref_ctx_scheme" where
  "update_referral k a s = OnBalanceChanged k (AccString (rk_sdk k) a) s"

text \<open>The libraries the application is built from.\<close>

record app_lib =
  al_sdk :: sdk
  al_module_addr :: "string \<rightharpoonup> addr"
  al_perm :: "string \<Rightarrow> string \<Rightarrow> bool"
  al_keys :: key_lib
  al_sort_nodes :: "(addr \<times> nod_info \<Rightarrow> addr \<times> nod_info \<Rightarrow> bool) \<Rightarrow> (addr \<times> nod_info) list \<Rightarrow> (addr \<times> nod_info) list"
  al_sort_requests :: "(revoke_request \<Rightarrow> revoke_request \<Rightarrow> bool) \<Rightarrow> revoke_request list \<Rightarrow> revoke_request list"
  al_fuel :: nat

definition app_bank_over :: "app_lib \<Rightarrow> 's ref_keeper \<Rightarrow> 's ref_ctx_ext bank_keeper" where
  "app_bank_over L k = \<lparr>bk_sdk = al_sdk L, bk_module_addr = al_module_addr L, bk_perm = al_perm L,
     bk_blockedAddrs = (\<lambda>a. False), bk_setCoinHooks = [(''update-referral'', update_referral k)]\<rparr>"

definition app_noding_over :: "app_lib \<Rightarrow> 's nod_ctx_ext ref_ctx_ext bank_keeper \<Rightarrow> 's nod_keeper" where
  "app_noding_over L b = \<lparr>nk_bank = b, nk_keys = al_keys L, nk_sort = al_sort_nodes L,
     nk_feeCollectorName = ''fee_collector'', nk_splittableFeeCollectorName = SplittableFeeCollectorName\<rparr>"

text \<open>The hooks of \<open>x/referral\<close>, over the bank and the delegating keeper one level below.\<close>

definition app_ref_hooks ::
    "app_lib \<Rightarrow> 's deleg_keeper \<Rightarrow>
     (string \<times> (addr \<Rightarrow> 's deleg_ctx_scheme \<Rightarrow> unit res \<times> 's deleg_ctx_scheme)) list" where
  "app_ref_hooks L dk =
     [(StatusUpdatedCallback, OnStatusUpdate (app_noding_over L (dk_bank dk))),
      (StakeChangedCallback, OnStakeChanged (app_noding_over L (dk_bank dk))),
      (BanishedCallback, OnBanished dk)]"

fun app_ref :: "app_lib \<Rightarrow> nat \<Rightarrow> 's deleg_ctx_ext earn_ctx_ext prof_ctx_ext nod_ctx_ext ref_keeper" where
  "app_ref L 0 = \<lparr>rk_bank = \<lparr>bk_sdk = al_sdk L, bk_module_addr = al_module_addr L, bk_perm = al_perm L,
       bk_blockedAddrs = (\<lambda>a. False), bk_setCoinHooks = [(''update-referral'', \<lambda>a s. (Panic out_of_fuel, s))]\<rparr>,
     rk_hooks = map (\<lambda>e. (e, \<lambda>a s. (Panic out_of_fuel, s))) [StatusUpdatedCallback, StakeChangedCallback, BanishedCallback],
     rk_IsActiveValidator = (\<lambda>a s. Ok (IsActiveValidator a s)), rk_fuel = al_fuel L\<rparr>"
| "app_ref L (Suc n) =
     (let b = app_bank_over L (app_ref L n)
      in \<lparr>rk_bank = b,
          rk_hooks = app_ref_hooks L \<lparr>dk_bank = b, dk_ref = app_ref L n, dk_sort = al_sort_requests L\<rparr>,
          rk_IsActiveValidator = (\<lambda>a s. Ok (IsActiveValidator a s)), rk_fuel = al_fuel L\<rparr>)"

definition app_depth :: nat where "app_depth = 3"

definition app_referral :: "app_lib \<Rightarrow> 's deleg_ctx_ext earn_ctx_ext prof_ctx_ext nod_ctx_ext ref_keeper" where
  "app_referral L = app_ref L app_depth"

definition app_bank :: "app_lib \<Rightarrow> 's deleg_ctx_ext earn_ctx_ext prof_ctx_ext nod_ctx_ext ref_ctx_ext bank_keeper" where
  "app_bank L = app_bank_over L (app_referral L)"

text \<open>The other keepers, and the hooks of the scheduler.\<close>

definition app_delegating :: "app_lib \<Rightarrow> 's deleg_keeper" where
  "app_delegating L = \<lparr>dk_bank = app_bank L, dk_ref = app_referral L, dk_sort = al_sort_requests L\<rparr>"

definition app_noding ::
    "app_lib \<Rightarrow> 's deleg_ctx_ext earn_ctx_ext prof_ctx_ext nod_keeper" where
  "app_noding L = app_noding_over L (app_bank L)"

definition app_profile :: "app_lib \<Rightarrow> text_lib \<Rightarrow> (addr \<Rightarrow> 64 word) \<Rightarrow> 's deleg_ctx_ext earn_ctx_ext prof_keeper" where
  "app_profile L texts number = \<lparr>pk_bank = app_bank L, pk_ref = app_referral L, pk_text = texts, pk_number = number\<rparr>"

definition app_hooks ::
    "app_lib \<Rightarrow> text_lib \<Rightarrow> (addr \<Rightarrow> 64 word) \<Rightarrow> 's voting_keeper \<Rightarrow> 's voting_ctx_scheme hooks" where
  "app_hooks L texts number vk = [
     StatusDowngradeHookName \<mapsto> PerformDowngrade (app_referral L),
     CompressionHookName \<mapsto> PerformCompression (app_referral L),
     TransitionTimeoutHookName \<mapsto> PerformTransitionTimeout,
     RefreshHookName \<mapsto> HandleRenewHook (app_profile L texts number),
     RefreshImHookName \<mapsto> HandleRenewImHook (app_profile L texts number),
     VoteHookName \<mapsto> ProcessSchedule vk,
     PollHookName \<mapsto> EndPollHandler,
     RevokeHookName \<mapsto> MustPerformRevoking (app_delegating L),
     AccrueHookName \<mapsto> MustPerformAccrue (app_delegating L),
     BanishHookName \<mapsto> PerformBanish (app_referral L)]"

section \<open>Balances under the callbacks\<close>

text \<open>What the callbacks of statuses and stakes leave alone: the money.\<close>

definition money :: "'s bank_ctx_scheme \<Rightarrow> (addr \<rightharpoonup> coins) \<times> coins option" where
  "money s = (balances s, total_supply s)"

abbreviation money_callbacks :: "'s ref_keeper \<Rightarrow> bool" where
  "money_callbacks k \<equiv> view_callbacks k money"

section \<open>The hook and the statuses\<close>

text \<open>No record that has a status loses it.\<close>

definition grows :: "'s bu_st \<Rightarrow> 's bu_st \<Rightarrow> bool" where
  "grows st st' \<longleftrightarrow> (\<forall>a. r_Status (bu_get st a) \<le> r_Status (bu_get st' a))"

lemma grows_trans: "grows st st1 \<Longrightarrow> grows st1 st2 \<Longrightarrow> grows st st2"
  unfolding grows_def by (meson order_trans)

lemma promote_grows:
  assumes "promote a v st = (Ok w, st')"
  shows "r_Status v \<le> r_Status w"
proof -
  obtain y where "(if y > r_Status v then (Ok (fst (change_status a v y st)), snd (change_status a v y st))
        else (Ok v, st)) = (Ok w, st')"
    using assms by (auto simp: promote_def and_then_Ok_iff lift_res_def)
  then show ?thesis by (auto simp: change_status_facts split: if_splits)
qed

lemma status_update_grows:
  assumes "status_update a v st = (Ok w, st')"
  shows "r_Status v \<le> r_Status w"
proof -
  define vs where "vs = (if r_Status v = HeroDeprecatedStatus
    then change_status a v (r_Status v + 1) st else (v, st))"
  have v: "r_Status v \<le> r_Status (fst vs)" by (simp add: vs_def change_status_facts)
  obtain c where check: "checkStatusRequirements (r_Status (fst vs)) (fst vs) (bu_get (snd vs)) = Ok c"
    and c: "(if \<not> Overall c then downgrade_later a (fst vs) (snd vs) else upgrade_now a (fst vs) (snd vs)) = (Ok w, st')"
    using assms by (auto simp: status_update_def Let_def and_then_Ok_iff lift_res_def simp flip: vs_def)
  have "r_Status (fst vs) \<le> r_Status w"
  proof (cases "Overall c")
    case False
    then show ?thesis using c by (auto simp: downgrade_later_def Let_def and_then_Ok_iff split: if_splits)
  next
    case True
    have "r_Status (fst (cancel_downgrade a (fst vs) (snd vs))) = r_Status (fst vs)" by (simp add: cancel_downgrade_def)
    then show ?thesis using c True promote_grows by (fastforce simp: upgrade_now_def)
  qed
  with v show ?thesis by simp
qed

lemma bu_update_grows:
  assumes u: "bu_update acc check cb st = (Ok x, st')"
    and cb: "\<And>w st1. cb (Normalize (bu_get st acc)) st = (Ok (x, w), st1) \<Longrightarrow>
      quiet st st1 \<and> r_Status (bu_get st acc) \<le> r_Status w"
  shows "grows st st'"
proof -
  obtain xw st1 where c: "cb (Normalize (bu_get st acc)) st = (Ok xw, st1)"
    and r0: "and_then (if check then status_update acc (snd xw) st1 else (Ok (snd xw), st1))
        (\<lambda>value st. (Ok (fst xw), bu_set acc value st)) = (Ok x, st')"
    using u unfolding bu_update_def recover_err_Ok_iff and_then_Ok_iff[of "cb _ _"] by blast
  obtain v st2 where r: "(if check then status_update acc (snd xw) st1 else (Ok (snd xw), st1)) = (Ok v, st2)"
    "x = fst xw" "st' = bu_set acc v st2"
    using r0 unfolding and_then_Ok_iff by blast
  have q: "quiet st st1 \<and> r_Status (bu_get st acc) \<le> r_Status (snd xw)" by (rule cb) (simp add: c r(2))
  have "quiet st1 st2" "r_Status (snd xw) \<le> r_Status v"
    using r(1) status_update_quiet[of acc "snd xw" st1 v st2] status_update_grows[of acc "snd xw" st1 v st2]
    by (auto split: if_splits)
  then show ?thesis using q quiet_get[of st st1] quiet_get[of st1 st2] by (auto simp: grows_def r(3))
qed

lemma walk_up_grows:
  assumes "walk_up f check note lvls anc st = (Ok (), st')"
    and f: "\<And>l v. r_Status (f l v) = r_Status v" and quiet: "\<And>a st. quiet st (note a st)"
  shows "grows st st'"
  using assms(1)
proof (induction lvls arbitrary: anc st)
  case Nil
  then show ?case by (simp add: grows_def)
next
  case (Cons l lvls)
  show ?case
  proof (cases "anc = []")
    case True
    then show ?thesis using Cons.prems by (simp add: grows_def)
  next
    case False
    then obtain nxt st1 where u: "bu_update anc check (\<lambda>value st. (Ok (r_Referrer value, f l value), note anc st)) st = (Ok nxt, st1)"
      and r: "walk_up f check note lvls nxt st1 = (Ok (), st')"
      using Cons.prems by (auto simp: and_then_Ok_iff)
    have "grows st st1" by (rule bu_update_grows[OF u]) (auto simp: f quiet)
    from grows_trans[OF this Cons.IH[OF r]] show ?thesis .
  qed
qed

context tree_callbacks
begin

lemma OnBalanceChanged_grows:
  assumes "OnBalanceChanged k acc s = (Ok (), s')" "\<not> IsEmpty (ref_Get acc s)" "\<not> r_Banished (ref_Get acc s)"
    "getBalance k acc s = Ok b" "getDelegated k acc s = Ok d"
  shows "r_Status (ref_Get a s) \<le> r_Status (ref_Get a s')"
proof -
  let ?st = "(s, newBunchUpdater)"
  obtain rf bn c' d' st1 where u: "bu_update acc True (obc_self k acc) ?st = (Ok (rf, bn, c', d'), st1)"
    and c: "commit_after k (if bn then (Ok (), st1) else credit_levels (d' \<noteq> 0) c' d' [1..<11] rf st1) = (Ok (), s')"
    using assms(1) obc_update_found[OF assms(2-5)] unfolding OnBalanceChanged_def by (auto split: res_splits if_splits)
  define st2 where "st2 = snd (if bn then (Ok (), st1) else credit_levels (d' \<noteq> 0) c' d' [1..<11] rf st1)"
  have cl: "(if bn then (Ok (), st1) else credit_levels (d' \<noteq> 0) c' d' [1..<11] rf st1) = (Ok (), st2)"
    using commit_after_fst[OF c] by (simp add: st2_def prod_eq_iff)
  have nb: "\<not> r_Banished (Normalize (ref_Get acc s))" "getBalance k acc (fst ?st) = Ok b" "getDelegated k acc (fst ?st) = Ok d"
    using assms(3-5) by simp_all
  have g1: "grows ?st st1"
    by (rule bu_update_grows[OF u]) (use obc_self_Ok[OF _ nb] in \<open>fastforce simp: bu_get_new\<close>)
  have g2: "grows st1 st2"
  proof (cases bn)
    case False
    then have "walk_up (\<lambda>l. credit l c' d') True (note_stake (d' \<noteq> 0)) [1..<11] rf st1 = (Ok (), st2)"
      using cl by (simp add: credit_levels_def)
    then show ?thesis by (rule walk_up_grows) (simp_all add: credit_def)
  qed (use cl in \<open>simp add: grows_def\<close>)
  have "bu_inv st2"
  proof -
    obtain w v t1 where o: "obc_self k acc (Normalize (bu_get ?st acc)) ?st = (Ok ((rf, bn, c', d'), w), t1)"
      and i1: "bu_inv t1 \<Longrightarrow> bu_inv st1"
      using bu_update_Ok[OF u] by metis
    have "quiet ?st t1" by (rule obc_self_Ok(6)[OF o[unfolded bu_get_new] nb])
    then have "bu_inv st1" using i1 by (simp add: quiet_def)
    then show ?thesis using cl credit_levels_spec[of "d' \<noteq> 0" c' d' 1 11 rf st1 st2] by (auto split: if_splits)
  qed
  from commit_after_Ok(3)[OF c[unfolded cl] this] grows_trans[OF g1 g2]
  show ?thesis by (simp add: grows_def bu_get_new)
qed

end

section \<open>What the callbacks leave alone\<close>

text \<open>A part of the state that \<open>x/noding\<close> does not write to is not changed by the callbacks.\<close>

locale nod_view =
  fixes view :: "'s nod_ctx_scheme \<Rightarrow> 'v"
  assumes noding_emit: "view (emit e s) = view s"
    and noding_set: "view (nod_set a d s) = view s"
    and noding_lottery: "view (s\<lparr>nod_lottery := q\<rparr>) = view s"
begin

lemma view_and_then:
  "view (snd r) = m \<Longrightarrow> (\<And>v s. view s = m \<Longrightarrow> view (snd (f v s)) = m) \<Longrightarrow> view (snd (and_then r f)) = m"
  by (cases r; cases "fst r") auto

lemma view_when_queued: "view (snd (when_queued lotteryExclude d s)) = view s"
  by (simp add: when_queued_def lotteryExclude_def noding_lottery)

lemma SwitchOff_view: "view (snd (SwitchOff a s)) = view s"
  by (auto simp: SwitchOff_def nod_update_def noding_emit noding_set view_when_queued
      split: option.splits intro!: view_and_then)

lemma OnStatusUpdate_view: "view (snd (OnStatusUpdate k a s)) = view s"
  by (auto simp: OnStatusUpdate_def SwitchOff_view noding_emit intro!: view_and_then)

lemma OnStakeChanged_view: "view (snd (OnStakeChanged k a s)) = view s"
  by (auto simp: OnStakeChanged_def SwitchOff_view noding_emit noding_set view_when_queued
      split: option.splits prod.splits intro!: view_and_then)

end

text \<open>
  A part that the referral module does not write to either is kept by the hooks of the referral keeper,
  and so by its operations; if it is not of the bank, by the bank as well.
\<close>

interpretation nod_tree: nod_view ref_store
  by unfold_locales (simp_all add: nod_set_def emit_def)

lemma app_hook_cases:
  assumes "(e, h) \<in> set (rk_hooks (app_ref L n))" "tree_event e"
  obtains k where "h = OnStatusUpdate k" | k where "h = OnStakeChanged k" | "h = (\<lambda>a s. (Panic out_of_fuel, s))"
  using assms
  by (cases n) (auto simp: Let_def app_ref_hooks_def tree_event_def StatusUpdatedCallback_def
      StakeChangedCallback_def BanishedCallback_def)

locale hooks_view = nod_view view + ref_view view for view :: "'s deleg_ctx_scheme \<Rightarrow> 'v"
begin

lemma callbacks: "view_callbacks (app_ref L n) view"
proof (rule view_callbacks.intro)
  show "tree_callbacks (app_ref L n :: 's deleg_ctx_ext earn_ctx_ext prof_ctx_ext nod_ctx_ext ref_keeper)"
    by (rule tree_callbacks.intro, erule (1) app_hook_cases) (simp_all add: nod_tree.OnStatusUpdate_view nod_tree.OnStakeChanged_view)
  show "view_callbacks_axioms (app_ref L n) view"
    by (rule view_callbacks_axioms.intro, erule (1) app_hook_cases) (simp_all add: OnStatusUpdate_view OnStakeChanged_view)
qed (rule ref_view_axioms)

end

locale app_view = hooks_view view for view :: "'s deleg_ctx_scheme \<Rightarrow> 'v" +
  assumes view_balances: "view (s\<lparr>balances := b\<rparr>) = view s"
    and view_accounts: "view (s\<lparr>accounts := x\<rparr>) = view s"
begin

lemma SetBalance_view: "view (snd (SetBalance (app_bank_over L (app_ref L n)) a c s)) = view s"
proof -
  have "view (snd (fireSetCoins (app_bank_over L (app_ref L n)) a s)) = view s" for s
    unfolding fireSetCoins_def
    by (rule keeps_for_each[where P = "\<lambda>s'. view s' = view s"])
      (auto simp: app_bank_over_def update_referral_def view_callbacks.OnBalanceChanged_view[OF callbacks])
  then show ?thesis by (simp add: SetBalance_def view_balances)
qed

lemma SubtractCoins_view: "view (snd (SubtractCoins (app_bank_over L (app_ref L n)) a c s)) = view s"
  by (auto simp: SubtractCoins_def SetBalance_view intro!: view_and_then)

lemma AddCoins_view: "view (snd (AddCoins (app_bank_over L (app_ref L n)) a c s)) = view s"
  by (auto simp: AddCoins_def SetBalance_view intro!: view_and_then)

lemma SendCoins_view: "view (snd (SendCoins (app_bank_over L (app_ref L n)) f t c s)) = view s"
  by (auto simp: SendCoins_def SubtractCoins_view AddCoins_view view_emit intro!: view_and_then)

lemma SendCoinsFromAccountToModule_view:
  "view (snd (SendCoinsFromAccountToModule (app_bank_over L (app_ref L n)) f m c s)) = view s"
  by (auto simp: SendCoinsFromAccountToModule_def module_account_def SendCoins_view view_accounts
      split: option.split intro!: view_and_then)

end

text \<open>Two parts of the state: the money; the profiles and their indices.\<close>

definition prof_index :: "'s prof_ctx_scheme \<Rightarrow> (addr \<rightharpoonup> profile) \<times> (string \<rightharpoonup> addr) \<times> (64 word \<rightharpoonup> addr)" where
  "prof_index s = (prof_store s, prof_aliases s, prof_cards s)"

interpretation app_money: hooks_view money
  by unfold_locales (auto simp: money_def nod_set_def emit_def intro!: writes_view)

interpretation app_tree: view_callbacks "app_ref L n" money for L n
  by (rule app_money.callbacks)

interpretation index_view: ref_view prof_index
  by unfold_locales (auto simp: prof_index_def intro!: writes_view)

interpretation app_index: app_view prof_index
  by unfold_locales (auto simp: prof_index_def nod_set_def emit_def intro!: writes_view)

lemma app_ref_bank: "rk_sdk (app_ref L n) = al_sdk L"
  by (cases n) (simp_all add: Let_def app_bank_over_def)

lemma bank_over_laws:
  fixes k :: "'s ref_keeper"
  assumes "money_callbacks k" "sdk_laws (al_sdk L)"
  shows "bank_laws (app_bank_over L k)"
proof (rule bank_laws.intro)
  show "sdk_laws (bk_sdk (app_bank_over L k))" using assms(2) by (simp add: app_bank_over_def)
next
  fix m h a and s :: "'s ref_ctx_scheme"
  assume "(m, h) \<in> set (bk_setCoinHooks (app_bank_over L k))"
  then have "h = update_referral k" by (simp add: app_bank_over_def)
  then have "money (snd (h a s)) = money s"
    using view_callbacks.OnBalanceChanged_view[OF assms(1)] by (simp add: update_referral_def)
  then show "balances (snd (h a s)) = balances s \<and> total_supply (snd (h a s)) = total_supply s"
    by (simp add: money_def)
qed

lemma app_bank_laws: "sdk_laws (al_sdk L) \<Longrightarrow> bank_laws (app_bank_over L (app_ref L n))"
  by (rule bank_over_laws[OF app_tree.view_callbacks_axioms])

text \<open>So the laws of \<open>x/delegating\<close> hold for the keeper of the application.\<close>

lemma app_deleg_laws: "sdk_laws (al_sdk L) \<Longrightarrow> deleg_laws (app_delegating L)"
  using app_bank_laws[of L app_depth] by (simp add: deleg_laws_def app_delegating_def app_bank_def app_referral_def)

section \<open>Payments between members\<close>

definition member :: "string \<Rightarrow> 's ref_ctx_scheme \<Rightarrow> bool" where
  "member x s \<longleftrightarrow> 0 < r_Status (ref_Get x s) \<and> \<not> r_Banished (ref_Get x s)"

text \<open>An account of the tree whose own amounts are the ones of the bank.\<close>

definition mirrored :: "'s ref_keeper \<Rightarrow> 's ref_ctx_scheme \<Rightarrow> addr \<Rightarrow> bool" where
  "mirrored k s a \<longleftrightarrow> a \<noteq> [] \<and> member (AccString (rk_sdk k) a) s
     \<and> getBalance k (AccString (rk_sdk k) a) s = Ok (coins_at (ref_Get (AccString (rk_sdk k) a) s) 0)
     \<and> getDelegated k (AccString (rk_sdk k) a) s = Ok (delegated_at (ref_Get (AccString (rk_sdk k) a) s) 0)"

lemma account_coins_string:
  assumes "sdk_laws (rk_sdk k)" "a \<noteq> []"
  shows "account_coins k (AccString (rk_sdk k) a) s = GetBalance (rk_bank k) a s"
  using sdk_laws.bech32_roundtrip[OF assms] by (simp add: account_coins_def)

lemma amounts_frame:
  assumes "sdk_laws (rk_sdk k)" "a \<noteq> []" "balances s' a = balances s a"
  shows "getBalance k (AccString (rk_sdk k) a) s' = getBalance k (AccString (rk_sdk k) a) s"
    "getDelegated k (AccString (rk_sdk k) a) s' = getDelegated k (AccString (rk_sdk k) a) s"
  using assms(3) by (simp_all add: getBalance_def getDelegated_def account_coins_string[OF assms(1,2)] GetBalance_def)

lemma member_not_empty: "member x s \<Longrightarrow> \<not> IsEmpty (ref_Get x s)"
  by (auto simp: member_def IsEmpty_def status_defs)

lemma balance_written:
  assumes k: "money_callbacks k" and L: "sdk_laws (rk_sdk k)"
    and hook: "OnBalanceChanged k (AccString (rk_sdk k) a) s = (Ok (), s')"
    and b: "getBalance k (AccString (rk_sdk k) a) s = Ok b" "getDelegated k (AccString (rk_sdk k) a) s = Ok d"
    and tree: "tree_sums s" "member (AccString (rk_sdk k) a) s" "a \<noteq> []" "AccString (rk_sdk k) a \<noteq> []"
  shows "tree_sums s' \<and> mirrored k s' a \<and> (\<forall>x. x \<noteq> a \<and> mirrored k s x \<longrightarrow> mirrored k s' x)
    \<and> (\<forall>x. member x s \<longrightarrow> member x s')"
proof -
  let ?acc = "AccString (rk_sdk k) a"
  have tc: "tree_callbacks k" using k by (simp add: view_callbacks_def)
  have nb: "\<not> IsEmpty (ref_Get ?acc s)" "\<not> r_Banished (ref_Get ?acc s)"
    using tree(2) member_not_empty by (auto simp: member_def)
  note sums = tree_callbacks.OnBalanceChanged_sums[OF tc hook tree(4,1) nb b]
  note all = tree_callbacks.OnBalanceChanged_Ok[OF tc hook tree(4) nb(2) b obc_update_found[OF nb b]]
  note up = tree_callbacks.OnBalanceChanged_grows[OF tc hook nb b]
  have bal: "balances s' = balances s"
    using view_callbacks.OnBalanceChanged_view[OF k, of ?acc s] hook by (simp add: money_def)
  have mem: "member x s'" if "member x s" for x using that all up[of x] by (auto simp: member_def)
  have "mirrored k s' a"
    using sums b amounts_frame[OF L tree(3), of s' s] bal mem tree(2,3) by (simp add: mirrored_def)
  moreover have "mirrored k s' x" if x: "x \<noteq> a" "mirrored k s x" for x
  proof -
    have "AccString (rk_sdk k) x \<noteq> ?acc"
      using sdk_laws.AccString_inj[OF L, of x a] x tree(3) by (simp add: mirrored_def)
    then have "coins_at (ref_Get (AccString (rk_sdk k) x) s') 0 = coins_at (ref_Get (AccString (rk_sdk k) x) s) 0"
      "delegated_at (ref_Get (AccString (rk_sdk k) x) s') 0 = delegated_at (ref_Get (AccString (rk_sdk k) x) s) 0"
      using all by simp_all
    then show ?thesis using x(2) mem amounts_frame[OF L, of x s' s] bal by (auto simp: mirrored_def)
  qed
  ultimately show ?thesis using sums mem by blast
qed

text \<open>The same for a balance the bank writes through its hook.\<close>

lemma written_tree [simp]:
  "ref_Get x (s\<lparr>balances := m\<rparr>) = ref_Get x s" "tree_sums (s\<lparr>balances := m\<rparr>) = tree_sums s"
  "member x (s\<lparr>balances := m\<rparr>) = member x s"
  by (simp_all add: tree_sums_def member_def ref_Get_def)

lemma SetBalance_mirrors:
  assumes k: "money_callbacks k" and L: "sdk_laws (al_sdk L)" "rk_sdk k = al_sdk L"
    and ok: "SetBalance (app_bank_over L k) a c s = (Ok (), s')" and c: "IsValid (al_sdk L) c"
    and s: "bank_inv (al_sdk L) s" "tree_sums s" "member (AccString (al_sdk L) a) s" "a \<noteq> []"
      "AccString (al_sdk L) a \<noteq> []"
  shows "tree_sums s' \<and> mirrored k s' a \<and> (\<forall>x. x \<noteq> a \<and> mirrored k s x \<longrightarrow> mirrored k s' x)
    \<and> (\<forall>x. member x s \<longrightarrow> member x s')"
proof -
  let ?s = "s\<lparr>balances := (balances s)(a := (if length c = 0 then None else Some c))\<rparr>"
  have L': "sdk_laws (rk_sdk k)" using L by simp
  have "update_referral k a ?s = (Ok (), s')"
    using ok c by (auto simp: SetBalance_def fireSetCoins_def app_bank_over_def and_then_Ok_iff split: if_splits)
  then have hook: "OnBalanceChanged k (AccString (rk_sdk k) a) ?s = (Ok (), s')" by (simp add: update_referral_def)
  have "\<exists>cs. GetBalance (rk_bank k) a ?s = Ok cs"
    using sdk_laws.new_coins_valid[OF L(1) c] sdk_laws.new_coins_valid[OF L(1) sdk_laws.valid_nil[OF L(1)]] L(2)
    by (simp add: GetBalance_def)
  then obtain b d where b: "getBalance k (AccString (rk_sdk k) a) ?s = Ok b" "getDelegated k (AccString (rk_sdk k) a) ?s = Ok d"
    using account_coins_string[OF L' s(4)] by (auto simp: getBalance_def getDelegated_def)
  have t: "tree_sums ?s" "member x ?s \<longleftrightarrow> member x s" for x
    using s(2) by (simp_all only: written_tree)
  have m: "mirrored k ?s x" if "x \<noteq> a" "mirrored k s x" for x
    using that amounts_frame[OF L', of x ?s s] by (simp add: mirrored_def)
  have "member (AccString (rk_sdk k) a) ?s" "AccString (rk_sdk k) a \<noteq> []" using s(3,5) L(2) t(2) by simp_all
  from balance_written[OF k L' hook b t(1) this(1) s(4) this(2)] show ?thesis using m t(2) by blast
qed

lemma emit_tree:
  "tree_sums (emit e s) = tree_sums s" "member x (emit e s) = member x s" "mirrored k (emit e s) a = mirrored k s a"
proof -
  have r: "ref_Get x (emit e s) = ref_Get x s" for x by (simp add: ref_Get_def emit_def)
  then show t: "tree_sums (emit e s) = tree_sums s" "member x (emit e s) = member x s" for x
    by (simp_all add: tree_sums_def member_def emit_def)
  have "account_coins k y (emit e s) = account_coins k y s" for y
    by (simp add: account_coins_def GetBalance_def split: option.split)
  then show "mirrored k (emit e s) a = mirrored k s a"
    by (simp add: mirrored_def getBalance_def getDelegated_def r t)
qed

lemma payment_mirrors:
  assumes k: "money_callbacks k" and L: "sdk_laws (al_sdk L)" "rk_sdk k = al_sdk L"
    and ok: "SendCoins (app_bank_over L k) f t amt s = (Ok (), s')" and s: "bank_inv (al_sdk L) s" "tree_sums s"
    and f: "member (AccString (al_sdk L) f) s" "f \<noteq> []" "AccString (al_sdk L) f \<noteq> []"
    and t: "member (AccString (al_sdk L) t) s" "t \<noteq> []" "AccString (al_sdk L) t \<noteq> []"
  shows "tree_sums s' \<and> mirrored k s' f \<and> mirrored k s' t \<and> (\<forall>x. mirrored k s x \<longrightarrow> mirrored k s' x)"
proof -
  let ?b = "app_bank_over L k" and ?e = "emit (EventTransfer (app_bank_over L k) f t amt) s"
  note laws = bank_over_laws[OF k L(1)]
  have sdk: "bk_sdk ?b = al_sdk L" by (simp add: app_bank_over_def)
  obtain s1 where s1: "SubtractCoins ?b f amt ?e = (Ok (), s1)" "AddCoins ?b t amt s1 = (Ok (), s')"
    using ok unfolding SendCoins_def and_then_Ok_iff by auto
  have e: "bank_inv (al_sdk L) ?e" using s(1) bank_frame(3)[of ?e s] by simp
  have same: "tree_sums ?e = tree_sums s" "member x ?e = member x s" "mirrored k ?e x' = mirrored k s x'" for x x'
    by (simp_all add: emit_tree)
  have v: "IsValid (al_sdk L) amt" "\<And>d. AmountOf (al_sdk L) amt d \<le> bal (al_sdk L) ?e f d"
    and sh: "bank_inv (al_sdk L) s1"
    using bank_laws.SubtractCoins_Ok[OF laws _ s1(1)] e by (simp_all add: sdk shifted_def)
  obtain c where c: "SetBalance ?b f c ?e = (Ok (), s1)" "IsValid (al_sdk L) c"
    using bank_laws.SubtractCoins_spec(2)[OF laws, of ?e amt f] e v s1(1) by (auto simp: sdk)
  have F: "tree_sums s1 \<and> mirrored k s1 f \<and> (\<forall>x. x \<noteq> f \<and> mirrored k ?e x \<longrightarrow> mirrored k s1 x)
    \<and> (\<forall>x. member x ?e \<longrightarrow> member x s1)"
    by (rule SetBalance_mirrors[OF k L c e]) (use s f in \<open>simp_all add: same\<close>)
  obtain c' where c': "SetBalance ?b t c' s1 = (Ok (), s')" "IsValid (al_sdk L) c'"
    using bank_laws.AddCoins_spec[OF laws, of s1 amt t] sh v(1) s1(2) by (auto simp: sdk)
  have "tree_sums s' \<and> mirrored k s' t \<and> (\<forall>x. x \<noteq> t \<and> mirrored k s1 x \<longrightarrow> mirrored k s' x)
    \<and> (\<forall>x. member x s1 \<longrightarrow> member x s')"
    by (rule SetBalance_mirrors[OF k L c' sh]) (use F t in \<open>auto simp: same\<close>)
  then show ?thesis using F by (auto simp: same)
qed

section \<open>Properties\<close>

definition ex_lib :: app_lib where
  "ex_lib = \<lparr>al_sdk = ref_sdk, al_module_addr = (\<lambda>n. Some n), al_perm = (\<lambda>m p. True), al_keys = ex_keys,
     al_sort_nodes = (\<lambda>before xs. xs), al_sort_requests = (\<lambda>before xs. foldr (insert_by before) xs []), al_fuel = 100\<rparr>"

definition ex_actx :: deleg_ctx where
  "ex_actx = (ex_dctx Map.empty [(ConfigMainDenom, 60)])\<lparr>ref_store := ref_store ex_tree,
     balances := [''a'' \<mapsto> [(ConfigMainDenom, 50)], ''r'' \<mapsto> [(ConfigMainDenom, 10)]]\<rparr>"

lemma ex_payment: "fst (SendCoins (app_bank ex_lib) ''a'' ''r'' [(ConfigMainDenom, 20)] ex_actx) = Ok ()"
  by code_simp

lemma ex_lib_sel [simp]: "al_sdk ex_lib = ref_sdk"
  by (simp add: ex_lib_def)

lemma ex_actx_facts:
  "bank_inv (al_sdk ex_lib) ex_actx" "tree_sums ex_actx"
  "member (AccString (al_sdk ex_lib) ''a'') ex_actx" "member (AccString (al_sdk ex_lib) ''r'') ex_actx"
proof -
  have ref: "ref_store ex_actx = ref_store ex_tree" "AccString ref_sdk a = ''artr1'' @ a" for a
    by (simp_all add: ex_actx_def ref_sdk_def)
  then have get: "ref_Get x ex_actx = ref_Get x ex_tree" for x by (simp add: ref_Get_def)
  show "tree_sums ex_actx" using ex_sums(1) unfolding tree_sums_def ref(1) get .
  show "member (AccString (al_sdk ex_lib) ''a'') ex_actx" "member (AccString (al_sdk ex_lib) ''r'') ex_actx"
    by (simp_all add: ref member_def get ref_Get_def ex_info_def NewInfo_def zero_info_def status_defs)
  show "bank_inv (al_sdk ex_lib) ex_actx"
    by (auto simp: bank_inv_def ex_actx_def ex_dctx_def ref_sdk_def ref_valid_def split: if_splits)
qed

text \<open>C1. Bank and referral tree stay in step through a payment, in the application as it is put together. When
  SendCoins returns without error between two members of the tree, each being a live account
  of it, then afterwards the tree's own amounts of both are exactly their balances in the bank,
  those of every other member that were so still are, and every recorded amount of the levels
  one to ten is again the sum of what the accounts of that level hold. No assumption is made
  about the hooks: they are the ones of the program.\<close>

theorem payments_keep_tree:
  assumes "sdk_laws (al_sdk L)" "SendCoins (app_bank L) f t amt s = (Ok (), s')"
    and "bank_inv (al_sdk L) s" "tree_sums s"
    and "member (AccString (al_sdk L) f) s" "f \<noteq> []" "member (AccString (al_sdk L) t) s" "t \<noteq> []"
  shows "tree_sums s' \<and> mirrored (app_referral L) s' f \<and> mirrored (app_referral L) s' t
    \<and> (\<forall>x. mirrored (app_referral L) s x \<longrightarrow> mirrored (app_referral L) s' x)"
proof -
  have nonempty: "AccString (al_sdk L) a \<noteq> []" if "a \<noteq> []" for a
    using sdk_laws.bech32_roundtrip[OF assms(1) that] sdk_laws.bech32_empty[OF assms(1)] by force
  show ?thesis
    unfolding app_referral_def
    by (rule payment_mirrors[OF app_tree.view_callbacks_axioms assms(1) app_ref_bank
          assms(2)[unfolded app_bank_def app_referral_def] assms(3-6) nonempty[OF assms(6)] assms(7,8) nonempty[OF assms(8)]])
qed

theorem payments_keep_tree_witness:
  "\<exists>s'. SendCoins (app_bank ex_lib) ''a'' ''r'' [(ConfigMainDenom, 20)] ex_actx = (Ok (), s')
    \<and> tree_sums s' \<and> mirrored (app_referral ex_lib) s' ''r''"
proof -
  have L: "sdk_laws (al_sdk ex_lib)" by (simp add: ref_coins.sdk_laws_axioms)
  from payments_keep_tree[OF L pair_of_fst[OF ex_payment] ex_actx_facts(1-3) _ ex_actx_facts(4)]
  show ?thesis using pair_of_fst[OF ex_payment] by auto
qed

end
