(* ===== verification/App_Bank.thy ===== *)
theory App_Bank
  imports App
begin

text \<open>
  \<open>app/bank_shim.go\<close>, \<open>app/bank_adapter.go\<close> and \<open>app/staking_shim.go\<close>: the queries of the SDK's own
  bank and staking modules answered over the bank of the repository, the pages they are cut
  into, and the bank as \<open>x/auth\<close> and IBC see it. The SDK's default page limit, its staking
  parameters and the display name inside the metadata of a denomination are parameters.
\<close>

section \<open>Pages\<close>

record page_request =
  pg_Key :: string
  pg_Offset :: "64 word"
  pg_Limit :: "64 word"

text \<open>
  The total is the length as an unsigned 64-bit number. The sum of offset and limit wraps
  around; a slice whose end is before its start panics.
\<close>

definition paginate :: "64 word \<Rightarrow> 'a list \<Rightarrow> page_request option \<Rightarrow> ('a list \<times> 64 word) res" where
  "paginate defaultLimit items page =
     (let tot = of_nat (length items) :: 64 word
      in case page of
           None \<Rightarrow> Ok (items, tot)
         | Some p \<Rightarrow>
             if pg_Key p \<noteq> [] then Err invalid_argument
             else
               let limit = (if pg_Limit p = 0 then defaultLimit else pg_Limit p)
               in if pg_Offset p \<ge> tot then Ok ([], tot)
                  else
                    let end0 = pg_Offset p + limit; end = (if end0 > tot then tot else end0)
                    in if end < pg_Offset p then Panic index_out_of_range
                       else Ok (drop (unat (pg_Offset p)) (take (unat end) items), tot))"

section \<open>The bank queries of the SDK\<close>

definition not_found :: error where "not_found = Text ''not found''"
definition unimplemented :: error where "unimplemented = Text ''unimplemented''"

definition shim_address :: "sdk \<Rightarrow> string \<Rightarrow> addr res" where
  "shim_address L bech32 =
     (if bech32 = [] then Err invalid_argument
      else case AccAddressFromBech32 L bech32 of None \<Rightarrow> Err invalid_argument | Some a \<Rightarrow> Ok a)"

definition shim_Balance :: "'s bank_keeper \<Rightarrow> (string \<times> denom) option \<Rightarrow> 's bank_ctx_scheme \<Rightarrow> coin res" where
  "shim_Balance k req s =
     (case req of
        None \<Rightarrow> Err invalid_argument
      | Some (address, d) \<Rightarrow>
          if d = [] then Err invalid_argument
          else bind_res (shim_address (bk_sdk k) address) (\<lambda>a.
            bind_res (GetBalance k a s) (\<lambda>c. NewCoin (bk_sdk k) d (AmountOf (bk_sdk k) c d))))"

text \<open>A denomination with a display name is shown by it, as a coin made anew.\<close>

fun resolveDenoms :: "sdk \<Rightarrow> (metadata \<Rightarrow> denom) \<Rightarrow> 's bank_ctx_scheme \<Rightarrow> coins \<Rightarrow> coins res" where
  "resolveDenoms L display s [] = Ok []"
| "resolveDenoms L display s (c # cs) =
     bind_res (case GetDenomMetaData (fst c) s of
         None \<Rightarrow> Ok c
       | Some md \<Rightarrow> if display md \<noteq> [] then NewCoin L (display md) (snd c) else Ok c) (\<lambda>c'.
     bind_res (resolveDenoms L display s cs) (\<lambda>cs'. Ok (c' # cs')))"

definition shim_AllBalances ::
    "'s bank_keeper \<Rightarrow> (metadata \<Rightarrow> denom) \<Rightarrow> 64 word \<Rightarrow> (string \<times> bool \<times> page_request option) option \<Rightarrow>
     's bank_ctx_scheme \<Rightarrow> (coins \<times> 64 word) res" where
  "shim_AllBalances k display defaultLimit req s =
     (case req of
        None \<Rightarrow> Err invalid_argument
      | Some (address, resolve, page) \<Rightarrow>
          bind_res (shim_address (bk_sdk k) address) (\<lambda>a.
          bind_res (GetBalance k a s) (\<lambda>c.
          bind_res (if resolve then resolveDenoms (bk_sdk k) display s c else Ok c) (\<lambda>c.
          paginate defaultLimit c page))))"

definition shim_SpendableBalances ::
    "'s bank_keeper \<Rightarrow> 64 word \<Rightarrow> (string \<times> page_request option) option \<Rightarrow> 's bank_ctx_scheme \<Rightarrow> (coins \<times> 64 word) res" where
  "shim_SpendableBalances k defaultLimit req s =
     (case req of
        None \<Rightarrow> Err invalid_argument
      | Some (address, page) \<Rightarrow>
          bind_res (shim_address (bk_sdk k) address) (\<lambda>a.
          bind_res (SpendableCoins k a s) (\<lambda>c. paginate defaultLimit c page)))"

definition shim_SpendableBalanceByDenom ::
    "'s bank_keeper \<Rightarrow> (string \<times> denom) option \<Rightarrow> 's bank_ctx_scheme \<Rightarrow> coin res" where
  "shim_SpendableBalanceByDenom k req s =
     (case req of
        None \<Rightarrow> Err invalid_argument
      | Some (address, d) \<Rightarrow>
          if d = [] then Err invalid_argument
          else bind_res (shim_address (bk_sdk k) address) (\<lambda>a.
            bind_res (SpendableCoins k a s) (\<lambda>c. NewCoin (bk_sdk k) d (AmountOf (bk_sdk k) c d))))"

definition shim_TotalSupply ::
    "64 word \<Rightarrow> page_request option option \<Rightarrow> 's bank_ctx_scheme \<Rightarrow> (coins \<times> 64 word) res" where
  "shim_TotalSupply defaultLimit req s =
     (case req of
        None \<Rightarrow> Err invalid_argument
      | Some page \<Rightarrow> bind_res (GetSupply s) (\<lambda>t. paginate defaultLimit t page))"

definition shim_SupplyOf :: "sdk \<Rightarrow> denom option \<Rightarrow> 's bank_ctx_scheme \<Rightarrow> coin res" where
  "shim_SupplyOf L req s =
     (case req of
        None \<Rightarrow> Err invalid_argument
      | Some d \<Rightarrow>
          if d = [] then Err invalid_argument
          else bind_res (GetSupply s) (\<lambda>t. NewCoin L d (AmountOf L t d)))"

definition shim_Params :: "unit option \<Rightarrow> bool res" where
  "shim_Params req = (if req = None then Err invalid_argument else Ok True)"

definition shim_DenomsMetadata ::
    "64 word \<Rightarrow> page_request option option \<Rightarrow> 's bank_ctx_scheme \<Rightarrow> (metadata list \<times> 64 word) res" where
  "shim_DenomsMetadata defaultLimit req s =
     (case req of
        None \<Rightarrow> Err invalid_argument
      | Some page \<Rightarrow> paginate defaultLimit (IterateAllDenomMetaData (\<lambda>md acc. (False, acc @ [md])) [] s) page)"

definition shim_metadata :: "denom \<Rightarrow> 's bank_ctx_scheme \<Rightarrow> metadata res" where
  "shim_metadata d s =
     (if d = [] then Err invalid_argument
      else case GetDenomMetaData d s of None \<Rightarrow> Err not_found | Some md \<Rightarrow> Ok md)"

definition shim_DenomMetadata :: "denom option \<Rightarrow> 's bank_ctx_scheme \<Rightarrow> metadata res" where
  "shim_DenomMetadata req s = (case req of None \<Rightarrow> Err invalid_argument | Some d \<Rightarrow> shim_metadata d s)"

definition shim_DenomMetadataByQueryString :: "denom option \<Rightarrow> 's bank_ctx_scheme \<Rightarrow> metadata res" where
  "shim_DenomMetadataByQueryString req s = (case req of None \<Rightarrow> Err invalid_argument | Some d \<Rightarrow> shim_metadata d s)"

definition shim_DenomOwners :: "denom option \<Rightarrow> 's bank_ctx_scheme \<Rightarrow> (string \<times> coin) list res" where
  "shim_DenomOwners req s = Err unimplemented"

definition shim_DenomOwnersByQuery :: "denom option \<Rightarrow> 's bank_ctx_scheme \<Rightarrow> (string \<times> coin) list res" where
  "shim_DenomOwnersByQuery req s = Err unimplemented"

definition shim_SendEnabled :: "denom list option \<Rightarrow> ((denom \<times> bool) list \<times> 64 word) res" where
  "shim_SendEnabled req = (if req = None then Err invalid_argument else Ok ([], 0))"

section \<open>The bank as other modules see it\<close>

definition adapter_SpendableCoin :: "'s bank_keeper \<Rightarrow> addr \<Rightarrow> denom \<Rightarrow> 's bank_ctx_scheme \<Rightarrow> coin res" where
  "adapter_SpendableCoin k a d s =
     bind_res (SpendableCoins k a s) (\<lambda>c. NewCoin (bk_sdk k) d (AmountOf (bk_sdk k) c d))"

definition adapter_GetAllBalances :: "'s bank_keeper \<Rightarrow> addr \<Rightarrow> 's bank_ctx_scheme \<Rightarrow> coins res" where
  "adapter_GetAllBalances k a s = GetBalance k a s"

definition adapter_SendCoins :: "'s bank_keeper \<Rightarrow> addr \<Rightarrow> addr \<Rightarrow> coins \<Rightarrow> 's bank_op" where
  "adapter_SendCoins k f t amt s = SendCoins k f t amt s"

definition adapter_MintCoins :: "'s bank_keeper \<Rightarrow> string \<Rightarrow> coins \<Rightarrow> 's bank_op" where
  "adapter_MintCoins k m amt s = MintCoins k m amt s"

definition adapter_BurnCoins :: "'s bank_keeper \<Rightarrow> string \<Rightarrow> coins \<Rightarrow> 's bank_op" where
  "adapter_BurnCoins k m amt s = BurnCoins k m amt s"

section \<open>The staking query\<close>

record 'p staking_params =
  sp_UnbondingTime :: duration
  sp_BondDenom :: denom
  sp_rest :: 'p

definition UnbondingTime :: duration where "UnbondingTime = 3 * 24 * Hour"

definition staking_Params :: "'p staking_params \<Rightarrow> 'p staking_params res" where
  "staking_Params defaults = Ok (defaults\<lparr>sp_UnbondingTime := UnbondingTime, sp_BondDenom := ''uartr''\<rparr>)"

section \<open>Properties\<close>

text \<open>C28. A page is the part of the list it asks for, unless offset and limit overflow. For a list shorter
  than 2 ^ 64 and a request without a key, an offset past the end gives no items; otherwise, as
  long as offset and limit sum to less than 2 ^ 64, the page is the items from the offset on,
  at most the limit of them, with the total; when the sum wraps around, the query panics.\<close>

theorem page_is_slice_or_panic:
  assumes "length items < 2 ^ 64" "pg_Key p = []"
    and limit: "limit = (if pg_Limit p = 0 then defaultLimit else pg_Limit p)"
  shows "paginate defaultLimit items (Some p) =
     (if unat (pg_Offset p) \<ge> length items then Ok ([], of_nat (length items))
      else if unat (pg_Offset p) + unat limit < 2 ^ 64
           then Ok (take (unat limit) (drop (unat (pg_Offset p)) items), of_nat (length items))
           else Panic index_out_of_range)"
proof -
  have len: "unat (of_nat (length items) :: 64 word) = length items"
    using assms(1) by (simp add: unat_of_nat take_bit_nat_eq_self)
  have small: "unat (pg_Offset p + limit) = unat (pg_Offset p) + unat limit"
    if "unat (pg_Offset p) + unat limit < 2 ^ 64"
    using that by (simp add: unat_plus_if')
  have wraps: "unat (pg_Offset p + limit) < unat (pg_Offset p)" if "\<not> unat (pg_Offset p) + unat limit < 2 ^ 64"
  proof -
    have "unat (pg_Offset p + limit) = unat (pg_Offset p) + unat limit - 2 ^ 64" using that by (simp add: unat_plus_if')
    moreover have "unat limit < 2 ^ 64" using unsigned_less[of limit] by simp
    ultimately show ?thesis using that by simp
  qed
  show ?thesis
    using len small wraps assms(2)
    by (auto simp: paginate_def Let_def limit[symmetric] word_less_nat_alt word_le_nat_alt take_drop not_le add.commute)
qed

theorem page_is_slice_or_panic_witness:
  "paginate 100 [1::nat, 2, 3] (Some \<lparr>pg_Key = [], pg_Offset = 1, pg_Limit = 18446744073709551615\<rparr>) = Panic index_out_of_range"
  by (subst page_is_slice_or_panic[OF _ _ refl]) simp_all

end
