(* ===== verification/App_Revoking.thy ===== *)
theory App_Revoking
  imports App
begin

text \<open>
  Revoked coins and the scheduler: every request of \<open>x/delegating\<close> that is not yet due has a task of the
  scheduler at its time, through all operations of the module in the application, whatever the hooks of the
  bank and the referral tree do in between.
\<close>

section \<open>Buckets\<close>

lemma ScheduleTask_bucket:
  "bucket (snd (ScheduleTask t n d s)) x =
    (if x = t \<and> key_ok t then bucket s t @ [new_task t n d] else bucket s x)"
proof (cases "key_ok t")
  case False
  then show ?thesis by (simp add: ScheduleTask_def scheduleTask_panic)
qed (simp add: ScheduleTask_ok bucket_upd)

lemma Delete_bucket:
  "bucket (snd (Delete t n d s)) x =
    (if x = t \<and> key_ok t then filter (\<lambda>i. \<not> (HandlerName i = n \<and> Data i = d)) (bucket s t) else bucket s x)"
proof (cases "key_ok t")
  case True
  then show ?thesis using sched_delete_ok[of t "\<lambda>i. HandlerName i = n \<and> Data i = d" s] by (auto simp: Delete_def)
qed (simp add: Delete_def sched_delete_def lift_res_def Key_not_ok)

section \<open>The requests and their tasks\<close>

definition revocations ::
    "'s deleg_ctx_scheme \<Rightarrow> time \<times> (addr \<rightharpoonup> deleg_record) \<times> (time \<Rightarrow> task list)" where
  "revocations s = (block_time s, deleg_store s, \<lambda>t. filter (\<lambda>i. HandlerName i = RevokeHookName) (bucket s t))"

text \<open>Tasks of other modules do not matter.\<close>

lemma ScheduleTask_revocations: "n \<noteq> RevokeHookName \<Longrightarrow> revocations (snd (ScheduleTask t n d s)) = revocations s"
  using ScheduleTask_writes[of t n d s] by (auto simp: revocations_def ScheduleTask_bucket fun_eq_iff)

lemma Delete_revocations: "n \<noteq> RevokeHookName \<Longrightarrow> revocations (snd (Delete t n d s)) = revocations s"
  using Delete_writes[of t n d s] by (auto simp: revocations_def Delete_bucket fun_eq_iff intro!: filter_cong)

lemma other_tasks [simp]: "n \<in> tree_tasks \<Longrightarrow> n \<noteq> RevokeHookName" "AccrueHookName \<noteq> RevokeHookName"
  by (auto simp: tree_tasks_def StatusDowngradeHookName_def CompressionHookName_def TransitionTimeoutHookName_def
      BanishHookName_def RevokeHookName_def AccrueHookName_def)

lemma bucket_frame [simp]:
  "bucket (s\<lparr>events := e\<rparr>) = bucket s" "bucket (s'\<lparr>balances := b\<rparr>) = bucket s'"
  "bucket (s'\<lparr>accounts := x\<rparr>) = bucket s'" "bucket (s'\<lparr>total_supply := c\<rparr>) = bucket s'"
  "bucket (s2\<lparr>ref_store := r\<rparr>) = bucket s2" "bucket (s2\<lparr>ref_index := i\<rparr>) = bucket s2"
  "bucket (s3\<lparr>nod_store := m\<rparr>) = bucket s3" "bucket (s3\<lparr>nod_lottery := q\<rparr>) = bucket s3"
  "bucket (s4\<lparr>earn_store := y\<rparr>) = bucket s4" "bucket (s5\<lparr>deleg_store := z\<rparr>) = bucket s5"
  by (simp_all add: bucket_def fun_eq_iff)

interpretation app_rev: app_view revocations
  by unfold_locales (simp_all add: ScheduleTask_revocations Delete_revocations,
      simp_all add: revocations_def nod_set_def emit_def)

section \<open>What the parts of an operation leave alone\<close>

lemma app_delegating_sel [simp]:
  "dk_bank (app_delegating L) = app_bank_over L (app_ref L app_depth)" "dk_sort (app_delegating L) = al_sort_requests L"
  by (simp_all add: app_delegating_def app_bank_def app_referral_def)

named_theorems rev_frames

lemmas [rev_frames] = app_rev.SubtractCoins_view app_rev.AddCoins_view app_rev.SendCoinsFromAccountToModule_view
  app_rev.view_emit ScheduleTask_revocations Delete_revocations

lemmas rev_then = app_rev.view_and_then

lemma must_rev: "revocations (snd r) = m \<Longrightarrow> revocations (snd (must r)) = m"
  by (cases r; cases "fst r") auto

lemma supply_rev [rev_frames]: "revocations (SetSupply c s) = revocations s"
  by (simp add: SetSupply_def revocations_def)

lemma exchange_rev [rev_frames]: "revocations (snd (exchange (app_delegating L) acc f x t y s)) = revocations s"
  by (auto simp: exchange_def rev_frames intro!: rev_then)

lemma amount_event_rev [rev_frames]: "revocations (snd (amount_event (app_delegating L) n acc x s)) = revocations s"
  by (auto simp: amount_event_def rev_frames intro!: rev_then)

lemma freeze_rev [rev_frames]: "revocations (snd (freeze (app_delegating L) acc x y s)) = revocations s"
  by (auto simp: freeze_def rev_frames intro!: rev_then)

lemma undelegate_rev [rev_frames]: "revocations (snd (undelegate (app_delegating L) acc x s)) = revocations s"
  by (auto simp: undelegate_def rev_frames intro!: rev_then)

lemma delegate_coins_rev [rev_frames]: "revocations (snd (delegate_coins (app_delegating L) acc x s)) = revocations s"
  by (simp add: delegate_coins_def rev_frames)

lemma PayTxFee_rev [rev_frames]:
  "revocations (snd (PayTxFee (app_bank_over L (app_ref L app_depth)) a c s)) = revocations s"
  by (auto simp: PayTxFee_def rev_frames intro!: rev_then)

lemma IsActiveEarner_rev [rev_frames]: "revocations (snd (IsActiveEarner acc s)) = revocations s"
  by (simp add: IsActiveEarner_def Let_def earn_delete_def earn_set_def revocations_def)

lemma award_terms_rev [rev_frames]: "revocations (snd (award_terms (app_delegating L) acc s)) = revocations s"
  by (auto simp: award_terms_def Let_def rev_frames split: prod.splits intro!: rev_then)

lemma accrue_rev [rev_frames]: "revocations (snd (accrue (app_delegating L) acc x flags s)) = revocations s"
  by (auto simp: accrue_def Let_def rev_frames split: prod.splits intro!: rev_then must_rev)

lemma parts_rev [rev_frames]:
  "revocations (snd (for_each parts (\<lambda>(_, a, x) s. and_then (lift_res (one_coin K ConfigMainDenom x) s)
    (\<lambda>c s. must (AddCoins (app_bank_over L (app_ref L app_depth)) a c s))) s)) = revocations s"
  by (rule keeps_for_each[where P = "\<lambda>s'. revocations s' = revocations s"])
    (auto simp: rev_frames split: prod.splits intro!: rev_then must_rev)

lemma accrueToValidator_rev [rev_frames]: "revocations (snd (accrueToValidator (app_delegating L) acc x s)) = revocations s"
  by (auto simp: accrueToValidator_def Let_def rev_frames intro!: rev_then must_rev)

text \<open>The record before a change keeps its requests.\<close>

lemma accruePart_rev:
  assumes "accruePart (app_delegating L) acc item t s = (Ok item', s')"
  shows "revocations s' = revocations s" "Requests item' = Requests item"
proof -
  have "revocations (snd (accruePart (app_delegating L) acc item t s)) = revocations s"
    by (auto simp: accruePart_def rev_frames split: option.splits prod.splits intro!: rev_then)
  then show "revocations s' = revocations s" using assms by simp
  show "Requests item' = Requests item"
    using assms by (auto simp: accruePart_def and_then_Ok_iff split: option.splits)
qed

lemma schedule_accrue_rev:
  assumes "schedule_accrue acc dust item s = (Ok item', s')"
  shows "revocations s' = revocations s" "Requests item' = Requests item"
proof -
  have "revocations (snd (schedule_accrue acc dust item s)) = revocations s"
    by (auto simp: schedule_accrue_def Let_def rev_frames intro!: rev_then)
  then show "revocations s' = revocations s" using assms by simp
  show "Requests item' = Requests item"
    using assms by (auto simp: schedule_accrue_def Let_def and_then_Ok_iff split: if_splits)
qed

section \<open>The requests stay scheduled\<close>

definition revocation_task :: "addr \<Rightarrow> revoke_request \<Rightarrow> task" where
  "revocation_task acc r = new_task (rq_Time r) RevokeHookName acc"

definition revocations_scheduled :: "'s deleg_ctx_scheme \<Rightarrow> bool" where
  "revocations_scheduled s \<longleftrightarrow> (\<forall>acc item r. deleg_store s acc = Some item \<longrightarrow> r \<in> set (Requests item) \<longrightarrow>
     block_time s < rq_Time r \<longrightarrow> revocation_task acc r \<in> set (bucket s (rq_Time r)))"

lemma revocations_eqD:
  assumes "revocations s' = revocations s"
  shows "block_time s' = block_time s" "deleg_store s' = deleg_store s"
    "revocation_task acc r \<in> set (bucket s' t) \<longleftrightarrow> revocation_task acc r \<in> set (bucket s t)"
proof -
  have "filter (\<lambda>i. HandlerName i = RevokeHookName) (bucket s' t) = filter (\<lambda>i. HandlerName i = RevokeHookName) (bucket s t)"
    using assms by (simp add: revocations_def fun_eq_iff)
  then have "i \<in> set (filter (\<lambda>i. HandlerName i = RevokeHookName) (bucket s' t))
    \<longleftrightarrow> i \<in> set (filter (\<lambda>i. HandlerName i = RevokeHookName) (bucket s t))" for i by (simp only:)
  then have "HandlerName i = RevokeHookName \<Longrightarrow> i \<in> set (bucket s' t) \<longleftrightarrow> i \<in> set (bucket s t)" for i
    unfolding set_filter by blast
  then show "revocation_task acc r \<in> set (bucket s' t) \<longleftrightarrow> revocation_task acc r \<in> set (bucket s t)"
    by (simp add: revocation_task_def)
qed (use assms in \<open>simp_all add: revocations_def\<close>)

lemma scheduled_eq:
  assumes "revocations s' = revocations s"
  shows "revocations_scheduled s' = revocations_scheduled s" "record_of acc s' = record_of acc s"
  unfolding revocations_scheduled_def using revocations_eqD[OF assms] by (simp_all add: record_of_def)

lemma scheduledD:
  "revocations_scheduled s \<Longrightarrow> r \<in> set (Requests (record_of acc s)) \<Longrightarrow> block_time s < rq_Time r \<Longrightarrow>
    revocation_task acc r \<in> set (bucket s (rq_Time r))"
  by (auto simp: revocations_scheduled_def record_of_def NewRecord_def split: option.splits)

lemma write_scheduled:
  assumes "revocations_scheduled s"
    and "\<And>r. r \<in> set (Requests item) \<Longrightarrow> block_time s < rq_Time r \<Longrightarrow> r \<in> set (Requests (record_of acc s))"
  shows "revocations_scheduled (write_record acc item s)"
  using assms scheduledD[OF assms(1)] by (auto simp: revocations_scheduled_def write_record_def)

text \<open>A new request is written before its task.\<close>

lemma request_scheduled:
  assumes s: "revocations_scheduled s" and item: "set (Requests item) = insert r (set (Requests (record_of acc s)))"
    and ok: "ScheduleTask (rq_Time r) RevokeHookName acc (write_record acc item s) = (Ok (), s')"
  shows "revocations_scheduled s'" "revocation_task acc r \<in> set (bucket s' (rq_Time r))" "record_of acc s' = item"
proof -
  have key: "key_ok (rq_Time r)"
    using ok by (cases "key_ok (rq_Time r)") (simp_all add: ScheduleTask_def scheduleTask_panic)
  then have s': "s' = (write_record acc item s)\<lparr>sched_store := sched_store s'\<rparr>"
    using ok by (auto simp: ScheduleTask_ok)
  have b: "bucket s' x = (if x = rq_Time r then bucket s x @ [revocation_task acc r] else bucket s x)" for x
    using ScheduleTask_bucket[of "rq_Time r" RevokeHookName acc "write_record acc item s" x] ok key
    by (auto simp: revocation_task_def write_record_def)
  have d: "deleg_store s' = (deleg_store s)(acc \<mapsto> item)" "block_time s' = block_time s"
    by (subst s', simp add: write_record_def)+
  show "revocation_task acc r \<in> set (bucket s' (rq_Time r))" by (simp add: b)
  show "record_of acc s' = item" by (simp add: record_of_def d)
  have "revocation_task a q \<in> set (bucket s' (rq_Time q))"
    if "deleg_store s' a = Some item'" "q \<in> set (Requests item')" "block_time s < rq_Time q" for a q item'
    using that item scheduledD[OF s, of q a] by (cases "a = acc") (auto simp: b d record_of_def)
  then show "revocations_scheduled s'"
    unfolding revocations_scheduled_def d(2) by blast
qed

lemma Revoke_scheduled:
  assumes "revocations_scheduled s" "Revoke (app_delegating L) acc x express s = (Ok (), s')"
  shows "revocations_scheduled s'"
    "x \<noteq> 0 \<Longrightarrow> \<exists>r. r \<in> set (Requests (record_of acc s')) \<and> revocation_task acc r \<in> set (bucket s' (rq_Time r))"
proof -
  have "revocations_scheduled s' \<and> (x \<noteq> 0 \<longrightarrow> (\<exists>r. r \<in> set (Requests (record_of acc s')) \<and>
    revocation_task acc r \<in> set (bucket s' (rq_Time r))))"
  proof (cases "x = 0")
    case False
    obtain item s1 item2 s2 s3 y dust t where 1: "accruePart (app_delegating L) acc (record_of acc s) (block_time s + OneDay s) s = (Ok item, s1)"
      and 2: "freeze (app_delegating L) acc x y s1 = (Ok (), s2)"
      and 3: "schedule_accrue acc dust item s2 = (Ok item2, s3)"
      and 4: "ScheduleTask t RevokeHookName acc
        (write_record acc (item2\<lparr>Requests := Requests item2 @ [\<lparr>rq_Time = t, rq_Amount = y\<rparr>]\<rparr>) s3) = (Ok (), s')"
      using assms(2) False by (auto simp: Revoke_def Let_def and_then_Ok_iff lift_res_def split: if_splits)
    have r: "revocations s3 = revocations s"
      using accruePart_rev(1)[OF 1] schedule_accrue_rev(1)[OF 3] freeze_rev[of L acc x y s1] 2 by simp
    have q: "Requests item2 = Requests (record_of acc s3)"
      using accruePart_rev(2)[OF 1] schedule_accrue_rev(2)[OF 3] scheduled_eq(2)[OF r] by simp
    define rq where "rq = \<lparr>rq_Time = t, rq_Amount = y\<rparr>"
    have "revocations_scheduled s3" using assms(1) scheduled_eq(1)[OF r] by simp
    from request_scheduled[of s3 "item2\<lparr>Requests := Requests item2 @ [rq]\<rparr>" rq acc s', OF this] 4 q
    show ?thesis by (auto simp: rq_def)
  qed (use assms in \<open>simp add: Revoke_def\<close>)
  then show "revocations_scheduled s'"
    "x \<noteq> 0 \<Longrightarrow> \<exists>r. r \<in> set (Requests (record_of acc s')) \<and> revocation_task acc r \<in> set (bucket s' (rq_Time r))"
    by auto
qed

text \<open>The other operations write no new request.\<close>

lemma Delegate_scheduled:
  assumes "revocations_scheduled s" "Delegate (app_delegating L) acc x s = (Ok (), s')"
  shows "revocations_scheduled s'"
proof -
  obtain amt fee s0 item s1 y s2 dust item2 s3 s4 where
    0: "PayTxFee (app_bank_over L (app_ref L app_depth)) acc amt s = (Ok fee, s0)"
    and 1: "accruePart (app_delegating L) acc (record_of acc s0) (block_time s0 + OneDay s0) s0 = (Ok item, s1)"
    and 2: "delegate_coins (app_delegating L) acc y s1 = (Ok (), s2)"
    and 3: "schedule_accrue acc dust item s2 = (Ok item2, s3)"
    and 4: "s' = write_record acc item2 s4" "revocations s4 = revocations s3"
    using assms(2) by (fastforce simp: Delegate_def Let_def and_then_Ok_iff lift_res_def rev_frames split: if_splits)
  have r: "revocations s4 = revocations s"
    using PayTxFee_rev[of L acc amt s] 0 accruePart_rev(1)[OF 1] delegate_coins_rev[of L acc y s1] 2
      schedule_accrue_rev(1)[OF 3] 4(2) by simp
  have "revocations s0 = revocations s" using PayTxFee_rev[of L acc amt s] 0 by simp
  then have "Requests item2 = Requests (record_of acc s4)"
    using accruePart_rev(2)[OF 1] schedule_accrue_rev(2)[OF 3] scheduled_eq(2)[OF r] scheduled_eq(2) by metis
  then show ?thesis unfolding 4(1) using assms(1) scheduled_eq(1)[OF r] by (intro write_scheduled) simp_all
qed

lemma OnBanished_scheduled:
  assumes "revocations_scheduled s" "OnBanished (app_delegating L) acc s = (Ok (), s')"
  shows "revocations_scheduled s'"
  using assms(2) Revoke_scheduled(1)[OF assms(1)] assms(1)
  by (auto simp: OnBanished_def and_then_Ok_iff lift_res_def split: if_splits)

lemma MustPerformAccrue_scheduled:
  assumes "revocations_scheduled s" "MustPerformAccrue (app_delegating L) acc t s = (Ok (), s')"
  shows "revocations_scheduled s'"
proof -
  have "\<exists>s1 item. s' = write_record acc item s1 \<and> Requests item = Requests (record_of acc s) \<and> revocations s1 = revocations s"
  proof -
    have "revocations s2 = revocations s1" if "award_terms (app_delegating L) acc s1 = (r, s2)" for s1 s2 r
      using award_terms_rev[of L acc s1] that by simp
    moreover have "revocations s2 = revocations s1" if "accrue (app_delegating L) acc y f s1 = (r, s2)" for s1 s2 r y f
      using accrue_rev[of L acc y f s1] that by simp
    moreover have "revocations s2 = revocations s1" if "accrueToValidator (app_delegating L) acc y s1 = (r, s2)" for s1 s2 r y
      using accrueToValidator_rev[of L acc y s1] that by simp
    moreover have "revocations s2 = revocations s1" if "ScheduleTask u AccrueHookName acc s1 = (r, s2)" for s1 s2 r u
      using ScheduleTask_revocations[of AccrueHookName u acc s1] that by simp
    ultimately show ?thesis
      using assms(2) by (fastforce simp: MustPerformAccrue_def Let_def and_then_Ok_iff lift_res_def split: if_splits option.splits)
  qed
  then obtain s1 item where "s' = write_record acc item s1" "Requests item = Requests (record_of acc s)"
    "revocations s1 = revocations s" by blast
  then show ?thesis using assms(1) scheduled_eq[of s1 s] by (auto intro!: write_scheduled)
qed

lemma MustPerformRevoking_scheduled:
  assumes "sorts_by_time (app_delegating L)" "revocations_scheduled s"
    and "MustPerformRevoking (app_delegating L) acc t s = (Ok (), s')"
  shows "revocations_scheduled s'"
proof (cases "deleg_store s acc")
  case None
  then show ?thesis using assms by (simp add: MustPerformRevoking_def performRevoking_def)
next
  case (Some item)
  define xs where "xs = al_sort_requests L (\<lambda>a b. rq_Time a < rq_Time b) (Requests item)"
  define due where "due = takeWhile (\<lambda>r. rq_Time r \<le> block_time s) xs"
  have set: "set xs = set (Requests (record_of acc s))"
    using assms(1) Some by (metis app_delegating_sel(2) mset_eq_setD option.simps(5) record_of_def sorts_by_time_def xs_def)
  have "revocations (snd (for_each due (\<lambda>r. undelegate (app_delegating L) acc (rq_Amount r)) s)) = revocations s"
    by (rule keeps_for_each[where P = "\<lambda>s'. revocations s' = revocations s"]) (simp_all add: rev_frames)
  moreover obtain s1 where f: "for_each due (\<lambda>r. undelegate (app_delegating L) acc (rq_Amount r)) s = (Ok (), s1)"
    and w: "(if due = [] then (Ok (), s1) else (Ok (), write_record acc (item\<lparr>Requests := drop (length due) xs\<rparr>) s1)) = (Ok (), s')"
  proof -
    have "performRevoking (app_delegating L) acc s = (Ok (), s')"
      using assms(3) by (simp add: MustPerformRevoking_def)
    then show thesis
      using that Some unfolding performRevoking_def Let_def due_requests_def
      by (simp add: and_then_Ok_iff Record_IsEmpty_def cong: if_cong flip: due_def xs_def) blast
  qed
  then have s': "s' = s1 \<or> s' = write_record acc (item\<lparr>Requests := drop (length due) xs\<rparr>) s1"
    by (auto split: if_splits)
  ultimately have r: "revocations s1 = revocations s" using f by simp
  have "revocations_scheduled s1" using assms(2) scheduled_eq(1)[OF r] by simp
  moreover have "revocations_scheduled (write_record acc (item\<lparr>Requests := drop (length due) xs\<rparr>) s1)"
    using set scheduled_eq(2)[OF r] calculation by (intro write_scheduled) (auto dest: in_set_dropD)
  ultimately show ?thesis using s' by blast
qed

section \<open>Properties\<close>

text \<open>C17. A revocation is never forgotten. In the application as it is put together, with all hooks, every
  request of every account that is not yet due keeps its task in the scheduler, at its own time and under
  the hook that pays it out, through each operation of the module that returns without error; and
  a Revoke leaves a request with its task, so the block that reaches that time pays it.\<close>

theorem revocations_stay_scheduled:
  fixes s :: "'s deleg_ctx_scheme"
  assumes "sorts_by_time (app_delegating L :: 's deleg_keeper)" "revocations_scheduled s"
    and "run \<in> {Delegate (app_delegating L) acc x, Revoke (app_delegating L) acc x express, OnBanished (app_delegating L) acc,
      MustPerformRevoking (app_delegating L) acc t, MustPerformAccrue (app_delegating L) acc t}"
    and "run s = (Ok (), s')"
  shows "revocations_scheduled s' \<and> (Revoke (app_delegating L) acc x express s = (Ok (), s') \<and> x \<noteq> 0 \<longrightarrow>
    (\<exists>r. r \<in> set (Requests (record_of acc s')) \<and> revocation_task acc r \<in> set (bucket s' (rq_Time r))))"
proof -
  have "revocations_scheduled s'"
    using assms(3,4) Delegate_scheduled[OF assms(2)] Revoke_scheduled(1)[OF assms(2)] OnBanished_scheduled[OF assms(2)]
      MustPerformRevoking_scheduled[OF assms(1,2)] MustPerformAccrue_scheduled[OF assms(2)] by auto
  then show ?thesis using Revoke_scheduled(2)[OF assms(2)] by blast
qed

definition ex_rctx :: deleg_ctx where
  "ex_rctx = ex_actx\<lparr>balances := [''r'' \<mapsto> [(ConfigDelegatedDenom, 50)]], total_supply := Some [(ConfigDelegatedDenom, 50)],
     deleg_store := [''r'' \<mapsto> \<lparr>NextAccrue = None, Requests = [\<lparr>rq_Time = 2000, rq_Amount = 10\<rparr>], MissedPart = None\<rparr>],
     sched_params_store := Some DefaultParameters, sched_store := [2000 \<mapsto> [new_task 2000 RevokeHookName ''r'']]\<rparr>"

lemma ex_revoke: "fst (Revoke (app_delegating ex_lib) ''r'' 20 False ex_rctx) = Ok ()"
  by code_simp

lemma ex_app_sorts: "sorts_by_time (app_delegating ex_lib)"
  using ex_sorts by (simp add: sorts_by_time_def ex_dk_def ex_lib_def)

lemma ex_rctx_scheduled: "revocations_scheduled ex_rctx"
  by (auto simp: revocations_scheduled_def ex_rctx_def bucket_def revocation_task_def split: if_splits)

theorem revocations_stay_scheduled_witness:
  "\<exists>s'. Revoke (app_delegating ex_lib) ''r'' 20 False ex_rctx = (Ok (), s') \<and> revocations_scheduled s'
    \<and> (\<exists>r. r \<in> set (Requests (record_of ''r'' s')) \<and> revocation_task ''r'' r \<in> set (bucket s' (rq_Time r)))"
proof -
  have "(20 :: int) \<noteq> 0" by simp
  then show ?thesis
    using revocations_stay_scheduled[where run = "Revoke (app_delegating ex_lib) ''r'' 20 False",
        OF ex_app_sorts ex_rctx_scheduled _ pair_of_fst[OF ex_revoke]] pair_of_fst[OF ex_revoke] by blast
qed

end
