(* ===== verification/App_Block.thy ===== *)
theory App_Block
  imports App_Revoking Noding_Genesis Referral_Genesis Voting_Polls
begin

text \<open>
  The order in which \<open>app/app.go\<close> runs the modules: at the beginning and the end of a block, and at
  genesis, where each module reads what the ones before it have written. Modules without a handler, and
  those of the SDK, are left out; the genesis of the accounts is the argument \<open>auth\<close>.
\<close>

section \<open>Blocks\<close>

text \<open>What a block brings: who proposed it, who signed the last one, and the evidence.\<close>

record block_info =
  bi_Proposer :: cons_addr
  bi_Votes :: "(cons_addr \<times> int) list"
  bi_CometInfo :: "misbehavior list option"

definition app_BeginBlock ::
    "app_lib \<Rightarrow> text_lib \<Rightarrow> (addr \<Rightarrow> 64 word) \<Rightarrow> 's voting_keeper \<Rightarrow> block_info \<Rightarrow> 's voting_op" where
  "app_BeginBlock L texts number vk b s =
     and_then (nod_BeginBlocker (app_noding L) (bi_Proposer b) (bi_Votes b) (bi_CometInfo b) s) (\<lambda>_ s.
     sched_BeginBlocker (app_hooks L texts number vk) s)"

definition app_EndBlock ::
    "app_lib \<Rightarrow> 's voting_ctx_scheme \<Rightarrow> abci_update list res \<times> 's voting_ctx_scheme" where
  "app_EndBlock L s = nod_EndBlocker (app_noding L) s"

section \<open>Genesis\<close>

record app_genesis =
  ag_Schedule :: "sched_params \<times> task list"
  ag_Referral :: ref_genesis
  ag_Bank :: bank_genesis
  ag_Profile :: prof_genesis
  ag_Delegating :: deleg_genesis
  ag_Noding :: nod_genesis
  ag_Voting :: voting_genesis
  ag_Earning :: earn_genesis

definition app_InitGenesis ::
    "app_lib \<Rightarrow> text_lib \<Rightarrow> (addr \<Rightarrow> 64 word) \<Rightarrow> 's voting_keeper \<Rightarrow> 's voting_op \<Rightarrow> app_genesis \<Rightarrow>
     's voting_ctx_scheme \<Rightarrow> abci_update list res \<times> 's voting_ctx_scheme" where
  "app_InitGenesis L texts number vk auth g s =
     and_then (sched_InitGenesis (fst (ag_Schedule g)) (snd (ag_Schedule g)) s) (\<lambda>_ s.
     and_then (auth s) (\<lambda>_ s.
     and_then (ref_InitGenesis (app_referral L) (ag_Referral g) s) (\<lambda>_ s.
     and_then (bank_InitGenesis (app_bank L) (ag_Bank g) s) (\<lambda>_ s.
     and_then (prof_InitGenesis (app_profile L texts number) (ag_Profile g) s) (\<lambda>_ s.
     and_then (deleg_InitGenesis (al_sdk L) (ag_Delegating g) s) (\<lambda>_ s.
     and_then (nod_InitGenesis (app_noding L) (ag_Noding g) s) (\<lambda>updates s.
     and_then (voting_InitGenesis vk (ag_Voting g) s) (\<lambda>_ s.
     and_then (earn_InitGenesis (al_sdk L) (ag_Earning g) s) (\<lambda>_ s.
     (Ok updates, s))))))))))"

section \<open>What the order gives\<close>

text \<open>A block whose time is in range does not fail after \<open>x/noding\<close>: the scheduler recovers the panics of its tasks.\<close>

lemma app_BeginBlock_Ok:
  assumes "nod_BeginBlocker (app_noding L) (bi_Proposer b) (bi_Votes b) (bi_CometInfo b) s = (Ok (), s1)"
    and "sched_inv s1" "key_ok (block_time s1 + 1)"
  shows "fst (app_BeginBlock L texts number vk b s) = Ok ()"
  using assms PerformSchedule_eq[OF assms(2,3)] by (simp add: app_BeginBlock_def sched_BeginBlocker_def Let_def)

section \<open>Properties\<close>

lemma app_hooks_revoke: "app_hooks L texts number vk RevokeHookName = Some (MustPerformRevoking (app_delegating L))"
  by (simp add: app_hooks_def RevokeHookName_def AccrueHookName_def BanishHookName_def)

lemma bal_store: "bal K (s\<lparr>sched_store := m\<rparr>) = bal K s"
  by (simp add: bal_def coins_of_def fun_eq_iff)

text \<open>C18. The block at which revoked coins are due pays them. In the application as it is put together, when the one
  task that is due is the revocation of an account and its hook does not fail, the scheduler's part of the block
  returns without error, turns exactly the requests that are due from revoking coins into main coins of the
  account, changes no other balance in any denomination, and leaves no task that was due.\<close>

theorem block_pays_revocation:
  fixes s :: "'s voting_ctx_scheme"
  assumes "sdk_laws (al_sdk L)" "bank_inv (al_sdk L) s" "supply_matches (al_sdk L) s" "sorts_by_time (app_delegating L :: 's voting_ctx_ext deleg_keeper)"
    and "sched_inv s" "key_ok (block_time s + 1)" "tasks_between 0 (block_time s + 1) s = [revocation_task acc r]"
    and "deleg_store s acc = Some item" "fst (MustPerformRevoking (app_delegating L) acc (rq_Time r) s) = Ok ()"
  shows "\<exists>s'. sched_BeginBlocker (app_hooks L texts number vk) s = (Ok (), s')
    \<and> (\<forall>a d. bal (al_sdk L) s' a d = bal (al_sdk L) s a d + (if a = acc
        then of_denom ConfigMainDenom (due_amount (block_time s) (Requests item)) d
          - of_denom ConfigRevokingDenom (due_amount (block_time s) (Requests item)) d else 0))
    \<and> (\<forall>x \<le> block_time s. x \<in> dom (sched_store s) \<longrightarrow> sched_store s' x = None)"
proof -
  let ?K = "app_delegating L :: 's voting_ctx_ext deleg_keeper"
  let ?s1 = "snd (MustPerformRevoking ?K acc (rq_Time r) s)"
  have K: "deleg_laws ?K" "dk_sdk ?K = al_sdk L"
    using app_deleg_laws[OF assms(1)] by (simp_all add: app_bank_over_def)
  have run: "performRevoking ?K acc s = (Ok (), ?s1)"
    using assms(9) by (cases "performRevoking ?K acc s"; cases "fst (performRevoking ?K acc s)") (auto simp: MustPerformRevoking_def)
  have "ledger (dk_sdk ?K) s (\<lambda>d. 0)" using assms(2,3) by (simp only: ledger_zero K)
  note pays = deleg_laws.performRevoking_pays[OF K(1) this assms(8,4) run, unfolded K(2)]
  have "performSchedule (app_hooks L texts number vk) (revocation_task acc r) s = ?s1"
    by (simp add: performSchedule_def revocation_task_def app_hooks_revoke)
  then have "sched_BeginBlocker (app_hooks L texts number vk) s = (Ok (), ?s1\<lparr>sched_store := sched_store ?s1 |`
      (- {x \<in> dom (sched_store s). x \<le> block_time s})\<rparr>)"
    using PerformSchedule_eq[OF assms(5,6), of "app_hooks L texts number vk"] assms(7)
    by (simp add: sched_BeginBlocker_def Let_def)
  then show ?thesis using pays by (simp add: bal_store)
qed

text \<open>A block at time 1000 with a request of that time.\<close>

definition ex_request :: revoke_request where "ex_request = \<lparr>rq_Time = 1000, rq_Amount = 10\<rparr>"

definition ex_bctx :: voting_ctx where
  "ex_bctx = (ex_vctx [])\<lparr>ref_store := ref_store ex_tree, balances := [''r'' \<mapsto> [(ConfigRevokingDenom, 10)]],
     total_supply := Some [(ConfigRevokingDenom, 10)],
     deleg_store := [''r'' \<mapsto> \<lparr>NextAccrue = None, Requests = [ex_request], MissedPart = None\<rparr>],
     sched_store := [1000 \<mapsto> [revocation_task ''r'' ex_request]]\<rparr>"

lemma ex_bctx_pays: "fst (MustPerformRevoking (app_delegating ex_lib) ''r'' (rq_Time ex_request) ex_bctx) = Ok ()"
  by code_simp

lemma ex_bctx_books: "bank_inv (al_sdk ex_lib) ex_bctx" "supply_matches (al_sdk ex_lib) ex_bctx"
  by (auto simp: bank_inv_def supply_matches_def circulating_def bal_def coins_of_def ex_bctx_def ex_vctx_def
      ref_sdk_def ref_valid_def split: if_splits)

lemma ex_bctx_schedule:
  "sched_inv ex_bctx" "key_ok (block_time ex_bctx + 1)"
  "tasks_between 0 (block_time ex_bctx + 1) ex_bctx = [revocation_task ''r'' ex_request]"
  "deleg_store ex_bctx ''r'' = Some \<lparr>NextAccrue = None, Requests = [ex_request], MissedPart = None\<rparr>"
  by (auto simp: sched_inv_def key_ok_def year_2263_def Hour_def tasks_between_def store_keys_def ex_bctx_def ex_vctx_def
      revocation_task_def ex_request_def)

definition ex_plain_texts :: text_lib where
  "ex_plain_texts = \<lparr>ToLower = id, ToTitle = id, TrimSpace = id, ErrorText = (\<lambda>e. [])\<rparr>"

theorem block_pays_revocation_witness:
  "\<exists>s'. sched_BeginBlocker (app_hooks ex_lib ex_plain_texts (\<lambda>a. 7) ex_vk) ex_bctx = (Ok (), s')
    \<and> bal ref_sdk s' ''r'' ConfigMainDenom = bal ref_sdk ex_bctx ''r'' ConfigMainDenom + 10"
proof -
  have L: "sdk_laws (al_sdk ex_lib)" by (simp add: ref_coins.sdk_laws_axioms)
  have "due_amount (block_time ex_bctx) [ex_request] = 10"
    by (simp add: due_amount_def ex_request_def ex_bctx_def ex_vctx_def)
  then show ?thesis
    using block_pays_revocation[OF L ex_bctx_books ex_app_sorts ex_bctx_schedule ex_bctx_pays, of ex_plain_texts "\<lambda>a. 7" ex_vk]
    by (auto simp: of_denom_def ConfigMainDenom_def ConfigRevokingDenom_def)
qed

end
