(* ===== verification/Profile_Props.thy ===== *)
theory Profile_Props
  imports App
begin

text \<open>
  The properties of \<open>x/profile\<close> and \<open>x/earning\<close>, for the keepers the application puts together: the index of
  the nicknames has one owner for each of them, and a service is active for two days.
\<close>

section \<open>The index of the nicknames\<close>

text \<open>The index of the nicknames after a profile was set.\<close>

definition aliases_set :: "text_lib \<Rightarrow> addr \<Rightarrow> profile option \<Rightarrow> profile \<Rightarrow> (string \<rightharpoonup> addr) \<Rightarrow> (string \<rightharpoonup> addr)" where
  "aliases_set T a old p m =
     (let n = TrimSpace T (Nickname p);
          put = (\<lambda>m. if n = [] then m else m(ToLower T n \<mapsto> a))
      in case old of
           None \<Rightarrow> put m
         | Some q \<Rightarrow>
             if Nickname q = Nickname p then m
             else put (if Nickname q = [] then m else m(ToLower T (Nickname q) := None)))"

text \<open>
  What the code relies on of Go's \<open>strings\<close> package, and the key of a nickname in the index.
\<close>

definition text_laws :: "text_lib \<Rightarrow> bool" where
  "text_laws T \<longleftrightarrow> (\<forall>x. TrimSpace T (TrimSpace T x) = TrimSpace T x)
     \<and> (\<forall>x. TrimSpace T (ToLower T x) = ToLower T (TrimSpace T x)) \<and> (\<forall>x. ToLower T x = [] \<longleftrightarrow> x = [])"

definition nick_key :: "text_lib \<Rightarrow> profile \<Rightarrow> string" where
  "nick_key T p = ToLower T (TrimSpace T (Nickname p))"

text \<open>Every profile with a nickname is found under it.\<close>

definition owned :: "text_lib \<Rightarrow> (addr \<rightharpoonup> profile) \<Rightarrow> (string \<rightharpoonup> addr) \<Rightarrow> bool" where
  "owned T ps m \<longleftrightarrow> (\<forall>a p. ps a = Some p \<and> nick_key T p \<noteq> [] \<longrightarrow> m (nick_key T p) = Some a)"

lemma owned_unique:
  "owned T ps m \<Longrightarrow> ps a = Some p \<Longrightarrow> ps b = Some q \<Longrightarrow> nick_key T p = nick_key T q \<Longrightarrow> nick_key T p \<noteq> [] \<Longrightarrow> a = b"
  unfolding owned_def by (metis option.inject)

lemma owned_set:
  assumes T: "text_laws T" and o: "owned T ps m" and p': "Nickname p' = Nickname p"
    and free: "TrimSpace T (Nickname p) = [] \<or> m (nick_key T p) = None \<or> m (nick_key T p) = Some a"
  shows "owned T (ps(a \<mapsto> p')) (aliases_set T a (ps a) p m)"
proof -
  have key: "nick_key T p' = nick_key T p" by (simp add: nick_key_def p')
  have trim: "TrimSpace T (nick_key T q) = nick_key T q" for q
    using T unfolding text_laws_def nick_key_def by metis
  have empty: "nick_key T q = [] \<longleftrightarrow> TrimSpace T (Nickname q) = []" for q
    using T by (simp add: nick_key_def text_laws_def)
  have other: "aliases_set T a (ps a) p m (nick_key T r) = Some b"
    if r: "ps b = Some r" "nick_key T r \<noteq> []" "b \<noteq> a" for b r
  proof -
    have mb: "m (nick_key T r) = Some b" using o r by (simp add: owned_def)
    then have "TrimSpace T (Nickname p) = [] \<or> nick_key T r \<noteq> nick_key T p" using free r(3) by auto
    moreover have "nick_key T r \<noteq> ToLower T (Nickname q)" if q: "ps a = Some q" "Nickname q \<noteq> []" for q
    proof
      assume e: "nick_key T r = ToLower T (Nickname q)"
      have "nick_key T q = TrimSpace T (ToLower T (Nickname q))"
        using T unfolding text_laws_def nick_key_def by metis
      then have "nick_key T q = nick_key T r" using trim[of r] by (simp only: e)
      then show False using owned_unique[OF o r(1) q(1)] r(2,3) by simp
    qed
    ultimately show ?thesis using mb
      by (cases "ps a") (auto simp: aliases_set_def Let_def simp flip: nick_key_def)
  qed
  have own: "aliases_set T a (ps a) p m (nick_key T p) = Some a" if "nick_key T p \<noteq> []"
  proof (cases "ps a")
    case None
    then show ?thesis using that empty[of p] by (simp add: aliases_set_def Let_def flip: nick_key_def)
  next
    case (Some q)
    then have "m (nick_key T p) = Some a" if "Nickname q = Nickname p"
      using o that \<open>nick_key T p \<noteq> []\<close> by (metis owned_def nick_key_def)
    then show ?thesis using that Some empty[of p] by (simp add: aliases_set_def Let_def flip: nick_key_def)
  qed
  show ?thesis
    unfolding owned_def using own other by (auto simp: key)
qed

section \<open>What the keepers below leave alone\<close>

text \<open>What \<open>x/profile\<close> relies on: the other modules do not write to its stores.\<close>

locale prof_services =
  fixes k :: "'s prof_keeper"
  assumes pays: "prof_index (snd (SendCoinsFromAccountToModule (pk_bank k) a m c s)) = prof_index s"
    and switches: "prof_index (snd (MustSetActive (pk_ref k) x v s)) = prof_index s"
    and joins: "prof_index (snd (AppendChild (pk_ref k) x y s)) = prof_index s"
begin

lemma pays_Ok: "SendCoinsFromAccountToModule (pk_bank k) a m c s = (r, s') \<Longrightarrow> prof_index s' = prof_index s"
  using pays[of a m c s] by simp

lemma switches_Ok: "MustSetActive (pk_ref k) x v s = (r, s') \<Longrightarrow> prof_index s' = prof_index s"
  using switches[of x v s] by simp

lemma joins_Ok: "AppendChild (pk_ref k) x y s = (r, s') \<Longrightarrow> prof_index s' = prof_index s"
  using joins[of x y s] by simp

lemma ScheduleCompression_Ok: "ScheduleCompression x t s = (r, s') \<Longrightarrow> prof_index s' = prof_index s"
  using index_view.view_ScheduleTask[of CompressionHookName t x s] by (simp add: ScheduleCompression_def)

lemma rename_Ok:
  assumes "rename k a q p (TrimSpace (pk_text k) (Nickname p)) s = (Ok (), s')"
  shows "prof_store s' = prof_store s" "prof_aliases s' = aliases_set (pk_text k) a (Some q) p (prof_aliases s)"
  using assms
  by (auto simp: rename_def aliases_set_def Let_def and_then_Ok_iff removeProfileAccountByNickname_def
      setProfileAccountByNickname_def lift_res_def prof_index_def split: if_splits dest!: pays_Ok)

lemma SetProfile_Ok:
  assumes "SetProfile k a p s = (Ok (), s')"
  obtains p' where "prof_store s' = (prof_store s)(a \<mapsto> p')" "Nickname p' = Nickname p"
    "prof_aliases s' = aliases_set (pk_text k) a (prof_store s a) p (prof_aliases s)"
    "ValidateProfileNickname k a (TrimSpace (pk_text k) (Nickname p)) s = Ok ()"
proof -
  let ?n = "TrimSpace (pk_text k) (Nickname p)"
  obtain p' s1 where v: "ValidateProfileNickname k a ?n s = Ok ()"
    and i: "(case GetProfile a s of None \<Rightarrow> (Ok p, first_indices k a p ?n s)
      | Some q \<Rightarrow> and_then (rename k a q p ?n s) (\<lambda>_ s. (case reissue_card a q p s of (p', s) \<Rightarrow> (Ok p', s)))) = (Ok p', s1)"
    and r: "prof_index s' = prof_index ((write_profile a p' s1)\<lparr>accounts := insert a (accounts (write_profile a p' s1))\<rparr>)"
    using assms by (auto simp: SetProfile_def Let_def and_then_Ok_iff lift_res_def split: if_splits dest: switches_Ok)
  have s1: "prof_store s1 = prof_store s \<and> prof_aliases s1 = aliases_set (pk_text k) a (prof_store s a) p (prof_aliases s)
    \<and> Nickname p' = Nickname p"
  proof (cases "prof_store s a")
    case None
    then show ?thesis using i by (auto simp: GetProfile_def first_indices_def aliases_set_def Let_def
          setProfileAccountByNickname_def setProfileAccountByCardNumber_def)
  next
    case (Some q)
    then obtain s2 where "rename k a q p ?n s = (Ok (), s2)"
      and c: "(case reissue_card a q p s2 of (p', s) \<Rightarrow> (Ok p', s)) = (Ok p', s1)"
      using i by (auto simp: GetProfile_def and_then_Ok_iff)
    moreover have "reissue_card a q p s2 = (p', s1)" using c by (cases "reissue_card a q p s2") auto
    ultimately show ?thesis using Some rename_Ok[of a q p s s2]
      by (auto simp: reissue_card_def setProfileAccountByCardNumber_def removeProfileAccountByCardNumber_def split: if_splits)
  qed
  show thesis by (rule that[of p']) (use s1 r v in \<open>auto simp: prof_index_def write_profile_def\<close>)
qed

lemma CreateAccountWithProfile_Ok:
  assumes "CreateAccountWithProfile k a ref p s = (Ok (), s')"
  obtains p1 s1 where "SetProfile k a p1 s1 = (Ok (), s')" "Nickname p1 = Nickname p" "prof_index s1 = prof_index s"
proof -
  obtain s0 s1 where "AppendChild (pk_ref k) (AccString (pk_sdk k) ref) (AccString (pk_sdk k) a)
      (s\<lparr>accounts := insert a (accounts s)\<rparr>) = (Ok (), s0)"
    and s1: "ScheduleCompression (AccString (pk_sdk k) a) (block_time s0 + CompressionPeriod s0) s0 = (Ok (), s1)"
    "SetProfile k a (p\<lparr>CardNumber := CardNumberByAccountNumber (pk_number k a) s1\<rparr>) s1 = (Ok (), s')"
    using assms by (auto simp: CreateAccountWithProfile_def and_then_Ok_iff)
  then have "prof_index s1 = prof_index s"
    using joins_Ok ScheduleCompression_Ok[OF s1(1)] by (fastforce simp: prof_index_def)
  then show thesis using that s1(2) by simp
qed

end

section \<open>The bank and the referral tree of the application\<close>

interpretation app_prof: prof_services "app_profile L T number" for L T number
  unfolding app_profile_def app_bank_def app_referral_def
  by unfold_locales (simp_all only: prof_keeper.simps app_index.SendCoinsFromAccountToModule_view
      view_callbacks.MustSetActive_view[OF app_index.callbacks] view_callbacks.AppendChild_view[OF app_index.callbacks])

section \<open>Nicknames\<close>

definition prof_nicks :: "text_lib \<Rightarrow> 's prof_ctx_scheme \<Rightarrow> bool" where
  "prof_nicks T s = owned T (prof_store s) (prof_aliases s)"

lemma prof_nicks_index: "prof_index s' = prof_index s \<Longrightarrow> prof_nicks T s' = prof_nicks T s"
  by (simp add: prof_index_def prof_nicks_def)

lemma validated_free:
  assumes "ValidateProfileNickname k a (TrimSpace (pk_text k) (Nickname p)) s = Ok ()"
  shows "TrimSpace (pk_text k) (Nickname p) = [] \<or> prof_aliases s (nick_key (pk_text k) p) = None
    \<or> prof_aliases s (nick_key (pk_text k) p) = Some a"
  using assms by (auto simp: ValidateProfileNickname_def GetProfileAccountByNickname_def nick_key_def
      split: if_splits option.splits)

context prof_services
begin

lemma SetProfile_nicks:
  assumes "text_laws (pk_text k)" "prof_nicks (pk_text k) s" "SetProfile k a p s = (Ok (), s')"
  shows "prof_nicks (pk_text k) s'"
proof -
  obtain p' where p': "prof_store s' = (prof_store s)(a \<mapsto> p')" "Nickname p' = Nickname p"
    "prof_aliases s' = aliases_set (pk_text k) a (prof_store s a) p (prof_aliases s)"
    and v: "ValidateProfileNickname k a (TrimSpace (pk_text k) (Nickname p)) s = Ok ()"
    by (rule SetProfile_Ok[OF assms(3)])
  show ?thesis
    unfolding prof_nicks_def p'(1,3)
    by (rule owned_set[OF assms(1) assms(2)[unfolded prof_nicks_def] p'(2) validated_free[OF v]])
qed

lemma CreateAccountWithProfile_nicks:
  assumes "text_laws (pk_text k)" "prof_nicks (pk_text k) s" "CreateAccountWithProfile k a r p s = (Ok (), s')"
  shows "prof_nicks (pk_text k) s'"
proof -
  obtain p1 s1 where "SetProfile k a p1 s1 = (Ok (), s')" "prof_index s1 = prof_index s"
    by (rule CreateAccountWithProfile_Ok[OF assms(3)])
  then show ?thesis using SetProfile_nicks[OF assms(1)] prof_nicks_index assms(2) by blast
qed

lemma msg_UpdateProfile_nicks:
  assumes "text_laws (pk_text k)" "prof_nicks (pk_text k) s" "msg_UpdateProfile k msg s = (Ok (), s')"
  shows "prof_nicks (pk_text k) s'"
proof -
  obtain a p s1 where s1: "SetProfile k a p s = (Ok (), s1)" and s': "prof_index s' = prof_index s1"
    using assms(3) by (auto simp: msg_UpdateProfile_def tagged_def TagTx_def and_then_Ok_iff lift_res_def
        prof_index_def emit_def split: option.splits)
  then show ?thesis using SetProfile_nicks[OF assms(1,2) s1] prof_nicks_index by blast
qed

end

lemma write_profile_nicks:
  assumes "prof_nicks T s" "prof_store s a = Some q" "Nickname p = Nickname q"
  shows "prof_nicks T (write_profile a p s)"
  using assms by (auto simp: prof_nicks_def owned_def write_profile_def nick_key_def)

lemma current_nicks:
  "prof_nicks T s \<Longrightarrow> SetStorageCurrent a v s = (Ok (), s') \<Longrightarrow> prof_nicks T s'"
  "prof_nicks T s \<Longrightarrow> SetVpnCurrent a v s = (Ok (), s') \<Longrightarrow> prof_nicks T s'"
  by (auto simp: SetStorageCurrent_def SetVpnCurrent_def GetProfile_def intro!: write_profile_nicks
      split: option.splits)

section \<open>Who serves VPN and storage\<close>

lemma earn_get_simps:
  "earn_get acc (earn_delete acc s) = NewTimestamps None None" "earn_get acc (earn_set acc t s) = t"
  "earn_has acc (earn_set acc t s)" "\<not> earn_has acc (earn_delete acc s)"
  "block_time (earn_delete acc s) = block_time s" "block_time (earn_set acc t s) = block_time s"
  "OneDay (earn_delete acc s) = OneDay s" "OneDay (earn_set acc t s) = OneDay s"
  by (simp_all add: earn_get_def earn_delete_def earn_set_def earn_has_def OneDay_def sched_GetParams_def)

lemma NewTimestamps_sel [simp]: "ts_Vpn (NewTimestamps v w) = v" "ts_Storage (NewTimestamps v w) = w"
  by (simp_all add: NewTimestamps_def)

lemma still_seen_frame:
  "block_time s' = block_time s \<Longrightarrow> OneDay s' = OneDay s \<Longrightarrow> still_seen t s' = still_seen t s"
  by (simp add: still_seen_def split: option.split)

text \<open>The times of an account after it was looked at.\<close>

lemma IsActiveEarner_after:
  assumes "IsActiveEarner acc s = (Ok (v, w), s')"
  shows "v = still_seen (ts_Vpn (earn_get acc s)) s" "w = still_seen (ts_Storage (earn_get acc s)) s"
    "ts_Vpn (earn_get acc s') = (if v then ts_Vpn (earn_get acc s) else None)"
    "ts_Storage (earn_get acc s') = (if w then ts_Storage (earn_get acc s) else None)"
    "earn_has acc s' \<longleftrightarrow> v \<or> w" "block_time s' = block_time s" "OneDay s' = OneDay s"
    "b \<noteq> acc \<Longrightarrow> earn_store s' b = earn_store s b"
proof -
  let ?t = "earn_get acc s"
  have none: "earn_get acc s = NewTimestamps None None" if "\<not> earn_has acc s"
    using that by (simp add: earn_has_def earn_get_def)
  show v: "v = still_seen (ts_Vpn ?t) s" and w: "w = still_seen (ts_Storage ?t) s"
    using assms none by (auto simp: IsActiveEarner_def Let_def still_seen_def split: if_splits)
  have some: "v \<Longrightarrow> ts_Vpn ?t \<noteq> None" "w \<Longrightarrow> ts_Storage ?t \<noteq> None"
    by (auto simp: v w still_seen_def split: option.splits)
  have neither: "\<not> v \<and> \<not> w" if "\<not> earn_has acc s" using none[OF that] by (simp add: v w still_seen_def)
  have s': "s' = (if \<not> earn_has acc s then s else if \<not> v \<and> \<not> w then earn_delete acc s
      else if ts_Vpn ?t \<noteq> None \<and> \<not> v \<or> ts_Storage ?t \<noteq> None \<and> \<not> w
      then earn_set acc (NewTimestamps (if v then ts_Vpn ?t else None) (if w then ts_Storage ?t else None)) s else s)"
    using assms some unfolding v w by (auto simp: IsActiveEarner_def Let_def split: if_splits)
  show "ts_Vpn (earn_get acc s') = (if v then ts_Vpn ?t else None)"
    "ts_Storage (earn_get acc s') = (if w then ts_Storage ?t else None)" "earn_has acc s' \<longleftrightarrow> v \<or> w"
    "block_time s' = block_time s" "OneDay s' = OneDay s"
    using some none neither by (auto simp: s' earn_get_simps)
  show "earn_store s' b = earn_store s b" if "b \<noteq> acc"
    using assms that by (auto simp: IsActiveEarner_def Let_def earn_delete_def earn_set_def split: if_splits)
qed

section \<open>Examples\<close>

text \<open>Letters of ASCII, and the blank as the only white space.\<close>

definition lower_char :: "char \<Rightarrow> char" where
  "lower_char c = (if 65 \<le> (of_char c :: nat) \<and> of_char c \<le> (90 :: nat) then char_of (of_char c + 32 :: nat) else c)"

definition strip :: "string \<Rightarrow> string" where
  "strip x = dropWhile (\<lambda>c. c = CHR '' '') x"

definition ex_texts :: text_lib where
  "ex_texts = \<lparr>ToLower = map lower_char, ToTitle = id, TrimSpace = (\<lambda>x. rev (strip (rev (strip x)))),
     ErrorText = (\<lambda>e. [])\<rparr>"

lemma lower_char_blank: "lower_char c = CHR '' '' \<longleftrightarrow> c = CHR '' ''"
proof -
  have "lower_char c \<noteq> CHR '' ''" if "65 \<le> (of_char c :: nat)" "of_char c \<le> (90 :: nat)"
  proof
    assume "lower_char c = CHR '' ''"
    then have "(of_char (char_of (of_char c + 32 :: nat)) :: nat) = of_char (CHR '' '')" using that by (simp add: lower_char_def)
    then show False using that by simp
  qed
  moreover have "\<not> 65 \<le> (of_char (CHR '' '') :: nat)" by simp
  ultimately show ?thesis by (auto simp: lower_char_def)
qed

lemma strip_map: "strip (map lower_char x) = map lower_char (strip x)"
  by (simp add: strip_def dropWhile_map comp_def lower_char_blank)

lemma strip_strip: "strip (strip x) = strip x"
  by (simp add: strip_def)

lemma strip_last: "strip (rev (strip (rev (strip x)))) = rev (strip (rev (strip x)))"
proof (cases "strip x")
  case (Cons c y)
  have "c \<noteq> CHR '' ''" using Cons unfolding strip_def using hd_dropWhile[of "\<lambda>c. c = CHR '' ''" x] by auto
  have "\<exists>z. strip (rev y @ [c]) = z @ [c]" using \<open>c \<noteq> CHR '' ''\<close> by (auto simp: strip_def dropWhile_append)
  then obtain z where "strip (rev (strip x)) = z @ [c]" by (auto simp: Cons)
  then show ?thesis using \<open>c \<noteq> CHR '' ''\<close> by (simp add: strip_def)
next
  case Nil
  moreover have "strip [] = []" by (simp add: strip_def)
  ultimately show ?thesis by simp
qed

lemma ex_texts_laws: "text_laws ex_texts"
  by (simp add: text_laws_def ex_texts_def strip_map strip_strip strip_last rev_map)

text \<open>The account \<open>r\<close> has a nickname with a blank after it.\<close>

definition ex_pctx :: deleg_ctx where
  "ex_pctx = ex_actx\<lparr>prof_store := [''r'' \<mapsto> zero_profile\<lparr>Nickname := ''Ann ''\<rparr>],
     prof_aliases := [''ann'' \<mapsto> ''r'']\<rparr>"

lemma ex_pctx_sel [simp]:
  "prof_store ex_pctx = [''r'' \<mapsto> zero_profile\<lparr>Nickname := ''Ann ''\<rparr>]" "prof_aliases ex_pctx = [''ann'' \<mapsto> ''r'']"
  by (simp_all add: ex_pctx_def)

lemma ex_keys: "nick_key ex_texts (zero_profile\<lparr>Nickname := ''Ann ''\<rparr>) = ''ann''"
  "ToLower ex_texts ''Ann '' = ''ann ''" "nick_key ex_texts zero_profile = []" "ToLower ex_texts [] = []"
  "nick_key ex_texts (zero_profile\<lparr>Nickname := ''ANN''\<rparr>) = ''ann''"
  by code_simp+

lemma ex_nicks: "prof_nicks ex_texts ex_pctx"
  by (auto simp: prof_nicks_def owned_def ex_keys split: if_splits)

abbreviation ex_prof :: "unit deleg_ctx_ext earn_ctx_ext prof_keeper" where
  "ex_prof \<equiv> app_profile ex_lib ex_texts (\<lambda>a. 7)"

lemma ex_set: "fst (SetProfile ex_prof ''a'' (zero_profile\<lparr>Nickname := '' Bob''\<rparr>) ex_pctx) = Ok ()"
  by code_simp

lemma ex_unset: "fst (SetProfile ex_prof ''r'' zero_profile ex_pctx) = Ok ()"
  by code_simp

section \<open>Properties\<close>

text \<open>C19. No two accounts share a nickname. While every profile with a nickname is the one found
  under it, letter case and surrounding white space aside, an account is created, a profile set or
  updated by a message, or a consumption counter written, and it stays so: two
  accounts whose nicknames have the same key are one. The keepers of money, referrals and activity
  are the ones of the application, hooks included.\<close>

theorem nicknames_have_one_owner:
  fixes s :: "'s deleg_ctx_scheme"
  assumes "text_laws T" "prof_nicks T s"
    and "run \<in> {SetProfile (app_profile L T number) a p, CreateAccountWithProfile (app_profile L T number) a r p,
      msg_UpdateProfile (app_profile L T number) msg, SetStorageCurrent a v, SetVpnCurrent a v}"
    and "run s = (Ok (), s')"
  shows "prof_nicks T s' \<and> (\<forall>x y p q. prof_store s' x = Some p \<and> prof_store s' y = Some q
    \<and> nick_key T p = nick_key T q \<and> nick_key T p \<noteq> [] \<longrightarrow> x = y)"
proof -
  let ?k = "app_profile L T number :: 's deleg_ctx_ext earn_ctx_ext prof_keeper"
  have T: "text_laws (pk_text ?k)" "prof_nicks (pk_text ?k) s" using assms(1,2) by (simp_all add: app_profile_def)
  have "prof_nicks (pk_text ?k) s'"
    using assms(3,4) T(2) app_prof.SetProfile_nicks[OF T] app_prof.CreateAccountWithProfile_nicks[OF T]
      app_prof.msg_UpdateProfile_nicks[OF T] current_nicks by auto
  then have "prof_nicks T s'" by (simp add: app_profile_def)
  then show ?thesis using owned_unique unfolding prof_nicks_def by blast
qed

theorem nicknames_have_one_owner_witness:
  "\<exists>s'. SetProfile ex_prof ''a'' (zero_profile\<lparr>Nickname := '' Bob''\<rparr>) ex_pctx = (Ok (), s') \<and> prof_nicks ex_texts s'"
proof -
  let ?run = "SetProfile ex_prof ''a'' (zero_profile\<lparr>Nickname := '' Bob''\<rparr>)"
  from nicknames_have_one_owner[where run = ?run, OF ex_texts_laws ex_nicks _ pair_of_fst[OF ex_set]]
  show ?thesis using pair_of_fst[OF ex_set] by blast
qed

text \<open>C26. A nickname with white space around it is never given back. The index has it without the
  white space, but when its owner takes another nickname, or none, the key that is removed is made
  of the nickname as it stands in the profile. So the index goes on naming the old owner, and
  every other account that asks for the nickname is refused.\<close>

theorem padded_nickname_stays_reserved:
  fixes s :: "'s deleg_ctx_scheme"
  assumes "prof_nicks T s" "prof_store s a = Some q" "nick_key T q \<noteq> []" "ToLower T (Nickname q) \<noteq> nick_key T q"
    and "nick_key T p \<noteq> nick_key T q" "SetProfile (app_profile L T number) a p s = (Ok (), s')"
    and "b \<noteq> a" "nick_key T x = nick_key T q" "ToLower T [] = []"
  shows "prof_aliases s' (nick_key T q) = Some a
    \<and> (\<exists>e\<in>{ErrNicknameAlreadyInUse, ErrNicknamePrefix}. SetProfile (app_profile L T number) b x s' = (Err e, s'))"
proof -
  let ?k = "app_profile L T number :: 's deleg_ctx_ext earn_ctx_ext prof_keeper"
  have T: "pk_text ?k = T" by (simp add: app_profile_def)
  have "prof_aliases s (nick_key T q) = Some a" using assms(1-3) by (simp add: prof_nicks_def owned_def)
  moreover have "Nickname q \<noteq> Nickname p" using assms(5) by (auto simp: nick_key_def)
  ultimately have "aliases_set T a (Some q) p (prof_aliases s) (nick_key T q) = Some a"
    using assms(4,5) by (auto simp: aliases_set_def Let_def simp flip: nick_key_def)
  then have taken: "prof_aliases s' (nick_key T q) = Some a"
    using app_prof.SetProfile_Ok[OF assms(6)] assms(2) T by metis
  have "TrimSpace T (Nickname x) \<noteq> []" using assms(3,8,9) by (auto simp: nick_key_def)
  moreover have "prof_aliases s' (ToLower T (TrimSpace T (Nickname x))) = Some a"
    using taken assms(8) by (simp add: nick_key_def)
  ultimately have "\<exists>e\<in>{ErrNicknameAlreadyInUse, ErrNicknamePrefix}.
      ValidateProfileNickname ?k b (TrimSpace T (Nickname x)) s' = Err e"
    using assms(7) T by (auto simp: ValidateProfileNickname_def GetProfileAccountByNickname_def)
  then show ?thesis using taken by (auto simp: SetProfile_def Let_def lift_res_def T)
qed

theorem padded_nickname_stays_reserved_witness:
  "\<exists>s' e. SetProfile ex_prof ''r'' zero_profile ex_pctx = (Ok (), s')
    \<and> SetProfile ex_prof ''a'' (zero_profile\<lparr>Nickname := ''ANN''\<rparr>) s' = (Err e, s')"
proof -
  have "(''a'' :: string) \<noteq> ''r''" by simp
  from padded_nickname_stays_reserved[where x = "zero_profile\<lparr>Nickname := ''ANN''\<rparr>" and q = "zero_profile\<lparr>Nickname := ''Ann ''\<rparr>",
      OF ex_nicks _ _ _ _ pair_of_fst[OF ex_unset] this]
  show ?thesis using pair_of_fst[OF ex_unset] by (auto simp: ex_keys)
qed


definition ex_ectx :: deleg_ctx where
  "ex_ectx = ex_actx\<lparr>block_time := 5 * 86400000000000, sched_params_store := Some DefaultParameters, earn_store :=
     [''a'' \<mapsto> NewTimestamps (Some 0) (Some (4 * 86400000000000))]\<rparr>"

lemma ex_seen: "fst (IsActiveEarner ''a'' ex_ectx) = Ok (False, True)"
  by code_simp


end
